theory Spec2Isabelle
  imports Complex_Main
begin

section \<open>JavaScript strings\<close>

text \<open>
  A JavaScript string is a sequence of UTF-16 code units; the model keeps each unit as a
  natural number, so that the whitespace class of the regular expressions and of
  \<open>trim\<close> (which reaches beyond Latin-1) and the multiplication sign of the
  math test are what the source has. \<open>str\<close> turns an ASCII literal into such a
  sequence.
\<close>

type_synonym jsstring = "nat list"

definition str :: "string \<Rightarrow> jsstring" where
  "str s = map of_char s"

definition is_digit :: "nat \<Rightarrow> bool" where
  "is_digit c = (48 \<le> c \<and> c \<le> 57)"

text \<open>The class \<open>\s\<close> of a regular expression, which is also what \<open>trim\<close> removes:
  WhiteSpace and LineTerminator of the language.\<close>

definition is_space :: "nat \<Rightarrow> bool" where
  "is_space c =
     (c = 9 \<or> c = 10 \<or> c = 11 \<or> c = 12 \<or> c = 13 \<or> c = 32 \<or> c = 160 \<or> c = 5760 \<or>
      (8192 \<le> c \<and> c \<le> 8202) \<or> c = 8232 \<or> c = 8233 \<or> c = 8239 \<or> c = 8287 \<or>
      c = 12288 \<or> c = 65279)"

text \<open>The class \<open>[0-9+\-*/().\s]\<close> of \<open>tryEvaluate\<close>.\<close>

definition arith_char :: "nat \<Rightarrow> bool" where
  "arith_char c =
     (is_digit c \<or> c = of_char CHR ''+'' \<or> c = of_char CHR ''-'' \<or> c = of_char CHR ''*'' \<or>
      c = of_char CHR ''/'' \<or> c = of_char CHR ''('' \<or> c = of_char CHR '')'' \<or>
      c = of_char CHR ''.'' \<or> is_space c)"

section \<open>JavaScript numbers\<close>

text \<open>
  A Number is NaN, an infinity, a zero (each with its sign; \<open>True\<close> is the negative
  one) or a finite double other than zero, kept as the real number it stands for.

  \<open>num_of_real\<close> is the Number value for a real number \<open>x\<close>, as the language defines
  it: the double nearest to \<open>x\<close>, the one with the even significand when two are equally
  near. Around \<open>x\<close> the doubles are the multiples of 2 to the power \<open>e\<close>, with \<open>e\<close> 52
  below the binary exponent of \<open>x\<close> and never below -1074, where the subnormal doubles
  lie. A magnitude that rounds to 2 to the power 1024 is an infinity, and one that rounds
  to zero is the zero with the sign of \<open>x\<close>.

  The operations follow the language's Number::add, subtract, multiply, divide, unaryMinus
  and exponentiate: each gives the Number value for the exact result. For \<open>**\<close> the
  language leaves the precision to the implementation; the model takes the nearest double
  there too.
\<close>

datatype jsnum = NaN | Infinity bool | Zero bool | Fin real

text \<open>The binary exponent of a positive real \<open>x\<close>: the \<open>k\<close> with \<open>x\<close> from 2 to the
  power \<open>k\<close> up to, and not reaching, 2 to the power \<open>k + 1\<close>; found by halving or
  doubling.\<close>

function binary_exponent :: "real \<Rightarrow> int" where
  "binary_exponent x =
     (if 2 \<le> x then binary_exponent (x / 2) + 1
      else if 0 < x \<and> x < 1 then binary_exponent (2 * x) - 1
      else 0)"
  by auto
termination
proof (relation "measure (\<lambda>x. if 1 \<le> x then nat \<lceil>x\<rceil> else 2 + nat \<lceil>1 / x\<rceil>)", goal_cases)
  case 1
  show ?case by simp
next
  case (2 x)
  have "x / 2 \<le> x - 1" using 2 by simp
  then have "\<lceil>x / 2\<rceil> \<le> \<lceil>x - 1\<rceil>" by (rule ceiling_mono)
  then have "\<lceil>x / 2\<rceil> < \<lceil>x\<rceil>" by simp
  moreover have "0 < \<lceil>x\<rceil>" using 2 by (simp add: ceiling_less_iff)
  ultimately show ?case using 2 by simp
next
  case (3 x)
  then have x: "0 < x" "x < 1" by simp_all
  have c: "1 \<le> \<lceil>1 / x\<rceil>" using x by (simp add: less_ceiling_iff)
  show ?case
  proof (cases "1 \<le> 2 * x")
    case True
    have "\<lceil>2 * x\<rceil> \<le> 2" using x by (simp add: ceiling_le_iff)
    then have "nat \<lceil>2 * x\<rceil> \<le> 2" by simp
    moreover have "1 \<le> nat \<lceil>1 / x\<rceil>" using c by arith
    ultimately have "nat \<lceil>2 * x\<rceil> < 2 + nat \<lceil>1 / x\<rceil>" by arith
    then show ?thesis using True x by simp
  next
    case False
    then have y: "2 < 1 / x" using x by (simp add: field_simps)
    have "1 / (2 * x) = (1 / x) / 2" by simp
    also have "\<dots> \<le> 1 / x - 1" using y by simp
    finally have "\<lceil>1 / (2 * x)\<rceil> \<le> \<lceil>1 / x - 1\<rceil>" by (rule ceiling_mono)
    then have "\<lceil>1 / (2 * x)\<rceil> < \<lceil>1 / x\<rceil>" by simp
    then show ?thesis using False x c by simp
  qed
qed

declare binary_exponent.simps [simp del]

text \<open>The exponent of the spacing of the doubles around \<open>x\<close>.\<close>

definition ulp_exponent :: "real \<Rightarrow> int" where
  "ulp_exponent x = max (binary_exponent \<bar>x\<bar> - 52) (- 1074)"

text \<open>The integer nearest to \<open>y\<close>, the even one of two that are equally near.\<close>

definition nearest_even :: "real \<Rightarrow> int" where
  "nearest_even y =
     (let f = \<lfloor>y\<rfloor>; d = y - of_int f in
      if d < 1 / 2 then f else if 1 / 2 < d then f + 1 else if even f then f else f + 1)"

definition num_of_real :: "real \<Rightarrow> jsnum" where
  "num_of_real x =
     (if x = 0 then Zero False
      else
        let e = ulp_exponent x; m = nearest_even (\<bar>x\<bar> / 2 powi e) in
        if 2 ^ 1024 \<le> of_int m * (2::real) powi e then Infinity (x < 0)
        else if m = 0 then Zero (x < 0)
        else Fin (sgn x * (of_int m * 2 powi e)))"

fun num_neg :: "jsnum \<Rightarrow> jsnum" where
  "num_neg NaN = NaN"
| "num_neg (Infinity s) = Infinity (\<not> s)"
| "num_neg (Zero s) = Zero (\<not> s)"
| "num_neg (Fin r) = Fin (- r)"

fun negative :: "jsnum \<Rightarrow> bool" where
  "negative NaN = False"
| "negative (Infinity s) = s"
| "negative (Zero s) = s"
| "negative (Fin r) = (r < 0)"

fun num_add :: "jsnum \<Rightarrow> jsnum \<Rightarrow> jsnum" where
  "num_add NaN y = NaN"
| "num_add x NaN = NaN"
| "num_add (Infinity s) (Infinity t) = (if s = t then Infinity s else NaN)"
| "num_add (Infinity s) y = Infinity s"
| "num_add x (Infinity t) = Infinity t"
| "num_add (Zero s) (Zero t) = Zero (s \<and> t)"
| "num_add (Zero s) (Fin q) = Fin q"
| "num_add (Fin r) (Zero t) = Fin r"
| "num_add (Fin r) (Fin q) = num_of_real (r + q)"

definition num_sub :: "jsnum \<Rightarrow> jsnum \<Rightarrow> jsnum" where
  "num_sub x y = num_add x (num_neg y)"

fun num_mul :: "jsnum \<Rightarrow> jsnum \<Rightarrow> jsnum" where
  "num_mul NaN y = NaN"
| "num_mul x NaN = NaN"
| "num_mul (Infinity s) (Zero t) = NaN"
| "num_mul (Zero s) (Infinity t) = NaN"
| "num_mul (Infinity s) y = Infinity (s \<noteq> negative y)"
| "num_mul x (Infinity t) = Infinity (negative x \<noteq> t)"
| "num_mul (Zero s) y = Zero (s \<noteq> negative y)"
| "num_mul x (Zero t) = Zero (negative x \<noteq> t)"
| "num_mul (Fin r) (Fin q) = num_of_real (r * q)"

fun num_div :: "jsnum \<Rightarrow> jsnum \<Rightarrow> jsnum" where
  "num_div NaN y = NaN"
| "num_div x NaN = NaN"
| "num_div (Infinity s) (Infinity t) = NaN"
| "num_div (Zero s) (Zero t) = NaN"
| "num_div (Infinity s) y = Infinity (s \<noteq> negative y)"
| "num_div x (Infinity t) = Zero (negative x \<noteq> t)"
| "num_div (Zero s) y = Zero (s \<noteq> negative y)"
| "num_div x (Zero t) = Infinity (negative x \<noteq> t)"
| "num_div (Fin r) (Fin q) = num_of_real (r / q)"

definition integral :: "real \<Rightarrow> bool" where
  "integral e = (e = of_int \<lfloor>e\<rfloor>)"

fun odd_integer :: "jsnum \<Rightarrow> bool" where
  "odd_integer (Fin e) = (integral e \<and> odd \<lfloor>e\<rfloor>)"
| "odd_integer x = False"

fun exponentiate :: "jsnum \<Rightarrow> jsnum \<Rightarrow> jsnum" where
  "exponentiate b NaN = NaN"
| "exponentiate b (Zero t) = Fin 1"
| "exponentiate NaN e = NaN"
| "exponentiate (Infinity s) e =
     (if \<not> negative e then (if s \<and> odd_integer e then Infinity True else Infinity False)
      else (if s \<and> odd_integer e then Zero True else Zero False))"
| "exponentiate (Zero s) e =
     (if \<not> negative e then (if s \<and> odd_integer e then Zero True else Zero False)
      else (if s \<and> odd_integer e then Infinity True else Infinity False))"
| "exponentiate (Fin b) (Infinity t) =
     (if \<bar>b\<bar> = 1 then NaN
      else if (1 < \<bar>b\<bar>) = (\<not> t) then Infinity False else Zero False)"
| "exponentiate (Fin b) (Fin e) =
     (if integral e then num_of_real (b powi \<lfloor>e\<rfloor>)
      else if b < 0 then NaN
      else num_of_real (b powr e))"

fun isFinite :: "jsnum \<Rightarrow> bool" where
  "isFinite (Fin r) = True"
| "isFinite (Zero s) = True"
| "isFinite n = False"

section \<open>The expressions \<open>tryEvaluate\<close> hands to the engine\<close>

text \<open>
  \<open>tryEvaluate\<close> builds the function body \<open>"use strict";return(\<close> clean \<open>)\<close> with the
  \<open>Function\<close> constructor and calls it, where clean holds only digits and the characters
  \<open>+ - * / ( ) .\<close> (whitespace is removed before). What the engine does with such a text
  is modelled here: the lexical grammar, the expression grammar and the evaluation of the
  language, restricted to that alphabet.

  Tokens. A \<open>/\<close> followed by \<open>/\<close> starts a comment that runs to the end of the line, which
  is the end of the text (and takes the closing parenthesis of the wrapper with it); \<open>/*\<close>
  starts a comment that ends at the next \<open>*/\<close>. Where an operand may start, another \<open>/\<close>
  opens a regular expression literal, which ends at the next \<open>/\<close>; digits right after it
  would be its flags, and no digit is a flag. A literal with a leading zero before another
  digit is an error of strict mode. A dot that does not belong to a number needs a property
  name after it, and \<open>++\<close> or \<open>--\<close> need an assignable operand; the alphabet has neither, so
  these three are errors wherever they stand. \<open>None\<close> is the SyntaxError.
\<close>

datatype token =
    TNum real | TRegex | TPlus | TMinus | TStar | TSlash | TPow | TLParen | TRParen

fun digits_value :: "jsstring \<Rightarrow> nat \<Rightarrow> nat" where
  "digits_value [] acc = acc"
| "digits_value (c # cs) acc = digits_value cs (10 * acc + (c - 48))"

text \<open>The value of the literal with integer digits \<open>ip\<close> and fraction digits \<open>fp\<close>.\<close>

definition literal_value :: "jsstring \<Rightarrow> jsstring \<Rightarrow> real" where
  "literal_value ip fp = real (digits_value (ip @ fp) 0) / 10 ^ length fp"

text \<open>The text after the end of a block comment, read from behind its opening.\<close>

fun skip_block_comment :: "jsstring \<Rightarrow> jsstring option" where
  "skip_block_comment (c # d # cs) =
     (if c = of_char CHR ''*'' \<and> d = of_char CHR ''/'' then Some cs
      else skip_block_comment (d # cs))"
| "skip_block_comment cs = None"

text \<open>
  The pattern of a regular expression literal over the alphabet: digits, \<open>-\<close> and \<open>.\<close> are
  atoms, parentheses group, and \<open>*\<close> and \<open>+\<close> quantify the atom or group right before them.
  \<open>depth\<close> counts the open groups, \<open>q\<close> says that a quantifier may follow.
\<close>

fun pattern_ok :: "nat \<Rightarrow> bool \<Rightarrow> jsstring \<Rightarrow> bool" where
  "pattern_ok depth q [] = (depth = 0)"
| "pattern_ok depth q (c # cs) =
     (if c = of_char CHR ''('' then pattern_ok (Suc depth) False cs
      else if c = of_char CHR '')'' then 0 < depth \<and> pattern_ok (depth - 1) True cs
      else if c = of_char CHR ''*'' \<or> c = of_char CHR ''+'' then q \<and> pattern_ok depth False cs
      else pattern_ok depth True cs)"

definition not_slash :: "nat \<Rightarrow> bool" where
  "not_slash c = (c \<noteq> of_char CHR ''/'')"

text \<open>Body of a regular expression literal and the text after its closing slash.\<close>

definition regex_literal :: "jsstring \<Rightarrow> (jsstring \<times> jsstring) option" where
  "regex_literal cs =
     (case dropWhile not_slash cs of
        [] \<Rightarrow> None
      | s # rest \<Rightarrow> Some (takeWhile not_slash cs, rest))"

text \<open>Fraction digits of a numeric literal and the text after them, read from behind the
  integer digits.\<close>

definition fraction :: "jsstring \<Rightarrow> jsstring \<times> jsstring" where
  "fraction r =
     (case r of
        [] \<Rightarrow> ([], [])
      | p # q \<Rightarrow>
          if p = of_char CHR ''.'' then (takeWhile is_digit q, dropWhile is_digit q)
          else ([], r))"

lemma skip_block_comment_length:
  "skip_block_comment cs = Some r \<Longrightarrow> length r < length cs"
  by (induction cs arbitrary: r rule: skip_block_comment.induct) (auto split: if_splits)

lemma length_dropWhile_less [termination_simp]:
  "length (dropWhile P xs) < Suc (length xs)"
  by (simp add: le_imp_less_Suc length_dropWhile_le)

lemma regex_literal_length:
  "regex_literal cs = Some (b, rest) \<Longrightarrow> length rest < length cs"
proof -
  assume "regex_literal cs = Some (b, rest)"
  then obtain s where "dropWhile not_slash cs = s # rest"
    by (auto simp: regex_literal_def split: list.splits)
  then have "Suc (length rest) = length (dropWhile not_slash cs)" by simp
  also have "\<dots> \<le> length cs" by (rule length_dropWhile_le)
  finally show ?thesis by simp
qed

lemma fraction_length:
  "length (snd (fraction r)) \<le> length r"
  by (auto simp: fraction_def le_SucI length_dropWhile_le split: list.splits)

lemma fraction_dropWhile_length:
  "(fp, r2) = fraction (dropWhile P cs) \<Longrightarrow> length r2 < Suc (length cs)"
proof -
  assume "(fp, r2) = fraction (dropWhile P cs)"
  then have a: "fraction (dropWhile P cs) = (fp, r2)" by simp
  have "length r2 \<le> length (dropWhile P cs)"
    using fraction_length [of "dropWhile P cs"] a by simp
  also have "\<dots> \<le> length cs" by (rule length_dropWhile_le)
  finally show ?thesis by simp
qed

text \<open>\<open>re\<close> says that an operand may start here, so that a \<open>/\<close> opens a regular
  expression literal instead of dividing.\<close>

function lex :: "bool \<Rightarrow> jsstring \<Rightarrow> token list option" where
  "lex re [] = Some []"
| "lex re (c # cs) =
     (if c = of_char CHR ''/'' then
        (if cs \<noteq> [] \<and> hd cs = of_char CHR ''/'' then Some []
         else if cs \<noteq> [] \<and> hd cs = of_char CHR ''*'' then
           (case skip_block_comment (tl cs) of
              None \<Rightarrow> None
            | Some rest \<Rightarrow> lex re rest)
         else if re then
           (case regex_literal cs of
              None \<Rightarrow> None
            | Some (body, rest) \<Rightarrow>
                if rest \<noteq> [] \<and> is_digit (hd rest) then None
                else if \<not> pattern_ok 0 False body then None
                else map_option ((#) TRegex) (lex False rest))
         else map_option ((#) TSlash) (lex True cs))
      else if is_digit c then
        (case fraction (dropWhile is_digit cs) of
           (fp, rest) \<Rightarrow>
             if c = of_char CHR ''0'' \<and> takeWhile is_digit cs \<noteq> [] then None
             else map_option ((#) (TNum (literal_value (c # takeWhile is_digit cs) fp)))
                    (lex False rest))
      else if c = of_char CHR ''.'' then
        (if cs \<noteq> [] \<and> is_digit (hd cs)
         then map_option ((#) (TNum (literal_value [] (takeWhile is_digit cs))))
                (lex False (dropWhile is_digit cs))
         else None)
      else if c = of_char CHR ''+'' then
        (if cs \<noteq> [] \<and> hd cs = of_char CHR ''+'' then None
         else map_option ((#) TPlus) (lex True cs))
      else if c = of_char CHR ''-'' then
        (if cs \<noteq> [] \<and> hd cs = of_char CHR ''-'' then None
         else map_option ((#) TMinus) (lex True cs))
      else if c = of_char CHR ''*'' then
        (if cs \<noteq> [] \<and> hd cs = of_char CHR ''*''
         then map_option ((#) TPow) (lex True (tl cs))
         else map_option ((#) TStar) (lex True cs))
      else if c = of_char CHR ''('' then map_option ((#) TLParen) (lex True cs)
      else if c = of_char CHR '')'' then map_option ((#) TRParen) (lex False cs)
      else None)"
  by pat_completeness auto
termination
proof (relation "measure (\<lambda>(re, cs). length cs)", goal_cases)
  case 1
  show ?case by simp
next
  case (2 re c cs rest)
  then have "length rest < length (tl cs)"
    using skip_block_comment_length by blast
  then show ?case by simp
next
  case (3 re c cs x2 body rest)
  then have "regex_literal cs = Some (body, rest)" by simp
  then have "length rest < length cs" by (rule regex_literal_length)
  then show ?case by simp
qed (auto simp: termination_simp less_SucI dest: fraction_dropWhile_length)

text \<open>
  Expressions. The grammar of the language over these tokens: additive over multiplicative
  over exponentiation (right associative, and its base may not be a unary expression: \<open>-2**2\<close>
  is a SyntaxError) over unary over primary (a literal or a parenthesised expression). The
  parser keeps a stack of operands and a stack of pending operators; \<open>operand\<close> says that
  an operand is expected next. An opening parenthesis where an operator is expected is a
  call: its callee is a number, a string or a regular expression object, none of which is
  callable, so the call throws a TypeError when the text is well formed and the text is a
  SyntaxError when it is not. The caller maps both to null, and the parser reports both as
  \<open>None\<close>.
\<close>

datatype binop = Add | Sub | Mul | Div | Pow
datatype unop = UPlus | UMinus
datatype expr = Lit real | Regex | Unary unop expr | Binary binop expr expr
datatype opitem = OBin binop | OUn unop | OParen

fun apply_op :: "opitem \<Rightarrow> expr list \<Rightarrow> expr list option" where
  "apply_op (OBin b) (y # x # es) = Some (Binary b x y # es)"
| "apply_op (OUn u) (x # es) = Some (Unary u x # es)"
| "apply_op t es = None"

fun prec :: "binop \<Rightarrow> nat" where
  "prec Add = 1"
| "prec Sub = 1"
| "prec Mul = 2"
| "prec Div = 2"
| "prec Pow = 3"

text \<open>Whether the pending operator \<open>t\<close> takes its operands before the binary operator
  \<open>b\<close> that arrives.\<close>

fun binds_first :: "opitem \<Rightarrow> binop \<Rightarrow> bool" where
  "binds_first OParen b = False"
| "binds_first (OUn u) b = True"
| "binds_first (OBin t) b = (b \<noteq> Pow \<and> prec b \<le> prec t)"

fun unwind :: "binop \<Rightarrow> expr list \<Rightarrow> opitem list \<Rightarrow> (expr list \<times> opitem list) option" where
  "unwind b es [] = Some (es, [])"
| "unwind b es (t # ts) =
     (if binds_first t b
      then (case apply_op t es of None \<Rightarrow> None | Some es' \<Rightarrow> unwind b es' ts)
      else Some (es, t # ts))"

fun close_paren :: "expr list \<Rightarrow> opitem list \<Rightarrow> (expr list \<times> opitem list) option" where
  "close_paren es [] = None"
| "close_paren es (OParen # ts) = Some (es, ts)"
| "close_paren es (t # ts) =
     (case apply_op t es of None \<Rightarrow> None | Some es' \<Rightarrow> close_paren es' ts)"

fun finish :: "expr list \<Rightarrow> opitem list \<Rightarrow> expr option" where
  "finish es [] = (case es of [e] \<Rightarrow> Some e | _ \<Rightarrow> None)"
| "finish es (OParen # ts) = None"
| "finish es (t # ts) =
     (case apply_op t es of None \<Rightarrow> None | Some es' \<Rightarrow> finish es' ts)"

fun binop_of :: "token \<Rightarrow> binop option" where
  "binop_of TPlus = Some Add"
| "binop_of TMinus = Some Sub"
| "binop_of TStar = Some Mul"
| "binop_of TSlash = Some Div"
| "binop_of TPow = Some Pow"
| "binop_of t = None"

fun after_unary :: "opitem list \<Rightarrow> bool" where
  "after_unary (OUn u # ops) = True"
| "after_unary ops = False"

fun parse :: "bool \<Rightarrow> expr list \<Rightarrow> opitem list \<Rightarrow> token list \<Rightarrow> expr option" where
  "parse operand es ops [] = (if operand then None else finish es ops)"
| "parse True es ops (TNum v # ts) = parse False (Lit v # es) ops ts"
| "parse True es ops (TRegex # ts) = parse False (Regex # es) ops ts"
| "parse True es ops (TPlus # ts) = parse True es (OUn UPlus # ops) ts"
| "parse True es ops (TMinus # ts) = parse True es (OUn UMinus # ops) ts"
| "parse True es ops (TLParen # ts) = parse True es (OParen # ops) ts"
| "parse True es ops (t # ts) = None"
| "parse False es ops (TRParen # ts) =
     (case close_paren es ops of
        None \<Rightarrow> None
      | Some (es', ops') \<Rightarrow> parse False es' ops' ts)"
| "parse False es ops (t # ts) =
     (case binop_of t of
        None \<Rightarrow> None
      | Some b \<Rightarrow>
          if b = Pow \<and> after_unary ops then None
          else (case unwind b es ops of
                  None \<Rightarrow> None
                | Some (es', ops') \<Rightarrow> parse True es' (OBin b # ops') ts))"

text \<open>
  Values. An expression over the alphabet evaluates to a number, to a regular expression
  object, or to a string: \<open>+\<close> concatenates as soon as one operand is not a number, and the
  string it makes holds the source text of a regular expression literal with its slashes, so
  that every conversion of such a string or object to a number gives NaN.
\<close>

datatype jsvalue = VNum jsnum | VRegex | VStr

fun ToNumber :: "jsvalue \<Rightarrow> jsnum" where
  "ToNumber (VNum n) = n"
| "ToNumber VRegex = NaN"
| "ToNumber VStr = NaN"

fun arith :: "binop \<Rightarrow> jsnum \<Rightarrow> jsnum \<Rightarrow> jsnum" where
  "arith Add = num_add"
| "arith Sub = num_sub"
| "arith Mul = num_mul"
| "arith Div = num_div"
| "arith Pow = exponentiate"

fun typeof_number :: "jsvalue \<Rightarrow> bool" where
  "typeof_number (VNum n) = True"
| "typeof_number v = False"

fun eval :: "expr \<Rightarrow> jsvalue" where
  "eval (Lit v) = VNum (num_of_real v)"
| "eval Regex = VRegex"
| "eval (Unary UPlus e) = VNum (ToNumber (eval e))"
| "eval (Unary UMinus e) = VNum (num_neg (ToNumber (eval e)))"
| "eval (Binary b x y) =
     (if b = Add \<and> \<not> (typeof_number (eval x) \<and> typeof_number (eval y)) then VStr
      else VNum (arith b (ToNumber (eval x)) (ToNumber (eval y))))"

text \<open>\<open>Function('"use strict";return(' + clean + ')')()\<close>: the value returned, or
  \<open>None\<close> when the constructor or the call throws.\<close>

definition Function_return :: "jsstring \<Rightarrow> jsvalue option" where
  "Function_return clean =
     (case lex True (of_char CHR ''('' # clean @ [of_char CHR '')'']) of
        None \<Rightarrow> None
      | Some ts \<Rightarrow> map_option eval (parse True [] [] ts))"

text \<open>\<open>Number.isFinite\<close> is false of whatever is not a number.\<close>

fun Number_isFinite :: "jsvalue \<Rightarrow> bool" where
  "Number_isFinite (VNum n) = isFinite n"
| "Number_isFinite v = False"

section \<open>tryEvaluate\<close>

text \<open>
  \<open>tryEvaluate\<close> of api/pipeline.js, the same function in the Response-based Netlify
  handler. The argument is a string; \<open>None\<close> is \<open>null\<close>, returned also from the
  \<open>catch\<close>.
\<close>

definition clean_of :: "jsstring \<Rightarrow> jsstring" where
  "clean_of expr = filter (\<lambda>c. \<not> is_space c) (filter arith_char expr)"

definition tryEvaluate :: "jsstring \<Rightarrow> jsnum option" where
  "tryEvaluate expr =
     (let clean = clean_of expr in
      if clean = [] then None
      else (case Function_return clean of
              None \<Rightarrow> None
            | Some val \<Rightarrow>
                if typeof_number val \<and> Number_isFinite val then Some (ToNumber val)
                else None))"

text \<open>The variant of the first Express-style Netlify handler tests
  \<open>Number.isFinite(val)\<close> alone.\<close>

definition tryEvaluate_isFinite :: "jsstring \<Rightarrow> jsnum option" where
  "tryEvaluate_isFinite expr =
     (let clean = clean_of expr in
      if clean = [] then None
      else (case Function_return clean of
              None \<Rightarrow> None
            | Some val \<Rightarrow> if Number_isFinite val then Some (ToNumber val) else None))"

section \<open>Arithmetic as it is written\<close>

text \<open>
  The expressions of ordinary arithmetic over decimal numbers, with the four operations,
  signs and parentheses, as a grammar: a sum is a term, or a sum plus or minus a term; a
  term is a factor, or a term times or over a factor; a factor is a decimal number, a
  signed factor or a sum in parentheses. So multiplication and division bind tighter than
  addition and subtraction, and operations of the same rank go from left to right. This
  is what the claim about \<open>tryEvaluate\<close> calls a well-formed arithmetic string; it is
  written from the conventions of arithmetic, not from the engine.
\<close>

datatype arith_sum =
    Just_term arith_term
  | Sum_of arith_sum arith_term
  | Difference_of arith_sum arith_term
and arith_term =
    Just_factor arith_factor
  | Product_of arith_term arith_factor
  | Quotient_of arith_term arith_factor
and arith_factor =
    Decimal jsstring "jsstring option"
  | Plus_sign arith_factor
  | Minus_sign arith_factor
  | Parenthesised arith_sum

text \<open>The text of an expression, without whitespace. A decimal number has the digits of
  its integer part and, when there is a point, the digits after it.\<close>

primrec text_sum :: "arith_sum \<Rightarrow> jsstring"
  and text_term :: "arith_term \<Rightarrow> jsstring"
  and text_factor :: "arith_factor \<Rightarrow> jsstring" where
  "text_sum (Just_term t) = text_term t"
| "text_sum (Sum_of s t) = text_sum s @ of_char CHR ''+'' # text_term t"
| "text_sum (Difference_of s t) = text_sum s @ of_char CHR ''-'' # text_term t"
| "text_term (Just_factor f) = text_factor f"
| "text_term (Product_of t f) = text_term t @ of_char CHR ''*'' # text_factor f"
| "text_term (Quotient_of t f) = text_term t @ of_char CHR ''/'' # text_factor f"
| "text_factor (Decimal ip fp) =
     ip @ (case fp of None \<Rightarrow> [] | Some d \<Rightarrow> of_char CHR ''.'' # d)"
| "text_factor (Plus_sign f) = of_char CHR ''+'' # text_factor f"
| "text_factor (Minus_sign f) = of_char CHR ''-'' # text_factor f"
| "text_factor (Parenthesised s) = of_char CHR ''('' # text_sum s @ [of_char CHR '')'']"

text \<open>The number that digits denote, read from the last digit: units, tens, hundreds.\<close>

fun units :: "jsstring \<Rightarrow> nat" where
  "units [] = 0"
| "units (d # ds) = (d - 48) + 10 * units ds"

definition decimal :: "jsstring \<Rightarrow> jsstring option \<Rightarrow> real" where
  "decimal ip fp =
     real (units (rev ip)) +
     (case fp of None \<Rightarrow> 0 | Some d \<Rightarrow> real (units (rev d)) / 10 ^ length d)"

text \<open>
  The value of an expression in the arithmetic of the language: every decimal number and
  the result of every operation is the nearest double. Division by zero gives an infinity
  or NaN, as it does there.
\<close>

primrec value_sum :: "arith_sum \<Rightarrow> jsnum"
  and value_term :: "arith_term \<Rightarrow> jsnum"
  and value_factor :: "arith_factor \<Rightarrow> jsnum" where
  "value_sum (Just_term t) = value_term t"
| "value_sum (Sum_of s t) = num_add (value_sum s) (value_term t)"
| "value_sum (Difference_of s t) = num_sub (value_sum s) (value_term t)"
| "value_term (Just_factor f) = value_factor f"
| "value_term (Product_of t f) = num_mul (value_term t) (value_factor f)"
| "value_term (Quotient_of t f) = num_div (value_term t) (value_factor f)"
| "value_factor (Decimal ip fp) = num_of_real (decimal ip fp)"
| "value_factor (Plus_sign f) = value_factor f"
| "value_factor (Minus_sign f) = num_neg (value_factor f)"
| "value_factor (Parenthesised s) = value_sum s"

text \<open>
  A decimal number is written with digits, at least one of them before or after the
  point, and its integer part does not start with a zero that another digit follows.
\<close>

definition decimal_ok :: "jsstring \<Rightarrow> jsstring option \<Rightarrow> bool" where
  "decimal_ok ip fp =
     (list_all is_digit ip \<and>
      (case fp of None \<Rightarrow> ip \<noteq> [] | Some d \<Rightarrow> list_all is_digit d \<and> (ip \<noteq> [] \<or> d \<noteq> [])) \<and>
      \<not> (1 < length ip \<and> hd ip = of_char CHR ''0''))"

primrec decimals_ok_sum :: "arith_sum \<Rightarrow> bool"
  and decimals_ok_term :: "arith_term \<Rightarrow> bool"
  and decimals_ok_factor :: "arith_factor \<Rightarrow> bool" where
  "decimals_ok_sum (Just_term t) = decimals_ok_term t"
| "decimals_ok_sum (Sum_of s t) = (decimals_ok_sum s \<and> decimals_ok_term t)"
| "decimals_ok_sum (Difference_of s t) = (decimals_ok_sum s \<and> decimals_ok_term t)"
| "decimals_ok_term (Just_factor f) = decimals_ok_factor f"
| "decimals_ok_term (Product_of t f) = (decimals_ok_term t \<and> decimals_ok_factor f)"
| "decimals_ok_term (Quotient_of t f) = (decimals_ok_term t \<and> decimals_ok_factor f)"
| "decimals_ok_factor (Decimal ip fp) = decimal_ok ip fp"
| "decimals_ok_factor (Plus_sign f) = decimals_ok_factor f"
| "decimals_ok_factor (Minus_sign f) = decimals_ok_factor f"
| "decimals_ok_factor (Parenthesised s) = decimals_ok_sum s"

section \<open>How the engine reads arithmetic\<close>

text \<open>The tokens and the syntax tree that the text of an arithmetic expression has in the
  engine.\<close>

definition fraction_digits :: "jsstring option \<Rightarrow> jsstring" where
  "fraction_digits fp = (case fp of None \<Rightarrow> [] | Some d \<Rightarrow> d)"

primrec tokens_sum :: "arith_sum \<Rightarrow> token list"
  and tokens_term :: "arith_term \<Rightarrow> token list"
  and tokens_factor :: "arith_factor \<Rightarrow> token list" where
  "tokens_sum (Just_term t) = tokens_term t"
| "tokens_sum (Sum_of s t) = tokens_sum s @ TPlus # tokens_term t"
| "tokens_sum (Difference_of s t) = tokens_sum s @ TMinus # tokens_term t"
| "tokens_term (Just_factor f) = tokens_factor f"
| "tokens_term (Product_of t f) = tokens_term t @ TStar # tokens_factor f"
| "tokens_term (Quotient_of t f) = tokens_term t @ TSlash # tokens_factor f"
| "tokens_factor (Decimal ip fp) = [TNum (literal_value ip (fraction_digits fp))]"
| "tokens_factor (Plus_sign f) = TPlus # tokens_factor f"
| "tokens_factor (Minus_sign f) = TMinus # tokens_factor f"
| "tokens_factor (Parenthesised s) = TLParen # tokens_sum s @ [TRParen]"

primrec tree_sum :: "arith_sum \<Rightarrow> expr"
  and tree_term :: "arith_term \<Rightarrow> expr"
  and tree_factor :: "arith_factor \<Rightarrow> expr" where
  "tree_sum (Just_term t) = tree_term t"
| "tree_sum (Sum_of s t) = Binary Add (tree_sum s) (tree_term t)"
| "tree_sum (Difference_of s t) = Binary Sub (tree_sum s) (tree_term t)"
| "tree_term (Just_factor f) = tree_factor f"
| "tree_term (Product_of t f) = Binary Mul (tree_term t) (tree_factor f)"
| "tree_term (Quotient_of t f) = Binary Div (tree_term t) (tree_factor f)"
| "tree_factor (Decimal ip fp) = Lit (literal_value ip (fraction_digits fp))"
| "tree_factor (Plus_sign f) = Unary UPlus (tree_factor f)"
| "tree_factor (Minus_sign f) = Unary UMinus (tree_factor f)"
| "tree_factor (Parenthesised s) = tree_sum s"

text \<open>
  What the parser holds when it has read an expression and not yet seen what follows:
  the operands and the operators that wait on its two stacks, the latest first.
\<close>

primrec waiting_operands_sum :: "arith_sum \<Rightarrow> expr list"
  and waiting_operands_term :: "arith_term \<Rightarrow> expr list"
  and waiting_operands_factor :: "arith_factor \<Rightarrow> expr list" where
  "waiting_operands_sum (Just_term t) = waiting_operands_term t"
| "waiting_operands_sum (Sum_of s t) = waiting_operands_term t @ [tree_sum s]"
| "waiting_operands_sum (Difference_of s t) = waiting_operands_term t @ [tree_sum s]"
| "waiting_operands_term (Just_factor f) = waiting_operands_factor f"
| "waiting_operands_term (Product_of t f) = waiting_operands_factor f @ [tree_term t]"
| "waiting_operands_term (Quotient_of t f) = waiting_operands_factor f @ [tree_term t]"
| "waiting_operands_factor (Decimal ip fp) = [Lit (literal_value ip (fraction_digits fp))]"
| "waiting_operands_factor (Plus_sign f) = waiting_operands_factor f"
| "waiting_operands_factor (Minus_sign f) = waiting_operands_factor f"
| "waiting_operands_factor (Parenthesised s) = [tree_sum s]"

primrec waiting_operators_sum :: "arith_sum \<Rightarrow> opitem list"
  and waiting_operators_term :: "arith_term \<Rightarrow> opitem list"
  and waiting_operators_factor :: "arith_factor \<Rightarrow> opitem list" where
  "waiting_operators_sum (Just_term t) = waiting_operators_term t"
| "waiting_operators_sum (Sum_of s t) = waiting_operators_term t @ [OBin Add]"
| "waiting_operators_sum (Difference_of s t) = waiting_operators_term t @ [OBin Sub]"
| "waiting_operators_term (Just_factor f) = waiting_operators_factor f"
| "waiting_operators_term (Product_of t f) = waiting_operators_factor f @ [OBin Mul]"
| "waiting_operators_term (Quotient_of t f) = waiting_operators_factor f @ [OBin Div]"
| "waiting_operators_factor (Decimal ip fp) = []"
| "waiting_operators_factor (Plus_sign f) = waiting_operators_factor f @ [OUn UPlus]"
| "waiting_operators_factor (Minus_sign f) = waiting_operators_factor f @ [OUn UMinus]"
| "waiting_operators_factor (Parenthesised s) = []"

text \<open>All waiting operators take their operands.\<close>

fun flush :: "expr list \<Rightarrow> opitem list \<Rightarrow> expr list option" where
  "flush es [] = Some es"
| "flush es (t # ts) = (case apply_op t es of None \<Rightarrow> None | Some es' \<Rightarrow> flush es' ts)"

text \<open>The operator on top of the stack, if there is one, does not take its operands
  before the binary operator \<open>b\<close> that arrives.\<close>

definition stops :: "binop \<Rightarrow> opitem list \<Rightarrow> bool" where
  "stops b ops = (ops = [] \<or> \<not> binds_first (hd ops) b)"

text \<open>No sign stands right before the same sign; 43 is the code of \<open>+\<close> and 45 that
  of \<open>-\<close>.\<close>

primrec apart_sum :: "arith_sum \<Rightarrow> bool"
  and apart_term :: "arith_term \<Rightarrow> bool"
  and apart_factor :: "arith_factor \<Rightarrow> bool" where
  "apart_sum (Just_term t) = apart_term t"
| "apart_sum (Sum_of s t) = (apart_sum s \<and> apart_term t \<and> hd (text_term t) \<noteq> 43)"
| "apart_sum (Difference_of s t) = (apart_sum s \<and> apart_term t \<and> hd (text_term t) \<noteq> 45)"
| "apart_term (Just_factor f) = apart_factor f"
| "apart_term (Product_of t f) = (apart_term t \<and> apart_factor f)"
| "apart_term (Quotient_of t f) = (apart_term t \<and> apart_factor f)"
| "apart_factor (Decimal ip fp) = True"
| "apart_factor (Plus_sign f) = (apart_factor f \<and> hd (text_factor f) \<noteq> 43)"
| "apart_factor (Minus_sign f) = (apart_factor f \<and> hd (text_factor f) \<noteq> 45)"
| "apart_factor (Parenthesised s) = apart_sum s"

text \<open>What may follow an operand in a text: not a digit and not a point, whose code is
  46.\<close>

definition ends_number :: "jsstring \<Rightarrow> bool" where
  "ends_number rest = (rest = [] \<or> \<not> is_digit (hd rest) \<and> hd rest \<noteq> 46)"

text \<open>What an operand starts with: a digit, a point, a sign or a parenthesis, whose code
  is 40.\<close>

definition starts_operand :: "jsstring \<Rightarrow> bool" where
  "starts_operand cs =
     (cs \<noteq> [] \<and> (is_digit (hd cs) \<or> hd cs = 46 \<or> hd cs = 43 \<or> hd cs = 45 \<or> hd cs = 40))"

section \<open>JavaScript values\<close>

text \<open>
  The values a JSON parser produces, and \<open>undefined\<close>. An object is the list of its own
  properties.
\<close>

datatype jsval =
    JUndefined | JNull | JBool bool | JNum jsnum | JStr jsstring
  | JArr "jsval list" | JObj "(jsstring \<times> jsval) list"

fun truthy :: "jsval \<Rightarrow> bool" where
  "truthy JUndefined = False"
| "truthy JNull = False"
| "truthy (JBool b) = b"
| "truthy (JNum n) = (case n of NaN \<Rightarrow> False | Zero s \<Rightarrow> False | _ \<Rightarrow> True)"
| "truthy (JStr s) = (s \<noteq> [])"
| "truthy (JArr xs) = True"
| "truthy (JObj kvs) = True"

text \<open>\<open>a || b\<close>\<close>

definition or_else :: "jsval \<Rightarrow> jsval \<Rightarrow> jsval" where
  "or_else a b = (if truthy a then a else b)"

fun nullish :: "jsval \<Rightarrow> bool" where
  "nullish JUndefined = True"
| "nullish JNull = True"
| "nullish v = False"

text \<open>
  Reading one of the properties the handlers read (\<open>imageDataUrl\<close>, \<open>stepByStep\<close>,
  \<open>choices\<close>, \<open>message\<close>, \<open>content\<close>) from a value that is neither null nor undefined:
  only an object has one, as its own property; no prototype of a parsed value has a
  property of these names.
\<close>

fun get_prop :: "jsval \<Rightarrow> jsstring \<Rightarrow> jsval" where
  "get_prop (JObj kvs) k = (case map_of kvs k of None \<Rightarrow> JUndefined | Some v \<Rightarrow> v)"
| "get_prop v k = JUndefined"

text \<open>\<open>v[0]\<close>\<close>

fun first_elem :: "jsval \<Rightarrow> jsval" where
  "first_elem (JArr xs) = (case xs of [] \<Rightarrow> JUndefined | x # r \<Rightarrow> x)"
| "first_elem (JStr s) = (case s of [] \<Rightarrow> JUndefined | c # r \<Rightarrow> JStr [c])"
| "first_elem (JObj kvs) = get_prop (JObj kvs) (str ''0'')"
| "first_elem v = JUndefined"

text \<open>\<open>v?.f\<close>\<close>

definition opt :: "jsval \<Rightarrow> (jsval \<Rightarrow> jsval) \<Rightarrow> jsval" where
  "opt v f = (if nullish v then JUndefined else f v)"

text \<open>\<open>j?.choices?.[0]?.message?.content\<close>\<close>

definition message_content :: "jsval \<Rightarrow> jsval" where
  "message_content j =
     opt (opt (opt (opt j (\<lambda>v. get_prop v (str ''choices''))) first_elem)
            (\<lambda>v. get_prop v (str ''message'')))
       (\<lambda>v. get_prop v (str ''content''))"

section \<open>String functions\<close>

definition starts_with :: "jsstring \<Rightarrow> jsstring \<Rightarrow> bool" where
  "starts_with p s = (take (length p) s = p)"

text \<open>\<open>s.includes(p)\<close>\<close>

fun js_includes :: "jsstring \<Rightarrow> jsstring \<Rightarrow> bool" where
  "js_includes [] p = (p = [])"
| "js_includes (c # cs) p = (starts_with p (c # cs) \<or> js_includes cs p)"

definition trim :: "jsstring \<Rightarrow> jsstring" where
  "trim s = rev (dropWhile is_space (rev (dropWhile is_space s)))"

definition ascii_lower :: "nat \<Rightarrow> nat" where
  "ascii_lower c = (if 65 \<le> c \<and> c \<le> 90 then c + 32 else c)"

text \<open>
  \<open>s.toLowerCase()\<close>, on the letters of ASCII. Beyond ASCII the language lowers two
  characters to ASCII text: the Kelvin sign to \<open>k\<close>, and the dotted capital I to \<open>i\<close>
  followed by a combining dot. The texts searched for in a lowered string here hold no
  \<open>k\<close>, and their \<open>i\<close> is followed by a letter, so the searches come out the same.
\<close>

definition toLowerCase :: "jsstring \<Rightarrow> jsstring" where
  "toLowerCase s = map ascii_lower s"

text \<open>Decimal digits of a number, for the status in an error message.\<close>

fun dec :: "nat \<Rightarrow> jsstring" where
  "dec n = (if n < 10 then [48 + n] else dec (n div 10) @ [48 + n mod 10])"

declare dec.simps [simp del]

section \<open>Exceptions, the network and the environment\<close>

text \<open>
  A thrown error with its message. The message of a TypeError that the engine raises is
  engine-specific; the model writes it as the name of the error.
\<close>

datatype exn = Thrown jsstring

definition TypeError :: exn where
  "TypeError = Thrown (str ''TypeError'')"

fun message_of :: "exn \<Rightarrow> jsstring" where
  "message_of (Thrown m) = m"

text \<open>
  What \<open>fetch\<close> resolves to: the status, the status text, the body as \<open>text()\<close> gives it
  (\<open>None\<close> when reading it fails) and as \<open>json()\<close> gives it (\<open>Inl\<close> with the message
  when it rejects). \<open>Failed\<close> is a \<open>fetch\<close> that rejects.
\<close>

record reply =
  http_status :: nat
  statusText :: jsstring
  text_body :: "jsstring option"
  json_body :: "jsstring + jsval"

datatype fetched = Failed jsstring | Reply reply

definition ok :: "reply \<Rightarrow> bool" where
  "ok r = (200 \<le> http_status r \<and> http_status r \<le> 299)"

text \<open>
  A request to a model endpoint, as far as the handlers vary it: the endpoint, the
  Authorization header, the model, and the user message, which is an image for an OCR
  request (in one of three shapes of the image part) and a text for an explanation request.
  The instruction text that goes with the image, the system prompt, temperature and
  max_tokens are constants of the source and are left out.
\<close>

datatype image_part = Image_url_object jsval | Image_url_string jsval | Input_image jsval

datatype user_message = Vision image_part | Text jsstring

record upstream_call =
  url :: jsstring
  authorization :: jsstring
  model :: jsstring
  user :: user_message

text \<open>
  The world of one request: the replies the network will give, in order, and the calls made
  so far. A call beyond the last reply fails as a network error does.
\<close>

record world =
  replies :: "fetched list"
  calls :: "upstream_call list"

definition fetch :: "upstream_call \<Rightarrow> world \<Rightarrow> (exn + reply) \<times> world" where
  "fetch c w =
     (case replies w of
        [] \<Rightarrow> (Inl (Thrown (str ''fetch failed'')), w\<lparr>calls := calls w @ [c]\<rparr>)
      | Failed m # rs \<Rightarrow> (Inl (Thrown m), \<lparr>replies = rs, calls = calls w @ [c]\<rparr>)
      | Reply r # rs \<Rightarrow> (Inr r, \<lparr>replies = rs, calls = calls w @ [c]\<rparr>))"

text \<open>Sequencing of steps that may throw.\<close>

definition ret :: "'a \<Rightarrow> world \<Rightarrow> (exn + 'a) \<times> world" where
  "ret x w = (Inr x, w)"

definition throw :: "exn \<Rightarrow> world \<Rightarrow> (exn + 'a) \<times> world" where
  "throw e w = (Inl e, w)"

definition lift :: "exn + 'a \<Rightarrow> world \<Rightarrow> (exn + 'a) \<times> world" where
  "lift r w = (r, w)"

definition and_then ::
  "(world \<Rightarrow> (exn + 'a) \<times> world) \<Rightarrow> ('a \<Rightarrow> world \<Rightarrow> (exn + 'b) \<times> world)
     \<Rightarrow> world \<Rightarrow> (exn + 'b) \<times> world" where
  "and_then m f w = (case m w of (Inl e, w') \<Rightarrow> (Inl e, w') | (Inr x, w') \<Rightarrow> f x w')"

text \<open>\<open>await r.json()\<close>, and \<open>await r.json().catch(() => d)\<close>\<close>

definition read_json :: "reply \<Rightarrow> exn + jsval" where
  "read_json r = (case json_body r of Inl m \<Rightarrow> Inl (Thrown m) | Inr j \<Rightarrow> Inr j)"

definition json_or :: "reply \<Rightarrow> jsval \<Rightarrow> jsval" where
  "json_or r d = (case json_body r of Inl m \<Rightarrow> d | Inr j \<Rightarrow> j)"

text \<open>\<open>await r.text().catch(() => d)\<close>\<close>

definition text_or :: "reply \<Rightarrow> jsstring \<Rightarrow> jsstring" where
  "text_or r d = (case text_body r of None \<Rightarrow> d | Some t \<Rightarrow> t)"

text \<open>The variables of \<open>process.env\<close> that the handlers read; \<open>None\<close> is unset.\<close>

record env =
  OPENROUTER_API_KEY :: "jsstring option"
  GROQ_API_KEY :: "jsstring option"
  OPENROUTER_VISION_MODEL :: "jsstring option"
  GROQ_VISION_MODEL :: "jsstring option"
  GROQ_TEXT_MODEL :: "jsstring option"

text \<open>\<open>!key\<close>\<close>

definition unset :: "jsstring option \<Rightarrow> bool" where
  "unset k = (case k of None \<Rightarrow> True | Some s \<Rightarrow> s = [])"

text \<open>\<open>process.env.X || d\<close>\<close>

definition env_or :: "jsstring option \<Rightarrow> jsstring \<Rightarrow> jsstring" where
  "env_or k d = (if unset k then d else the k)"

text \<open>The header \<open>Bearer ${key}\<close>; an unset key prints as \<open>undefined\<close>.\<close>

definition bearer :: "jsstring option \<Rightarrow> jsstring" where
  "bearer k = str ''Bearer '' @ (case k of None \<Rightarrow> str ''undefined'' | Some s \<Rightarrow> s)"

definition OPENROUTER_URL :: jsstring where
  "OPENROUTER_URL = str ''https://openrouter.ai/api/v1/chat/completions''"

definition GROQ_URL :: jsstring where
  "GROQ_URL = str ''https://api.groq.com/openai/v1/chat/completions''"

section \<open>Responses\<close>

text \<open>The status and the object that is sent as JSON.\<close>

record response =
  statusCode :: nat
  body :: jsval

definition json :: "nat \<Rightarrow> jsval \<Rightarrow> response" where
  "json status data = \<lparr>statusCode = status, body = data\<rparr>"

definition error_only :: "string \<Rightarrow> jsval" where
  "error_only tag = JObj [(str ''error'', JStr (str tag))]"

text \<open>The value of \<open>numeric\<close> in a response: a number or null.\<close>

definition numeric_value :: "jsnum option \<Rightarrow> jsval" where
  "numeric_value n = (case n of None \<Rightarrow> JNull | Some x \<Rightarrow> JNum x)"

text \<open>
  The test of the image in the handlers that validate it:
  \<open>!imageDataUrl || typeof imageDataUrl !== "string" || !imageDataUrl.startsWith("data:image/")\<close>.
  A value that is not a string fails the first or the second test.
\<close>

definition invalid_image :: "jsval \<Rightarrow> bool" where
  "invalid_image v =
     (case v of
        JStr s \<Rightarrow> s = [] \<or> \<not> starts_with (str ''data:image/'') s
      | _ \<Rightarrow> True)"

text \<open>The string of a value that passed \<open>invalid_image\<close>.\<close>

fun string_of :: "jsval \<Rightarrow> jsstring" where
  "string_of (JStr s) = s"
| "string_of v = []"

text \<open>
  \<open>c?.trim?.()\<close>: the trimmed string of a string; undefined for null, undefined and for
  values without a \<open>trim\<close> property; a TypeError for an object whose own \<open>trim\<close> is
  neither null nor callable (no parsed value is callable).
\<close>

fun opt_trim :: "jsval \<Rightarrow> exn + jsval" where
  "opt_trim (JStr s) = Inr (JStr (trim s))"
| "opt_trim (JObj kvs) =
     (if nullish (get_prop (JObj kvs) (str ''trim'')) then Inr JUndefined else Inl TypeError)"
| "opt_trim v = Inr JUndefined"

text \<open>The user message of the explanation request in api/pipeline.js and in the
  Response-based Netlify handler.\<close>

definition student_prompt :: "jsstring \<Rightarrow> jsstring" where
  "student_prompt t =
     str ''STUDENT INPUT (OCR):'' @ [10] @ t @ [10, 10] @
     str ''If it's a single expression, show a short step-by-step solution with key intermediate lines in $$...$$ blocks.'' @ [10] @
     str ''If it's student work, briefly point out mistakes and give corrected steps.'' @ [10] @
     str ''Return plain text with LaTeX delimiters (no JSON).''"

section \<open>The handler of api/pipeline.js\<close>

text \<open>An Express request: the method and \<open>req.body\<close>, the parsed JSON body
  (undefined when there is none).\<close>

record express_req =
  req_method :: jsstring
  req_body :: jsval

definition api_ocr_call :: "jsstring option \<Rightarrow> jsstring \<Rightarrow> upstream_call" where
  "api_ocr_call key imageDataUrl =
     \<lparr>url = OPENROUTER_URL, authorization = bearer key,
      model = str ''qwen/qwen-2.5-vl-7b-instruct'',
      user = Vision (Image_url_object (JStr imageDataUrl))\<rparr>"

definition api_explain_call :: "jsstring option \<Rightarrow> jsstring \<Rightarrow> upstream_call" where
  "api_explain_call key t =
     \<lparr>url = GROQ_URL, authorization = bearer key,
      model = str ''llama-3.3-70b-versatile'', user = Text (student_prompt t)\<rparr>"

definition api_explain ::
  "env \<Rightarrow> jsstring \<Rightarrow> world \<Rightarrow> (exn + response) \<times> world" where
  "api_explain e t =
     (let numeric = tryEvaluate t in
      if unset (GROQ_API_KEY e) then ret (json 500 (error_only ''missing_groq_key''))
      else and_then (fetch (api_explain_call (GROQ_API_KEY e) t)) (\<lambda>explainResp.
        if \<not> ok explainResp then
          ret (json 502 (JObj [(str ''error'', JStr (str ''groq_failed'')),
                               (str ''detail'', JStr (take 400 (text_or explainResp []))),
                               (str ''text'', JStr t),
                               (str ''numeric'', numeric_value numeric)]))
        else and_then (lift (read_json explainResp)) (\<lambda>explainJson.
          ret (json 200 (JObj [(str ''text'', JStr t),
                               (str ''numeric'', numeric_value numeric),
                               (str ''explanation'',
                                  or_else (message_content explainJson) (JStr []))])))))"

definition api_try :: "env \<Rightarrow> express_req \<Rightarrow> world \<Rightarrow> (exn + response) \<times> world" where
  "api_try e req =
     (if req_method req \<noteq> str ''POST'' then ret (json 405 (error_only ''method_not_allowed''))
      else
        let imageDataUrl = get_prop (or_else (req_body req) (JObj [])) (str ''imageDataUrl'') in
        if invalid_image imageDataUrl then ret (json 400 (error_only ''invalid_image''))
        else if unset (OPENROUTER_API_KEY e) then
          ret (json 500 (error_only ''missing_openrouter_key''))
        else and_then (fetch (api_ocr_call (OPENROUTER_API_KEY e) (string_of imageDataUrl)))
          (\<lambda>ocrResp.
            if \<not> ok ocrResp then
              ret (json 502 (JObj [(str ''error'', JStr (str ''openrouter_failed'')),
                                   (str ''detail'', JStr (take 400 (text_or ocrResp [])))]))
            else and_then (lift (read_json ocrResp)) (\<lambda>ocrJson.
              and_then (lift (opt_trim (message_content ocrJson))) (\<lambda>trimmed.
                api_explain e (string_of (or_else trimmed (JStr [])))))))"

text \<open>The \<open>catch\<close> of the handler.\<close>

definition handler_api :: "env \<Rightarrow> express_req \<Rightarrow> world \<Rightarrow> response \<times> world" where
  "handler_api e req w =
     (case api_try e req w of
        (Inl err, w') \<Rightarrow> (json 500 (error_only ''pipeline_exception''), w')
      | (Inr res, w') \<Rightarrow> (res, w'))"

section \<open>The Response-based Netlify handler\<close>

text \<open>A Fetch API request: the method and what \<open>req.json()\<close> gives (\<open>Inl\<close> when it
  rejects).\<close>

record web_req =
  web_method :: jsstring
  web_json :: "jsstring + jsval"

definition qwen_call :: "jsstring option \<Rightarrow> image_part \<Rightarrow> upstream_call" where
  "qwen_call key img =
     \<lparr>url = OPENROUTER_URL, authorization = bearer key,
      model = str ''qwen/qwen-2.5-vl-7b-instruct'', user = Vision img\<rparr>"

definition callOpenRouter :: "upstream_call \<Rightarrow> world \<Rightarrow> (exn + jsstring) \<times> world" where
  "callOpenRouter c =
     and_then (fetch c) (\<lambda>resp.
       if \<not> ok resp then
         throw (Thrown (str ''OpenRouter OCR failed: '' @ dec (http_status resp) @ str '' '' @
                        take 300 (text_or resp [])))
       else
         let content = (let c = message_content (json_or resp (JObj [])) in
                        if nullish c then JStr [] else c)
         in ret (case content of JStr s \<Rightarrow> s | _ \<Rightarrow> []))"

definition isNoImageReply :: "jsstring \<Rightarrow> bool" where
  "isNoImageReply s =
     (if s = [] then True
      else let t = toLowerCase s in
        js_includes t (str ''provide the image'') \<or> js_includes t (str ''no image'') \<or>
        js_includes t (str ''cannot see'') \<or> trim t = [])"

definition is_quote :: "nat \<Rightarrow> bool" where
  "is_quote c = (c = 34 \<or> c = 39 \<or> c = 96)"

text \<open>\<open>.replace(/^["'`]+|["'`]+$/g, "")\<close>: the quotes at the start and those at the end.\<close>

definition strip_quotes :: "jsstring \<Rightarrow> jsstring" where
  "strip_quotes s = rev (dropWhile is_quote (rev (dropWhile is_quote s)))"

definition is_line_terminator :: "nat \<Rightarrow> bool" where
  "is_line_terminator c = (c = 10 \<or> c = 13 \<or> c = 8232 \<or> c = 8233)"

text \<open>
  \<open>/^\s*Understood!.*$/i\<close> matches, and then matches the whole string: whitespace, the
  word in either case of each letter, and no line terminator in what follows.
\<close>

definition understood_preface :: "jsstring \<Rightarrow> bool" where
  "understood_preface s =
     (let r = dropWhile is_space s in
      map ascii_lower (take 11 r) = str ''understood!'' \<and>
      list_all (\<lambda>c. \<not> is_line_terminator c) (drop 11 r))"

definition final_cleaning :: "jsstring \<Rightarrow> jsstring" where
  "final_cleaning t =
     trim (let a = strip_quotes t in if understood_preface a then [] else a)"

definition ocrWithQwen :: "jsstring option \<Rightarrow> jsstring \<Rightarrow> world \<Rightarrow> (exn + jsstring) \<times> world" where
  "ocrWithQwen key dataUrl =
     and_then (callOpenRouter (qwen_call key (Image_url_object (JStr dataUrl)))) (\<lambda>a.
       and_then (if isNoImageReply a
                 then callOpenRouter (qwen_call key (Image_url_string (JStr dataUrl)))
                 else ret a) (\<lambda>t.
         ret (final_cleaning t)))"

definition explainWithGroq :: "jsstring option \<Rightarrow> jsstring \<Rightarrow> world \<Rightarrow> (exn + jsval) \<times> world" where
  "explainWithGroq key t =
     and_then (fetch (api_explain_call key t)) (\<lambda>resp.
       if \<not> ok resp then
         throw (Thrown (str ''Groq explain failed: '' @ dec (http_status resp) @ str '' '' @
                        take 300 (text_or resp [])))
       else ret (or_else (message_content (json_or resp (JObj []))) (JStr [])))"

definition web_try :: "env \<Rightarrow> web_req \<Rightarrow> world \<Rightarrow> (exn + response) \<times> world" where
  "web_try e req =
     (if web_method req \<noteq> str ''POST'' then ret (json 405 (error_only ''method_not_allowed''))
      else case web_json req of
        Inl m \<Rightarrow> ret (json 400 (error_only ''invalid_json''))
      | Inr b \<Rightarrow>
          let imageDataUrl = get_prop (or_else b (JObj [])) (str ''imageDataUrl'') in
          if invalid_image imageDataUrl then ret (json 400 (error_only ''invalid_image''))
          else if 6000000 < length (string_of imageDataUrl) then
            ret (json 413 (error_only ''image_too_large''))
          else if unset (OPENROUTER_API_KEY e) then
            ret (json 500 (error_only ''missing_openrouter_key''))
          else and_then (ocrWithQwen (OPENROUTER_API_KEY e) (string_of imageDataUrl)) (\<lambda>ocrText.
            let numeric = tryEvaluate ocrText in
            if unset (GROQ_API_KEY e) then ret (json 500 (error_only ''missing_groq_key''))
            else and_then (explainWithGroq (GROQ_API_KEY e) ocrText) (\<lambda>explanation.
              ret (json 200 (JObj [(str ''text'', JStr ocrText),
                                   (str ''numeric'', numeric_value numeric),
                                   (str ''explanation'', explanation)])))))"

definition handler_web :: "env \<Rightarrow> web_req \<Rightarrow> world \<Rightarrow> response \<times> world" where
  "handler_web e req w =
     (case web_try e req w of
        (Inl err, w') \<Rightarrow> (json 500 (error_only ''pipeline_exception''), w')
      | (Inr res, w') \<Rightarrow> (res, w'))"

section \<open>Text functions of the event-based Netlify handlers\<close>

text \<open>\<open>.replace(/\*{2,}/g, "")\<close>: every run of two or more asterisks goes.\<close>

fun drop_star_runs :: "jsstring \<Rightarrow> jsstring" where
  "drop_star_runs [] = []"
| "drop_star_runs (c # cs) =
     (if c = of_char CHR ''*'' \<and> cs \<noteq> [] \<and> hd cs = of_char CHR ''*''
      then drop_star_runs (dropWhile (\<lambda>d. d = of_char CHR ''*'') cs)
      else c # drop_star_runs cs)"

text \<open>Three backticks.\<close>

definition fence :: jsstring where
  "fence = [96, 96, 96]"

text \<open>The text before the first fence and the text after it.\<close>

fun split_at_fence :: "jsstring \<Rightarrow> (jsstring \<times> jsstring) option" where
  "split_at_fence [] = None"
| "split_at_fence (c # cs) =
     (if starts_with fence (c # cs) then Some ([], drop 2 cs)
      else map_option (\<lambda>(a, r). (c # a, r)) (split_at_fence cs))"

lemma split_at_fence_length:
  "split_at_fence s = Some (a, r) \<Longrightarrow> length r < length s"
  by (induction s arbitrary: a r) (auto split: if_splits)

text \<open>
  The replacement of every match of a fenced block (a fence, the shortest text up to the
  next fence, that fence) by \<open>wrap\<close> of the text between the fences. Where a fence has no
  closing fence behind it, none of the later ones has, and the rest stays as it is.
\<close>

function replace_fenced :: "(jsstring \<Rightarrow> jsstring) \<Rightarrow> jsstring \<Rightarrow> jsstring" where
  "replace_fenced wrap [] = []"
| "replace_fenced wrap (c # cs) =
     (if starts_with fence (c # cs) then
        (case split_at_fence (drop 2 cs) of
           None \<Rightarrow> c # cs
         | Some (inner, rest) \<Rightarrow> wrap inner @ replace_fenced wrap rest)
      else c # replace_fenced wrap cs)"
  by pat_completeness auto
termination
proof (relation "measure (\<lambda>(wrap, s). length s)", goal_cases)
  case (2 wrap c cs x2 inner rest)
  then have "length rest < length (drop 2 cs)" using split_at_fence_length by metis
  then show ?case by simp
qed auto

text \<open>\<open>m.replace(/```/g, "")\<close>\<close>

fun remove_fences :: "jsstring \<Rightarrow> jsstring" where
  "remove_fences [] = []"
| "remove_fences [c] = [c]"
| "remove_fences [c, d] = [c, d]"
| "remove_fences (c # d # e # cs) =
     (if [c, d, e] = fence then remove_fences cs else c # remove_fences (d # e # cs))"

text \<open>
  A Markdown image at the head of the text, \<open>!\[[^\]]*]\([^)]+\)\<close>: the text after it.
  Both classes stop at the one character that must follow them, so there is one way to
  match.
\<close>

definition md_image :: "jsstring \<Rightarrow> jsstring option" where
  "md_image s =
     (if starts_with (str ''!['') s then
        (case dropWhile (\<lambda>c. c \<noteq> of_char CHR '']'') (drop 2 s) of
           b # p # r \<Rightarrow>
             if p = of_char CHR ''('' \<and> takeWhile (\<lambda>c. c \<noteq> of_char CHR '')'') r \<noteq> [] then
               (case dropWhile (\<lambda>c. c \<noteq> of_char CHR '')'') r of
                  [] \<Rightarrow> None
                | q # rest \<Rightarrow> Some rest)
             else None
         | _ \<Rightarrow> None)
      else None)"

lemma md_image_length:
  "md_image s = Some r \<Longrightarrow> length r < length s"
proof -
  assume a: "md_image s = Some r"
  then obtain b p t q where 1: "dropWhile (\<lambda>c. c \<noteq> of_char CHR '']'') (drop 2 s) = b # p # t"
    and 2: "dropWhile (\<lambda>c. c \<noteq> of_char CHR '')'') t = q # r"
    by (auto simp: md_image_def split: if_splits list.splits)
  have "length r < length (dropWhile (\<lambda>c. c \<noteq> of_char CHR '')'') t)" using 2 by simp
  also have "\<dots> \<le> length t" by (rule length_dropWhile_le)
  also have "\<dots> < length (dropWhile (\<lambda>c. c \<noteq> of_char CHR '']'') (drop 2 s))" using 1 by simp
  also have "\<dots> \<le> length (drop 2 s)" by (rule length_dropWhile_le)
  also have "\<dots> \<le> length s" by simp
  finally show ?thesis .
qed

text \<open>\<open>.replace(/!\[[^\]]*]\([^)]+\)/g, "")\<close>\<close>

function strip_images :: "jsstring \<Rightarrow> jsstring" where
  "strip_images [] = []"
| "strip_images (c # cs) =
     (case md_image (c # cs) of
        None \<Rightarrow> c # strip_images cs
      | Some rest \<Rightarrow> strip_images rest)"
  by pat_completeness auto
termination
proof (relation "measure length", goal_cases)
  case (3 c cs rest)
  then show ?case using md_image_length by fastforce
qed auto

text \<open>
  \<open>cleanOCR\<close> of netlify/functions/pipeline.js. Its argument is never undefined where it
  is called, so the default does not apply; a value that is not a string has no callable
  \<open>replace\<close>, which is a TypeError.
\<close>

definition cleanOCR :: "jsval \<Rightarrow> exn + jsstring" where
  "cleanOCR s =
     (case s of
        JStr t \<Rightarrow> Inr (trim (strip_images (replace_fenced (\<lambda>inner. inner) (drop_star_runs t))))
      | _ \<Rightarrow> Inl TypeError)"

text \<open>\<open>cleanOCR\<close> of the handler that asks Groq first: fenced blocks first, each replaced
  by itself without its fences.\<close>

definition cleanOCR_groq_first :: "jsval \<Rightarrow> exn + jsstring" where
  "cleanOCR_groq_first s =
     (case s of
        JStr t \<Rightarrow>
          Inr (trim (strip_images (drop_star_runs
                 (replace_fenced (\<lambda>inner. remove_fences (fence @ inner @ fence)) t))))
      | _ \<Rightarrow> Inl TypeError)"

text \<open>\<open>text.split(/\n{2,}/)\<close>; \<open>cur\<close> holds the block being read, reversed.\<close>

fun split_blocks :: "jsstring \<Rightarrow> jsstring \<Rightarrow> jsstring list" where
  "split_blocks cur [] = [rev cur]"
| "split_blocks cur (c # cs) =
     (if c = 10 \<and> cs \<noteq> [] \<and> hd cs = 10
      then rev cur # split_blocks [] (dropWhile (\<lambda>d. d = 10) cs)
      else split_blocks (c # cur) cs)"

text \<open>\<open>blocks.join("\n")\<close>\<close>

fun join_lines :: "jsstring list \<Rightarrow> jsstring" where
  "join_lines [] = []"
| "join_lines [b] = b"
| "join_lines (b # bs) = b @ [10] @ join_lines bs"

text \<open>\<open>toFriendlyStepsHtml\<close>, which the other two handlers call \<open>toHtmlParagraphs\<close>.\<close>

definition toHtmlParagraphs :: "jsstring \<Rightarrow> jsstring" where
  "toHtmlParagraphs t =
     join_lines
       (map (\<lambda>p. str ''<p>'' @ concat (map (\<lambda>c. if c = 10 then str ''<br>'' else [c]) p) @
                  str ''</p>'')
          (filter (\<lambda>p. p \<noteq> []) (map trim (split_blocks [] t))))"

definition no_math_text :: jsstring where
  "no_math_text = str ''The image does not contain any mathematical expressions or steps.''"

text \<open>The class \<open>[0-9=+\-\<times>*/()]\<close> of the test for math; the multiplication sign is the
  code unit 215.\<close>

definition math_char :: "nat \<Rightarrow> bool" where
  "math_char c =
     (is_digit c \<or> c = of_char CHR ''='' \<or> c = of_char CHR ''+'' \<or> c = of_char CHR ''-'' \<or>
      c = 215 \<or> c = of_char CHR ''*'' \<or> c = of_char CHR ''/'' \<or> c = of_char CHR ''('' \<or>
      c = of_char CHR '')'')"

text \<open>\<open>!rawText || !/[0-9=+\-\<times>*/()]/.test(rawText)\<close>\<close>

definition no_math :: "jsstring \<Rightarrow> bool" where
  "no_math t = (t = [] \<or> \<not> list_ex math_char t)"

section \<open>The handler of netlify/functions/pipeline.js\<close>

text \<open>
  A Netlify event: the method and the body. The body is a text, and what the handler does
  with it is \<open>JSON.parse(event.body || "{}")\<close>; the model holds the outcome of that for
  the text: \<open>None\<close> for a body that is null or empty, \<open>Inl\<close> with the message of the
  SyntaxError for a text that is not JSON, \<open>Inr\<close> with the value for one that is.
\<close>

record event =
  httpMethod :: jsstring
  event_body :: "(jsstring + jsval) option"

definition parse_body :: "(jsstring + jsval) option \<Rightarrow> exn + jsval" where
  "parse_body b =
     (case b of
        None \<Rightarrow> Inr (JObj [])
      | Some (Inl m) \<Rightarrow> Inl (Thrown m)
      | Some (Inr v) \<Rightarrow> Inr v)"

text \<open>\<open>const { imageDataUrl, stepByStep = true } = body\<close>: null cannot be destructured, and
  the default stands in for undefined only.\<close>

definition destructure :: "jsval \<Rightarrow> exn + jsval \<times> jsval" where
  "destructure b =
     (if nullish b then Inl TypeError
      else Inr (get_prop b (str ''imageDataUrl''),
                (let s = get_prop b (str ''stepByStep'') in
                 if s = JUndefined then JBool True else s)))"

text \<open>
  \<open>dataUrlToParts\<close>, called on a truthy value: a value that is not a string has no callable
  \<open>startsWith\<close>. \<open>None\<close> is null.
\<close>

definition dataUrlToParts :: "jsval \<Rightarrow> exn + (jsstring \<times> jsval) option" where
  "dataUrlToParts dataUrl =
     (case dataUrl of
        JStr s \<Rightarrow>
          if \<not> starts_with (str ''data:'') s then Inr None
          else
            let meta = takeWhile (\<lambda>c. c \<noteq> of_char CHR '','') s;
                after = dropWhile (\<lambda>c. c \<noteq> of_char CHR '','') s;
                base64 = (case after of
                            [] \<Rightarrow> JUndefined
                          | k # r \<Rightarrow> JStr (takeWhile (\<lambda>c. c \<noteq> of_char CHR '','') r))
            in Inr (Some (drop 5 (takeWhile (\<lambda>c. c \<noteq> of_char CHR '';'') meta), base64))
      | _ \<Rightarrow> Inl TypeError)"

text \<open>The error a failed upstream request is turned into:
  \<open>`${what} failed: ${r.status} ${msg}`\<close> with \<open>msg\<close> the body, or the status text when
  the body cannot be read.\<close>

definition upstream_error :: "string \<Rightarrow> reply \<Rightarrow> exn" where
  "upstream_error what r =
     Thrown (str what @ str '' failed: '' @ dec (http_status r) @ str '' '' @
             text_or r (statusText r))"

text \<open>\<open>c ?? ""\<close>\<close>

definition or_empty :: "jsval \<Rightarrow> jsval" where
  "or_empty c = (if nullish c then JStr [] else c)"

definition runOCRWithOpenRouter :: "env \<Rightarrow> jsval \<Rightarrow> world \<Rightarrow> (exn + jsstring) \<times> world" where
  "runOCRWithOpenRouter e imageDataUrl =
     and_then (lift (dataUrlToParts imageDataUrl)) (\<lambda>img.
       if img = None then throw (Thrown (str ''Invalid image data URL''))
       else and_then
         (fetch \<lparr>url = OPENROUTER_URL, authorization = bearer (OPENROUTER_API_KEY e),
                 model = str ''qwen2.5-vl-7b-instruct:free'',
                 user = Vision (Input_image imageDataUrl)\<rparr>) (\<lambda>r.
         if \<not> ok r then throw (upstream_error ''OpenRouter OCR'' r)
         else and_then (lift (read_json r)) (\<lambda>data.
           lift (cleanOCR (or_empty (message_content data))))))"

text \<open>\<open>c?.trim()\<close>: undefined for null and undefined, the trimmed string of a string, and
  a TypeError otherwise.\<close>

fun strict_trim :: "jsval \<Rightarrow> exn + jsval" where
  "strict_trim (JStr s) = Inr (JStr (trim s))"
| "strict_trim JUndefined = Inr JUndefined"
| "strict_trim JNull = Inr JUndefined"
| "strict_trim v = Inl TypeError"

definition step_prompt :: "jsval \<Rightarrow> jsstring \<Rightarrow> jsstring" where
  "step_prompt stepByStep ocrText =
     (if truthy stepByStep
      then str ''Explain step-by-step the following math work or expression:'' @ [10, 10] @
           ocrText @ [10, 10] @
           str ''If there are errors, correct them and show the right steps clearly.''
      else str ''Explain briefly the following math:'' @ [10, 10] @ ocrText)"

definition runExplainWithGroq ::
  "env \<Rightarrow> jsstring \<Rightarrow> jsval \<Rightarrow> world \<Rightarrow> (exn + jsstring) \<times> world" where
  "runExplainWithGroq e ocrText stepByStep =
     and_then
       (fetch \<lparr>url = GROQ_URL, authorization = bearer (GROQ_API_KEY e),
               model = str ''llama3-70b-8192'', user = Text (step_prompt stepByStep ocrText)\<rparr>)
       (\<lambda>r.
         if \<not> ok r then throw (upstream_error ''Groq explain'' r)
         else and_then (lift (read_json r)) (\<lambda>data.
           and_then (lift (strict_trim (message_content data))) (\<lambda>t.
             ret (string_of (or_else t (JStr []))))))"

text \<open>The body of the \<open>try\<close> from the OCR on, shared by the three event-based handlers: the
  early answer when the transcript holds no math, the explanation otherwise.\<close>

definition answer ::
  "(jsstring \<Rightarrow> jsval \<Rightarrow> world \<Rightarrow> (exn + jsstring) \<times> world) \<Rightarrow> jsstring \<Rightarrow> jsval
     \<Rightarrow> world \<Rightarrow> (exn + response) \<times> world" where
  "answer explain rawText stepByStep =
     (if no_math rawText then
        ret (json 200 (JObj [(str ''text'', JStr rawText),
                             (str ''explanation'', JStr (toHtmlParagraphs no_math_text))]))
      else and_then (explain rawText stepByStep) (\<lambda>explanation.
        ret (json 200 (JObj [(str ''text'', JStr rawText),
                             (str ''explanation'', JStr (toHtmlParagraphs explanation))]))))"

definition netlify_try :: "env \<Rightarrow> event \<Rightarrow> world \<Rightarrow> (exn + response) \<times> world" where
  "netlify_try e ev =
     (if httpMethod ev \<noteq> str ''POST'' then ret (json 405 (error_only ''Method Not Allowed''))
      else and_then (lift (parse_body (event_body ev))) (\<lambda>b.
        and_then (lift (destructure b)) (\<lambda>(imageDataUrl, stepByStep).
          if \<not> truthy imageDataUrl then ret (json 400 (error_only ''Missing imageDataUrl''))
          else and_then (runOCRWithOpenRouter e imageDataUrl) (\<lambda>rawText.
            answer (runExplainWithGroq e) rawText stepByStep))))"

text \<open>The \<open>catch\<close>: \<open>json(500, { error: err.message || "Pipeline error" })\<close>\<close>

definition pipeline_error :: "exn \<Rightarrow> response" where
  "pipeline_error err =
     json 500 (JObj [(str ''error'',
       JStr (if message_of err = [] then str ''Pipeline error'' else message_of err))])"

definition handler_netlify :: "env \<Rightarrow> event \<Rightarrow> world \<Rightarrow> response \<times> world" where
  "handler_netlify e ev w =
     (case netlify_try e ev w of
        (Inl err, w') \<Rightarrow> (pipeline_error err, w')
      | (Inr res, w') \<Rightarrow> (res, w'))"

section \<open>The handler that asks Groq first\<close>

text \<open>The second event-based handler: OCR by the Groq vision model, and by OpenRouter when
  that throws and an OpenRouter key is set.\<close>

definition vision ::
  "string \<Rightarrow> (jsval \<Rightarrow> exn + jsstring) \<Rightarrow> upstream_call \<Rightarrow> world
     \<Rightarrow> (exn + jsstring) \<times> world" where
  "vision what clean c =
     and_then (fetch c) (\<lambda>r.
       if \<not> ok r then throw (upstream_error what r)
       else and_then (lift (read_json r)) (\<lambda>data.
         lift (clean (or_empty (message_content data)))))"

definition ocrWithGroq :: "env \<Rightarrow> jsval \<Rightarrow> world \<Rightarrow> (exn + jsstring) \<times> world" where
  "ocrWithGroq e imageDataUrl =
     vision ''Groq OCR'' cleanOCR_groq_first
       \<lparr>url = GROQ_URL, authorization = bearer (GROQ_API_KEY e),
        model = env_or (GROQ_VISION_MODEL e) (str ''llama-3.2-11b-vision-preview''),
        user = Vision (Image_url_object imageDataUrl)\<rparr>"

definition ocrWithOpenRouter :: "env \<Rightarrow> jsval \<Rightarrow> world \<Rightarrow> (exn + jsstring) \<times> world" where
  "ocrWithOpenRouter e imageDataUrl =
     vision ''OpenRouter OCR'' cleanOCR_groq_first
       \<lparr>url = OPENROUTER_URL, authorization = bearer (OPENROUTER_API_KEY e),
        model = env_or (OPENROUTER_VISION_MODEL e) (str ''gpt-4o-mini''),
        user = Vision (Image_url_object imageDataUrl)\<rparr>"

text \<open>\<open>(c || "").trim()\<close>: a truthy value that is not a string has no callable \<open>trim\<close>.\<close>

definition trim_or_empty :: "jsval \<Rightarrow> exn + jsstring" where
  "trim_or_empty c =
     (case or_else c (JStr []) of JStr s \<Rightarrow> Inr (trim s) | _ \<Rightarrow> Inl TypeError)"

definition short_prompt :: "jsval \<Rightarrow> jsstring \<Rightarrow> jsstring" where
  "short_prompt stepByStep ocrText =
     (if truthy stepByStep then str ''Explain step by step:'' @ [10]
      else str ''Explain briefly:'' @ [10]) @ ocrText"

definition explainWithGroq_text ::
  "env \<Rightarrow> jsstring \<Rightarrow> jsval \<Rightarrow> world \<Rightarrow> (exn + jsstring) \<times> world" where
  "explainWithGroq_text e ocrText stepByStep =
     and_then
       (fetch \<lparr>url = GROQ_URL, authorization = bearer (GROQ_API_KEY e),
               model = env_or (GROQ_TEXT_MODEL e) (str ''llama-3.1-70b-versatile''),
               user = Text (short_prompt stepByStep ocrText)\<rparr>)
       (\<lambda>r.
         if \<not> ok r then throw (upstream_error ''Groq explain'' r)
         else and_then (lift (read_json r)) (\<lambda>data.
           lift (trim_or_empty (message_content data))))"

text \<open>\<open>try { text = await ocrWithGroq(...) } catch (e1) { ... }\<close>\<close>

definition groq_first_ocr :: "env \<Rightarrow> jsval \<Rightarrow> world \<Rightarrow> (exn + jsstring) \<times> world" where
  "groq_first_ocr e imageDataUrl w =
     (case ocrWithGroq e imageDataUrl w of
        (Inl e1, w') \<Rightarrow>
          if \<not> unset (OPENROUTER_API_KEY e) then ocrWithOpenRouter e imageDataUrl w'
          else (Inl e1, w')
      | (Inr t, w') \<Rightarrow> (Inr t, w'))"

definition groq_first_try :: "env \<Rightarrow> event \<Rightarrow> world \<Rightarrow> (exn + response) \<times> world" where
  "groq_first_try e ev =
     (if httpMethod ev \<noteq> str ''POST'' then ret (json 405 (error_only ''Method Not Allowed''))
      else and_then (lift (parse_body (event_body ev))) (\<lambda>b.
        and_then (lift (destructure b)) (\<lambda>(imageDataUrl, stepByStep).
          if \<not> truthy imageDataUrl then ret (json 400 (error_only ''Missing imageDataUrl''))
          else and_then (groq_first_ocr e imageDataUrl) (\<lambda>t.
            answer (explainWithGroq_text e) t stepByStep))))"

definition handler_groq_first :: "env \<Rightarrow> event \<Rightarrow> world \<Rightarrow> response \<times> world" where
  "handler_groq_first e ev w =
     (case groq_first_try e ev w of
        (Inl err, w') \<Rightarrow> (pipeline_error err, w')
      | (Inr res, w') \<Rightarrow> (res, w'))"

section \<open>The handler that asks OpenRouter first and Groq second\<close>

text \<open>The third event-based handler: OCR by OpenRouter, and by the Groq vision model
  whenever that throws.\<close>

definition runOCRWithOpenRouter_model :: "env \<Rightarrow> jsval \<Rightarrow> world \<Rightarrow> (exn + jsstring) \<times> world" where
  "runOCRWithOpenRouter_model e imageDataUrl =
     vision ''OpenRouter OCR'' cleanOCR
       \<lparr>url = OPENROUTER_URL, authorization = bearer (OPENROUTER_API_KEY e),
        model = env_or (OPENROUTER_VISION_MODEL e) (str ''gpt-4o-mini''),
        user = Vision (Input_image imageDataUrl)\<rparr>"

definition runOCRWithGroqVision :: "env \<Rightarrow> jsval \<Rightarrow> world \<Rightarrow> (exn + jsstring) \<times> world" where
  "runOCRWithGroqVision e imageDataUrl =
     vision ''Groq OCR'' cleanOCR
       \<lparr>url = GROQ_URL, authorization = bearer (GROQ_API_KEY e),
        model = env_or (GROQ_VISION_MODEL e) (str ''llama-3.2-11b-vision-preview''),
        user = Vision (Input_image imageDataUrl)\<rparr>"

definition runExplainWithGroq_text ::
  "env \<Rightarrow> jsstring \<Rightarrow> jsval \<Rightarrow> world \<Rightarrow> (exn + jsstring) \<times> world" where
  "runExplainWithGroq_text e ocrText stepByStep =
     and_then
       (fetch \<lparr>url = GROQ_URL, authorization = bearer (GROQ_API_KEY e),
               model = env_or (GROQ_TEXT_MODEL e) (str ''llama-3.1-70b-versatile''),
               user = Text (short_prompt stepByStep ocrText)\<rparr>)
       (\<lambda>r.
         if \<not> ok r then throw (upstream_error ''Groq explain'' r)
         else and_then (lift (read_json r)) (\<lambda>data.
           and_then (lift (strict_trim (message_content data))) (\<lambda>t.
             ret (string_of (or_else t (JStr []))))))"

definition openrouter_first_ocr :: "env \<Rightarrow> jsval \<Rightarrow> world \<Rightarrow> (exn + jsstring) \<times> world" where
  "openrouter_first_ocr e imageDataUrl w =
     (case runOCRWithOpenRouter_model e imageDataUrl w of
        (Inl err, w') \<Rightarrow> runOCRWithGroqVision e imageDataUrl w'
      | (Inr t, w') \<Rightarrow> (Inr t, w'))"

definition openrouter_first_try :: "env \<Rightarrow> event \<Rightarrow> world \<Rightarrow> (exn + response) \<times> world" where
  "openrouter_first_try e ev =
     (if httpMethod ev \<noteq> str ''POST'' then ret (json 405 (error_only ''Method Not Allowed''))
      else and_then (lift (parse_body (event_body ev))) (\<lambda>b.
        and_then (lift (destructure b)) (\<lambda>(imageDataUrl, stepByStep).
          if \<not> truthy imageDataUrl then ret (json 400 (error_only ''Missing imageDataUrl''))
          else and_then (openrouter_first_ocr e imageDataUrl) (\<lambda>rawText.
            answer (runExplainWithGroq_text e) rawText stepByStep))))"

definition handler_openrouter_first :: "env \<Rightarrow> event \<Rightarrow> world \<Rightarrow> response \<times> world" where
  "handler_openrouter_first e ev w =
     (case openrouter_first_try e ev w of
        (Inl err, w') \<Rightarrow> (pipeline_error err, w')
      | (Inr res, w') \<Rightarrow> (res, w'))"

section \<open>The Express-style handler with two request schemas\<close>

text \<open>
  The first handler of the unnamed sources: OCR with the Qwen model in one request schema
  and, when that gives nothing, with the Gemini model in another.

  \<open>ToString\<close> of a parsed value, for the regular expression test and the template that
  take the transcript: the decimal rendering of a number is the parameter \<open>sh\<close>; an
  array joins its elements with commas, null and undefined as the empty string; an object
  prints as \<open>[object Object]\<close>, and when it has a \<open>toString\<close> of its own, which is not
  callable, the conversion throws a TypeError (\<open>None\<close>).
\<close>

fun join_commas :: "jsstring option list \<Rightarrow> jsstring option" where
  "join_commas [] = Some []"
| "join_commas [x] = x"
| "join_commas (x # xs) =
     (case x of
        None \<Rightarrow> None
      | Some a \<Rightarrow> (case join_commas xs of None \<Rightarrow> None | Some b \<Rightarrow> Some (a @ str '','' @ b)))"

fun ToString :: "(jsnum \<Rightarrow> jsstring) \<Rightarrow> jsval \<Rightarrow> jsstring option" where
  "ToString sh JUndefined = Some (str ''undefined'')"
| "ToString sh JNull = Some (str ''null'')"
| "ToString sh (JBool b) = Some (if b then str ''true'' else str ''false'')"
| "ToString sh (JNum n) = Some (sh n)"
| "ToString sh (JStr s) = Some s"
| "ToString sh (JArr xs) =
     join_commas (map (\<lambda>x. if nullish x then Some [] else ToString sh x) xs)"
| "ToString sh (JObj kvs) =
     (if map_of kvs (str ''toString'') = None then Some (str ''[object Object]'') else None)"

text \<open>\<open>/provide the image|no image|can't see|cannot see/i.test(s)\<close>: without the unicode
  flag, only the letters of ASCII match in either case.\<close>

definition negative_reply :: "jsstring \<Rightarrow> bool" where
  "negative_reply s =
     (let t = map ascii_lower s in
      js_includes t (str ''provide the image'') \<or> js_includes t (str ''no image'') \<or>
      js_includes t (str ''can't see'') \<or> js_includes t (str ''cannot see''))"

text \<open>\<open>j?.choices?.[0]?.message?.content?.trim?.() || j?.choices?.[0]?.message?.content || ""\<close>\<close>

definition transcript_of :: "jsval \<Rightarrow> exn + jsval" where
  "transcript_of j =
     (let c = message_content j in
      case opt_trim c of
        Inl err \<Rightarrow> Inl err
      | Inr t \<Rightarrow> Inr (or_else t (or_else c (JStr []))))"

text \<open>\<open>ocrText\<close> after the first attempt: empty when the response is not ok, when the
  transcript is falsy, and when it matches the test.\<close>

definition first_attempt :: "(jsnum \<Rightarrow> jsstring) \<Rightarrow> reply \<Rightarrow> exn + jsval" where
  "first_attempt sh r =
     (if \<not> ok r then Inr (JStr [])
      else case transcript_of (json_or r JNull) of
        Inl err \<Rightarrow> Inl err
      | Inr t \<Rightarrow>
          (case ToString sh t of
             None \<Rightarrow> Inl TypeError
           | Some s \<Rightarrow> Inr (if negative_reply s \<or> \<not> truthy t then JStr [] else t)))"

definition schema_a_call :: "env \<Rightarrow> jsstring \<Rightarrow> upstream_call" where
  "schema_a_call e imageDataUrl =
     \<lparr>url = OPENROUTER_URL, authorization = bearer (OPENROUTER_API_KEY e),
      model = str ''qwen/qwen-2.5-vl-7b-instruct'',
      user = Vision (Input_image (JStr imageDataUrl))\<rparr>"

definition schema_b_call :: "env \<Rightarrow> jsstring \<Rightarrow> upstream_call" where
  "schema_b_call e imageDataUrl =
     \<lparr>url = OPENROUTER_URL, authorization = bearer (OPENROUTER_API_KEY e),
      model = str ''google/gemini-1.5-flash'',
      user = Vision (Image_url_object (JStr imageDataUrl))\<rparr>"

text \<open>The second attempt ends the request with 502 when its response is not ok (\<open>Inl\<close>),
  and gives the transcript otherwise.\<close>

definition second_attempt ::
  "env \<Rightarrow> jsstring \<Rightarrow> world \<Rightarrow> (exn + response + jsval) \<times> world" where
  "second_attempt e imageDataUrl =
     and_then (fetch (schema_b_call e imageDataUrl)) (\<lambda>r.
       if \<not> ok r then
         ret (Inl (json 502 (JObj [(str ''error'', JStr (str ''openrouter_failed'')),
                                   (str ''detail'', JStr (take 400 (text_or r [])))])))
       else and_then (lift (transcript_of (json_or r JNull))) (\<lambda>t. ret (Inr t)))"

definition two_schemas_ocr ::
  "(jsnum \<Rightarrow> jsstring) \<Rightarrow> env \<Rightarrow> jsstring \<Rightarrow> world \<Rightarrow> (exn + response + jsval) \<times> world" where
  "two_schemas_ocr sh e imageDataUrl =
     and_then (fetch (schema_a_call e imageDataUrl)) (\<lambda>r.
       and_then (lift (first_attempt sh r)) (\<lambda>ocrText.
         if \<not> truthy ocrText then second_attempt e imageDataUrl
         else ret (Inr ocrText)))"

text \<open>\<open>tryEvaluate\<close> of this handler on a value: a falsy value is replaced by the empty
  string, and a truthy value that is not a string has no callable \<open>replace\<close>, which throws
  into the \<open>catch\<close> of \<open>tryEvaluate\<close>.\<close>

definition tryEvaluate_value :: "jsval \<Rightarrow> jsnum option" where
  "tryEvaluate_value v = (case v of JStr s \<Rightarrow> tryEvaluate_isFinite s | _ \<Rightarrow> None)"

definition ocr_text_prompt :: "jsstring \<Rightarrow> jsstring" where
  "ocr_text_prompt t =
     str ''OCR TEXT:'' @ [10] @ t @ [10, 10] @
     str ''Explain or solve clearly. Return plain text containing LaTeX delimiters (no JSON).''"

definition two_schemas_explain ::
  "(jsnum \<Rightarrow> jsstring) \<Rightarrow> env \<Rightarrow> jsval \<Rightarrow> world \<Rightarrow> (exn + response) \<times> world" where
  "two_schemas_explain sh e ocrText =
     (let numeric = tryEvaluate_value ocrText in
      case ToString sh (or_else ocrText (JStr (str ''(empty)''))) of
        None \<Rightarrow> throw TypeError
      | Some shown \<Rightarrow>
          and_then
            (fetch \<lparr>url = GROQ_URL, authorization = bearer (GROQ_API_KEY e),
                    model = str ''llama-3.3-70b-versatile'',
                    user = Text (ocr_text_prompt shown)\<rparr>) (\<lambda>explainResp.
            if \<not> ok explainResp then
              ret (json 502 (JObj [(str ''error'', JStr (str ''groq_failed'')),
                                   (str ''detail'', JStr (take 400 (text_or explainResp []))),
                                   (str ''text'', ocrText),
                                   (str ''numeric'', numeric_value numeric)]))
            else and_then (lift (transcript_of (json_or explainResp JNull))) (\<lambda>explanation.
              ret (json 200 (JObj [(str ''text'', or_else ocrText (JStr (str ''-''))),
                                   (str ''numeric'', numeric_value numeric),
                                   (str ''explanation'',
                                      or_else explanation (JStr (str ''-'')))])))))"

definition two_schemas_try ::
  "(jsnum \<Rightarrow> jsstring) \<Rightarrow> env \<Rightarrow> express_req \<Rightarrow> world \<Rightarrow> (exn + response) \<times> world" where
  "two_schemas_try sh e req =
     (if req_method req \<noteq> str ''POST'' then ret (json 405 (error_only ''method_not_allowed''))
      else
        let imageDataUrl = get_prop (or_else (req_body req) (JObj [])) (str ''imageDataUrl'') in
        if invalid_image imageDataUrl then ret (json 400 (error_only ''invalid_image''))
        else if unset (OPENROUTER_API_KEY e) then
          ret (json 500 (error_only ''missing_openrouter_key''))
        else if unset (GROQ_API_KEY e) then ret (json 500 (error_only ''missing_groq_key''))
        else and_then (two_schemas_ocr sh e (string_of imageDataUrl)) (\<lambda>stage.
          case stage of
            Inl res \<Rightarrow> ret res
          | Inr ocrText \<Rightarrow> two_schemas_explain sh e ocrText))"

definition handler_two_schemas ::
  "(jsnum \<Rightarrow> jsstring) \<Rightarrow> env \<Rightarrow> express_req \<Rightarrow> world \<Rightarrow> response \<times> world" where
  "handler_two_schemas sh e req w =
     (case two_schemas_try sh e req w of
        (Inl err, w') \<Rightarrow> (json 500 (error_only ''pipeline_exception''), w')
      | (Inr res, w') \<Rightarrow> (res, w'))"

section \<open>Values for the examples\<close>

text \<open>An environment without any variable, one with both keys, a world without replies
  or calls, a request body with an image, and the body of a chat completion with one
  message.\<close>

definition no_env :: env where
  "no_env = \<lparr>OPENROUTER_API_KEY = None, GROQ_API_KEY = None, OPENROUTER_VISION_MODEL = None,
             GROQ_VISION_MODEL = None, GROQ_TEXT_MODEL = None\<rparr>"

definition both_keys :: env where
  "both_keys = \<lparr>OPENROUTER_API_KEY = Some (str ''or-key''), GROQ_API_KEY = Some (str ''gq-key''),
                OPENROUTER_VISION_MODEL = None, GROQ_VISION_MODEL = None,
                GROQ_TEXT_MODEL = None\<rparr>"

definition openrouter_only :: env where
  "openrouter_only = \<lparr>OPENROUTER_API_KEY = Some (str ''or-key''), GROQ_API_KEY = None,
                      OPENROUTER_VISION_MODEL = None, GROQ_VISION_MODEL = None,
                      GROQ_TEXT_MODEL = None\<rparr>"

definition silent :: world where
  "silent = \<lparr>replies = [], calls = []\<rparr>"

definition image_body :: "jsstring \<Rightarrow> jsval" where
  "image_body s = JObj [(str ''imageDataUrl'', JStr s)]"

definition completion :: "nat \<Rightarrow> jsstring \<Rightarrow> fetched" where
  "completion status s =
     Reply \<lparr>http_status = status, statusText = [], text_body = Some [],
            json_body = Inr (JObj [(str ''choices'',
              JArr [JObj [(str ''message'', JObj [(str ''content'', JStr s)])]])])\<rparr>"

text \<open>
  What the claims call a body with an image: it has an \<open>imageDataUrl\<close> that is a string
  starting with \<open>data:image/\<close>.
\<close>

definition image_field :: "jsval \<Rightarrow> bool" where
  "image_field b =
     (case get_prop b (str ''imageDataUrl'') of
        JStr s \<Rightarrow> starts_with (str ''data:image/'') s
      | _ \<Rightarrow> False)"

text \<open>The calls whose user message is a text: the requests for an explanation.\<close>

definition explanation_calls :: "world \<Rightarrow> upstream_call list" where
  "explanation_calls w = filter (\<lambda>c. case user c of Text t \<Rightarrow> True | Vision i \<Rightarrow> False) (calls w)"

text \<open>The answer the claims describe for an image without math: status 200, the
  transcript, and the fixed text in a paragraph.\<close>

definition no_math_answer :: "jsstring \<Rightarrow> response" where
  "no_math_answer t =
     json 200 (JObj [(str ''text'', JStr t),
       (str ''explanation'',
        JStr (str ''<p>The image does not contain any mathematical expressions or steps.</p>''))])"

text \<open>
  The shape the claims give to a response: status 200, or one of the failure statuses with an
  object whose \<open>error\<close> is a string.
\<close>

definition has_error_tag :: "jsval \<Rightarrow> bool" where
  "has_error_tag b = (case get_prop b (str ''error'') of JStr m \<Rightarrow> True | _ \<Rightarrow> False)"

definition well_shaped :: "response \<Rightarrow> bool" where
  "well_shaped r =
     (statusCode r = 200 \<or>
      (statusCode r = 400 \<or> statusCode r = 405 \<or> statusCode r = 413 \<or> statusCode r = 500 \<or>
       statusCode r = 502) \<and> has_error_tag (body r))"

text \<open>Every response that a step returns, in whatever world, has that shape.\<close>

definition shaped :: "(world \<Rightarrow> (exn + response) \<times> world) \<Rightarrow> bool" where
  "shaped m = (\<forall>w. case fst (m w) of Inl err \<Rightarrow> True | Inr r \<Rightarrow> well_shaped r)"

section \<open>Properties of tryEvaluate\<close>

lemmas evaluate_defs =
  tryEvaluate_def tryEvaluate_isFinite_def clean_of_def str_def arith_char_def is_digit_def
  is_space_def Function_return_def fraction_def regex_literal_def not_slash_def
  literal_value_def num_sub_def integral_def

lemma tryEvaluate_isFinite_eq: "tryEvaluate_isFinite expr = tryEvaluate expr"
proof -
  have "Number_isFinite val = (typeof_number val \<and> Number_isFinite val)" for val
    by (cases val) auto
  then show ?thesis
    by (auto simp: tryEvaluate_def tryEvaluate_isFinite_def Let_def split: option.splits)
qed

fun numfree :: "expr \<Rightarrow> bool" where
  "numfree (Lit v) = False"
| "numfree Regex = True"
| "numfree (Unary u e) = numfree e"
| "numfree (Binary b x y) = (numfree x \<and> numfree y)"

lemma skip_block_comment_set:
  "skip_block_comment cs = Some r \<Longrightarrow> set r \<subseteq> set cs"
  by (induction cs arbitrary: r rule: skip_block_comment.induct) (auto split: if_splits)

lemma regex_literal_set:
  "regex_literal cs = Some (b, r) \<Longrightarrow> set r \<subseteq> set cs"
proof -
  assume "regex_literal cs = Some (b, r)"
  then obtain s where "dropWhile not_slash cs = s # r"
    by (auto simp: regex_literal_def split: list.splits)
  then have "set r \<subseteq> set (dropWhile not_slash cs)" by auto
  then show ?thesis using set_dropWhileD by fastforce
qed

text \<open>A text without digits has no numeric literal among its tokens.\<close>

lemma lex_no_number:
  "lex re s = Some ts \<Longrightarrow> \<forall>c\<in>set s. \<not> is_digit c \<Longrightarrow> TNum v \<notin> set ts"
proof (induction "length s" arbitrary: re s ts rule: less_induct)
  case less
  show ?case
  proof (cases s)
    case Nil
    with less.prems show ?thesis by simp
  next
    case (Cons c cs)
    have nd: "\<not> is_digit c" "\<forall>x\<in>set cs. \<not> is_digit x"
      using less.prems(2) Cons by auto
    have IH: "TNum v \<notin> set ts'"
      if "length r \<le> length cs" "set r \<subseteq> set cs" "lex re' r = Some ts'" for re' r ts'
    proof -
      have "length r < length s" using that(1) Cons by simp
      moreover have "\<forall>x\<in>set r. \<not> is_digit x" using that(2) nd(2) by auto
      ultimately show ?thesis using less.hyps that(3) by blast
    qed
    have tl: "length (tl cs) \<le> length cs" "set (tl cs) \<subseteq> set cs"
      by (cases cs; simp; blast)+
    have L: "lex re (c # cs) = Some ts" using less.prems(1) Cons by simp
    consider (slash) "c = 47" | (dot) "c = 46" | (plus) "c = 43" | (minus) "c = 45"
      | (star) "c = 42" | (lp) "c = 40" | (rp) "c = 41"
      | (other) "c \<noteq> 47" "c \<noteq> 46" "c \<noteq> 43" "c \<noteq> 45" "c \<noteq> 42" "c \<noteq> 40" "c \<noteq> 41"
      by blast
    then show ?thesis
    proof cases
      case slash
      show ?thesis
      proof (cases "cs \<noteq> [] \<and> hd cs = 47")
        case True
        with L slash show ?thesis by simp
      next
        case nc: False
        show ?thesis
        proof (cases "cs \<noteq> [] \<and> hd cs = 42")
          case True
          with L slash nc obtain rest where r: "skip_block_comment (tl cs) = Some rest"
            and l: "lex re rest = Some ts"
            by (auto split: option.splits)
          have "length rest < length (tl cs)" using r by (rule skip_block_comment_length)
          moreover have "set rest \<subseteq> set (tl cs)" using r by (rule skip_block_comment_set)
          ultimately show ?thesis using IH [of rest re ts] l tl by auto
        next
          case nb: False
          show ?thesis
          proof (cases re)
            case True
            with L slash nc nb obtain body rest ts'
              where r: "regex_literal cs = Some (body, rest)"
                and l: "lex False rest = Some ts'" and t: "ts = TRegex # ts'"
              by (auto split: option.splits if_splits)
            have "length rest < length cs" using r by (rule regex_literal_length)
            moreover have "set rest \<subseteq> set cs" using r by (rule regex_literal_set)
            ultimately show ?thesis using IH [of rest False ts'] l t by auto
          next
            case False
            with L slash nc nb obtain ts' where "lex True cs = Some ts'" "ts = TSlash # ts'"
              by auto
            then show ?thesis using IH [of cs True ts'] by auto
          qed
        qed
      qed
    next
      case dot
      show ?thesis using L dot nd by (cases cs) auto
    next
      case plus
      with L obtain ts' where "lex True cs = Some ts'" "ts = TPlus # ts'"
        using nd(1) by (auto split: if_splits)
      then show ?thesis using IH [of cs True ts'] by auto
    next
      case minus
      with L obtain ts' where "lex True cs = Some ts'" "ts = TMinus # ts'"
        using nd(1) by (auto split: if_splits)
      then show ?thesis using IH [of cs True ts'] by auto
    next
      case star
      with L consider ts' where "lex True (tl cs) = Some ts'" "ts = TPow # ts'"
        | ts' where "lex True cs = Some ts'" "ts = TStar # ts'"
        using nd(1) by (auto split: if_splits)
      then show ?thesis
      proof cases
        case 1
        then show ?thesis using IH [of "tl cs" True ts'] tl by auto
      next
        case 2
        then show ?thesis using IH [of cs True ts'] by auto
      qed
    next
      case lp
      with L obtain ts' where "lex True cs = Some ts'" "ts = TLParen # ts'"
        using nd(1) by auto
      then show ?thesis using IH [of cs True ts'] by auto
    next
      case rp
      with L obtain ts' where "lex False cs = Some ts'" "ts = TRParen # ts'"
        using nd(1) by auto
      then show ?thesis using IH [of cs False ts'] by auto
    next
      case other
      with L nd show ?thesis by simp
    qed
  qed
qed

lemma apply_op_numfree:
  "apply_op t es = Some es' \<Longrightarrow> list_all numfree es \<Longrightarrow> list_all numfree es'"
  by (induction t es rule: apply_op.induct) auto

lemma unwind_numfree:
  "unwind b es ops = Some (es', ops') \<Longrightarrow> list_all numfree es \<Longrightarrow> list_all numfree es'"
  by (induction b es ops rule: unwind.induct)
     (auto split: if_splits option.splits dest: apply_op_numfree)

lemma close_paren_numfree:
  "close_paren es ops = Some (es', ops') \<Longrightarrow> list_all numfree es \<Longrightarrow> list_all numfree es'"
  by (induction es ops rule: close_paren.induct)
     (auto split: option.splits dest: apply_op_numfree)

lemma finish_numfree:
  "finish es ops = Some e \<Longrightarrow> list_all numfree es \<Longrightarrow> numfree e"
  by (induction es ops rule: finish.induct)
     (auto split: option.splits list.splits dest: apply_op_numfree)

text \<open>Without a numeric literal among the tokens, the expression has none.\<close>

lemma parse_numfree:
  "parse w es ops ts = Some e \<Longrightarrow> list_all numfree es \<Longrightarrow> \<forall>v. TNum v \<notin> set ts
     \<Longrightarrow> numfree e"
  by (induction w es ops ts rule: parse.induct)
     (auto split: option.splits if_splits
           dest: finish_numfree close_paren_numfree unwind_numfree)

text \<open>An expression without a numeric literal is a regular expression object, a string
  or NaN: as a number it is NaN.\<close>

lemma eval_numfree: "numfree e \<Longrightarrow> ToNumber (eval e) = NaN"
proof (induction e)
  case (Unary u e)
  then show ?case by (cases u) auto
next
  case (Binary b x y)
  then show ?case by (cases b) (auto simp: num_sub_def)
qed auto

lemma Function_return_no_digit:
  assumes "\<forall>c\<in>set clean. \<not> is_digit c" and "Function_return clean = Some val"
  shows "ToNumber val = NaN"
proof -
  let ?text = "of_char CHR ''('' # clean @ [of_char CHR '')'']"
  from assms(2) obtain ts e where l: "lex True ?text = Some ts"
    and p: "parse True [] [] ts = Some e" and v: "val = eval e"
    by (auto simp: Function_return_def split: option.splits)
  have "\<forall>c\<in>set ?text. \<not> is_digit c"
    using assms(1) by (auto simp: is_digit_def)
  then have "\<forall>v. TNum v \<notin> set ts" using lex_no_number [OF l] by blast
  then have "numfree e" using parse_numfree [OF p] by simp
  then show ?thesis using v eval_numfree by simp
qed

text \<open>
  Claim C2. For every input string that contains no decimal digit, \<open>tryEvaluate\<close> returns
  null; so does the variant that tests \<open>Number.isFinite\<close> alone.
\<close>

theorem tryEvaluate_no_digit_null:
  assumes "\<forall>c\<in>set expr. \<not> is_digit c"
  shows "tryEvaluate expr = None \<and> tryEvaluate_isFinite expr = None"
proof -
  have nd: "\<forall>c\<in>set (clean_of expr). \<not> is_digit c"
    using assms by (simp add: clean_of_def)
  have "tryEvaluate expr = None"
  proof (cases "Function_return (clean_of expr)")
    case None
    then show ?thesis by (simp add: tryEvaluate_def Let_def)
  next
    case (Some val)
    have nan: "ToNumber val = NaN" using Function_return_no_digit [OF nd Some] .
    have "\<not> (typeof_number val \<and> Number_isFinite val)"
      using nan by (cases val) auto
    then show ?thesis using Some by (auto simp: tryEvaluate_def Let_def)
  qed
  then show ?thesis by (simp add: tryEvaluate_isFinite_eq)
qed

theorem tryEvaluate_no_digit_null_witness:
  "tryEvaluate (str ''/(.+)/ + (-/.*/)'') = None \<and>
   tryEvaluate_isFinite (str ''/(.+)/ + (-/.*/)'') = None"
  by (rule tryEvaluate_no_digit_null) (simp add: str_def is_digit_def)

subsection \<open>Doubles\<close>

lemma floor_log2_iff:
  assumes "0 < x"
  shows "(\<lfloor>log 2 x\<rfloor> = k) = (2 powi k \<le> x \<and> x < 2 powi (k + 1))"
proof -
  have a: "(2::real) powr real_of_int k = 2 powi k"
    by (rule powr_real_of_int') simp_all
  have b: "(2::real) powr real_of_int (k + 1) = 2 powi (k + 1)"
    by (rule powr_real_of_int') simp_all
  have "(\<lfloor>log 2 x\<rfloor> = k) = (2 powr real_of_int k \<le> x \<and> x < 2 powr real_of_int (k + 1))"
    by (rule floor_log_eq_powr_iff [OF assms]) simp
  then show ?thesis unfolding a b .
qed

lemma binary_exponent_eq:
  "2 powi k \<le> x \<Longrightarrow> x < 2 powi (k + 1) \<Longrightarrow> binary_exponent x = k"
proof (induction "nat \<bar>k\<bar>" arbitrary: k x)
  case 0
  then have "k = 0" by simp
  with 0 show ?case by (simp add: binary_exponent.simps)
next
  case (Suc n)
  show ?case
  proof (cases "0 < k")
    case True
    have "(2::real) powi 1 \<le> 2 powi k" by (rule power_int_increasing) (use True in simp_all)
    then have x2: "2 \<le> x" using Suc.prems(1) by simp
    have a: "2 powi (k - 1) \<le> x / 2"
      using Suc.prems(1) by (simp add: power_int_diff)
    have b: "x / 2 < 2 powi (k - 1 + 1)"
      using Suc.prems(2) by (simp add: power_int_add)
    have "n = nat \<bar>k - 1\<bar>" using Suc.hyps(2) True by simp
    then have "binary_exponent (x / 2) = k - 1" using a b by (rule Suc.hyps(1))
    then show ?thesis using x2 by (subst binary_exponent.simps) simp
  next
    case False
    with Suc.hyps(2) have neg: "k < 0" by simp
    have p: "(0::real) < 2 powi k" by simp
    have "(2::real) powi (k + 1) \<le> 2 powi 0"
      by (rule power_int_increasing) (use neg in simp_all)
    then have "(2::real) powi (k + 1) \<le> 1" by simp
    then have x1: "0 < x" "x < 1" using Suc.prems p by linarith+
    have a: "2 powi (k + 1) \<le> 2 * x"
      using Suc.prems(1) by (simp add: power_int_add)
    have b: "2 * x < 2 powi (k + 1 + 1)"
      using Suc.prems(2) by (simp add: power_int_add)
    have "n = nat \<bar>k + 1\<bar>" using Suc.hyps(2) neg by simp
    then have "binary_exponent (2 * x) = k + 1" using a b by (rule Suc.hyps(1))
    then show ?thesis using x1 by (subst binary_exponent.simps) simp
  qed
qed

text \<open>It is the integer part of the binary logarithm.\<close>

lemma binary_exponent_log: "0 < x \<Longrightarrow> binary_exponent x = \<lfloor>log 2 x\<rfloor>"
  using floor_log2_iff [of x "\<lfloor>log 2 x\<rfloor>"] binary_exponent_eq [of "\<lfloor>log 2 x\<rfloor>" x]
  by simp

lemma ulp_exponent_eq:
  assumes "2 powi k \<le> \<bar>x\<bar>" and "\<bar>x\<bar> < 2 powi (k + 1)"
  shows "ulp_exponent x = max (k - 52) (- 1074)"
  using binary_exponent_eq [OF assms] by (simp add: ulp_exponent_def)

lemma nearest_even_of_int: "nearest_even (of_int n) = n"
  by (simp add: nearest_even_def)

text \<open>A real that is a double is its own Number value.\<close>

lemma num_of_real_exact:
  assumes x: "x = of_int m * 2 powi e" and m: "m \<noteq> 0" "\<bar>m\<bar> < 2 ^ 53"
    and e: "- 1074 \<le> e" "e \<le> 971"
  shows "num_of_real x = Fin x"
proof -
  have ax: "\<bar>x\<bar> = of_int \<bar>m\<bar> * 2 powi e" by (simp add: x abs_mult)
  have x0: "x \<noteq> 0" using m(1) by (simp add: x)
  then have pos: "0 < \<bar>x\<bar>" by simp
  define k where "k = \<lfloor>log 2 \<bar>x\<bar>\<rfloor>"
  have kb: "2 powi k \<le> \<bar>x\<bar>" "\<bar>x\<bar> < 2 powi (k + 1)"
    using floor_log2_iff [OF pos, of k] by (simp_all add: k_def)
  define u where "u = ulp_exponent x"
  have u: "u = max (k - 52) (- 1074)" unfolding u_def using kb by (rule ulp_exponent_eq)
  have "real_of_int \<bar>m\<bar> < 2 ^ 53" using m(2) by (metis of_int_less_numeral_power_cancel_iff)
  then have "\<bar>x\<bar> < 2 ^ 53 * 2 powi e" by (simp add: ax)
  also have "\<dots> = 2 powi (e + 53)" by (simp add: power_int_add)
  finally have lt: "\<bar>x\<bar> < 2 powi (e + 53)" .
  with kb(1) have pk: "(2::real) powi k < 2 powi (e + 53)" by linarith
  have "k < e + 53"
  proof (rule ccontr)
    assume "\<not> k < e + 53"
    then have "e + 53 \<le> k" by simp
    then have "(2::real) powi (e + 53) \<le> 2 powi k" by (rule power_int_increasing) simp
    with pk show False by linarith
  qed
  then have ue: "u \<le> e" using e(1) by (simp add: u)
  define n where "n = \<bar>m\<bar> * 2 ^ nat (e - u)"
  have pw: "(2::real) powi (e - u) = 2 ^ nat (e - u)"
    using ue by (simp add: power_int_def)
  have "(2::real) powi e = 2 powi (e - u) * 2 powi u"
    by (simp add: power_int_add [symmetric])
  then have sp: "(2::real) powi e = 2 ^ nat (e - u) * 2 powi u" by (simp only: pw)
  have q: "\<bar>x\<bar> / 2 powi u = of_int n" by (simp add: ax sp n_def)
  have bk: "of_int n * 2 powi u = \<bar>x\<bar>" by (simp add: ax sp n_def)
  have n0: "n \<noteq> 0" using m(1) by (simp add: n_def)
  have "\<bar>x\<bar> < 2 ^ 53 * 2 powi e" using \<open>\<bar>x\<bar> < 2 ^ 53 * 2 powi e\<close> .
  also have "\<dots> \<le> 2 ^ 53 * 2 powi 971"
  proof (rule mult_left_mono)
    show "(2::real) powi e \<le> 2 powi 971" using e(2) by (rule power_int_increasing) simp
  qed simp
  also have "\<dots> = (2::real) ^ 1024" by simp
  finally have small: "\<not> 2 ^ 1024 \<le> \<bar>x\<bar>" by simp
  have "sgn x * \<bar>x\<bar> = x" by (simp add: sgn_mult_abs)
  then show ?thesis
    using x0 n0 small
    by (simp add: num_of_real_def Let_def u_def [symmetric] q nearest_even_of_int bk)
qed


subsection \<open>Decimal numbers\<close>

lemma units_append: "units (xs @ ys) = units xs + units ys * 10 ^ length xs"
  by (induction xs) simp_all

lemma digits_value_units:
  "digits_value cs acc = acc * 10 ^ length cs + units (rev cs)"
  by (induction cs arbitrary: acc) (simp_all add: units_append algebra_simps)

text \<open>The engine gives a literal the value that its digits denote.\<close>

lemma literal_value_decimal: "literal_value ip (fraction_digits fp) = decimal ip fp"
proof (cases fp)
  case None
  then show ?thesis
    by (simp add: literal_value_def fraction_digits_def decimal_def digits_value_units)
next
  case (Some d)
  have "digits_value (ip @ d) 0 = units (rev ip) * 10 ^ length d + units (rev d)"
    by (simp add: digits_value_units units_append)
  then show ?thesis
    using Some by (simp add: literal_value_def fraction_digits_def decimal_def field_simps)
qed

subsection \<open>The tokens of an arithmetic text\<close>

lemma digit_codes: "is_digit c \<Longrightarrow> c \<noteq> 47 \<and> c \<noteq> 46 \<and> c \<noteq> 43 \<and> c \<noteq> 45 \<and> c \<noteq> 42 \<and> c \<noteq> 40 \<and> c \<noteq> 41"
  by (auto simp: is_digit_def)

lemma digits_then:
  assumes "list_all is_digit ds" and "tail = [] \<or> \<not> is_digit (hd tail)"
  shows "takeWhile is_digit (ds @ tail) = ds" and "dropWhile is_digit (ds @ tail) = tail"
proof -
  have t: "takeWhile is_digit tail = []" "dropWhile is_digit tail = tail"
    using assms(2) by (cases tail; simp)+
  have a: "\<And>x. x \<in> set ds \<Longrightarrow> is_digit x" using assms(1) by (simp add: list_all_iff)
  show "takeWhile is_digit (ds @ tail) = ds"
    using takeWhile_append2 [of ds is_digit tail] a t by simp
  show "dropWhile is_digit (ds @ tail) = tail"
    using dropWhile_append2 [of ds is_digit tail] a t by simp
qed

lemma lex_plus:
  "cs = [] \<or> hd cs \<noteq> 43 \<Longrightarrow> lex re (43 # cs) = map_option ((#) TPlus) (lex True cs)"
  by (auto simp: is_digit_def)

lemma lex_minus:
  "cs = [] \<or> hd cs \<noteq> 45 \<Longrightarrow> lex re (45 # cs) = map_option ((#) TMinus) (lex True cs)"
  by (auto simp: is_digit_def)

lemma lex_star:
  "cs = [] \<or> hd cs \<noteq> 42 \<Longrightarrow> lex re (42 # cs) = map_option ((#) TStar) (lex True cs)"
  by (auto simp: is_digit_def)

lemma lex_slash:
  "cs = [] \<or> hd cs \<noteq> 47 \<and> hd cs \<noteq> 42
     \<Longrightarrow> lex False (47 # cs) = map_option ((#) TSlash) (lex True cs)"
  by auto

lemma lex_open: "lex re (40 # cs) = map_option ((#) TLParen) (lex True cs)"
  by (simp add: is_digit_def)

lemma lex_close: "lex re (41 # cs) = map_option ((#) TRParen) (lex False cs)"
  by (simp add: is_digit_def)

lemma fraction_none:
  "ends_number rest \<Longrightarrow> fraction rest = ([], rest)"
  by (cases rest) (auto simp: fraction_def ends_number_def)

lemma fraction_some:
  assumes "list_all is_digit d" and "ends_number rest"
  shows "fraction (46 # d @ rest) = (d, rest)"
proof -
  have "rest = [] \<or> \<not> is_digit (hd rest)" using assms(2) by (auto simp: ends_number_def)
  then show ?thesis using digits_then [OF assms(1)] by (simp add: fraction_def)
qed

lemma lex_decimal:
  assumes "decimal_ok ip fp" and "ends_number rest"
  shows "lex re (text_factor (Decimal ip fp) @ rest)
         = map_option ((#) (TNum (literal_value ip (fraction_digits fp)))) (lex False rest)"
proof (cases ip)
  case Nil
  with assms(1) obtain d where d: "fp = Some d" "d \<noteq> []" "list_all is_digit d"
    by (auto simp: decimal_ok_def split: option.splits)
  have e: "rest = [] \<or> \<not> is_digit (hd rest)" using assms(2) by (auto simp: ends_number_def)
  have h: "is_digit (hd (d @ rest))" using d(2,3) by (cases d) auto
  have n: "d @ rest \<noteq> []" using d(2) by simp
  have "lex re (46 # d @ rest)
        = map_option ((#) (TNum (literal_value [] (takeWhile is_digit (d @ rest)))))
            (lex False (dropWhile is_digit (d @ rest)))"
    using h n by (simp add: is_digit_def)
  then show ?thesis
    using Nil d(1) digits_then [OF d(3) e] by (simp add: fraction_digits_def)
next
  case (Cons c ip')
  have c: "is_digit c" and ip': "list_all is_digit ip'"
    using assms(1) Cons by (auto simp: decimal_ok_def)
  have z: "\<not> (c = 48 \<and> ip' \<noteq> [])"
    using assms(1) Cons by (cases ip') (auto simp: decimal_ok_def)
  define tail where "tail = (case fp of None \<Rightarrow> [] | Some d \<Rightarrow> 46 # d) @ rest"
  have e: "tail = [] \<or> \<not> is_digit (hd tail)"
    using assms(2) by (auto simp: tail_def ends_number_def is_digit_def split: option.splits)
  have f: "fraction tail = (fraction_digits fp, rest)"
  proof (cases fp)
    case None
    then show ?thesis using fraction_none [OF assms(2)] by (simp add: tail_def fraction_digits_def)
  next
    case (Some d)
    then have "list_all is_digit d" using assms(1) by (simp add: decimal_ok_def)
    then show ?thesis
      using Some fraction_some [OF _ assms(2)] by (simp add: tail_def fraction_digits_def)
  qed
  have t: "text_factor (Decimal (c # ip') fp) @ rest = c # ip' @ tail"
    by (cases fp) (simp_all add: tail_def)
  have tw: "takeWhile is_digit (ip' @ tail) = ip'" "dropWhile is_digit (ip' @ tail) = tail"
    using digits_then [OF ip' e] by simp_all
  have "lex re (c # ip' @ tail)
        = map_option ((#) (TNum (literal_value (c # ip') (fraction_digits fp)))) (lex False rest)"
    using c z digit_codes [OF c] by (auto simp: tw f)
  then show ?thesis unfolding Cons t .
qed

lemma starts_operand_append: "starts_operand a \<Longrightarrow> starts_operand (a @ b)"
  by (cases a) (auto simp: starts_operand_def)

lemma text_starts_operand:
  fixes s :: arith_sum and t :: arith_term and f :: arith_factor
  shows "decimals_ok_sum s \<Longrightarrow> starts_operand (text_sum s)"
    and "decimals_ok_term t \<Longrightarrow> starts_operand (text_term t)"
    and "decimals_ok_factor f \<Longrightarrow> starts_operand (text_factor f)"
proof (induction s and t and f)
  case (Decimal ip fp)
  then show ?case
    by (cases ip) (auto simp: decimal_ok_def starts_operand_def split: option.splits)
qed (auto simp: starts_operand_append, auto simp: starts_operand_def)

lemma hd_text_append:
  "starts_operand a \<Longrightarrow> a @ b \<noteq> [] \<and> hd (a @ b) = hd a"
  by (cases a) (auto simp: starts_operand_def)

lemma starts_operand_codes:
  "starts_operand a \<Longrightarrow> hd a \<noteq> 42 \<and> hd a \<noteq> 47 \<and> hd a \<noteq> 41"
  by (auto simp: starts_operand_def is_digit_def)

lemma ends_number_op [simp]:
  "ends_number (43 # cs)" "ends_number (45 # cs)" "ends_number (42 # cs)"
  "ends_number (47 # cs)" "ends_number (41 # cs)" "ends_number []"
  by (simp_all add: ends_number_def is_digit_def)

text \<open>The tokens of the text of an expression are those of the expression.\<close>

lemma lex_text:
  fixes s :: arith_sum and t :: arith_term and f :: arith_factor
  shows "decimals_ok_sum s \<Longrightarrow> apart_sum s \<Longrightarrow> ends_number rest
           \<Longrightarrow> lex True (text_sum s @ rest) = map_option ((@) (tokens_sum s)) (lex False rest)"
    and "decimals_ok_term t \<Longrightarrow> apart_term t \<Longrightarrow> ends_number rest
           \<Longrightarrow> lex True (text_term t @ rest) = map_option ((@) (tokens_term t)) (lex False rest)"
    and "decimals_ok_factor f \<Longrightarrow> apart_factor f \<Longrightarrow> ends_number rest
           \<Longrightarrow> lex True (text_factor f @ rest)
               = map_option ((@) (tokens_factor f)) (lex False rest)"
proof (induction s and t and f arbitrary: rest and rest and rest)
  case (Just_term t)
  then show ?case by simp
next
  case (Sum_of s t)
  have st: "starts_operand (text_term t)" using Sum_of.prems(1) text_starts_operand(2) by simp
  have h: "text_term t @ rest = [] \<or> hd (text_term t @ rest) \<noteq> 43"
    using hd_text_append [OF st, of rest] Sum_of.prems(2) by simp
  have "lex True (text_sum s @ 43 # text_term t @ rest)
        = map_option ((@) (tokens_sum s)) (lex False (43 # text_term t @ rest))"
    using Sum_of.IH(1) [of "43 # text_term t @ rest"] Sum_of.prems by simp
  also have "lex False (43 # text_term t @ rest)
             = map_option ((#) TPlus) (lex True (text_term t @ rest))"
    using h by (rule lex_plus)
  also have "lex True (text_term t @ rest) = map_option ((@) (tokens_term t)) (lex False rest)"
    using Sum_of.IH(2) [of rest] Sum_of.prems by simp
  finally show ?case by (cases "lex False rest") simp_all
next
  case (Difference_of s t)
  have st: "starts_operand (text_term t)"
    using Difference_of.prems(1) text_starts_operand(2) by simp
  have h: "text_term t @ rest = [] \<or> hd (text_term t @ rest) \<noteq> 45"
    using hd_text_append [OF st, of rest] Difference_of.prems(2) by simp
  have "lex True (text_sum s @ 45 # text_term t @ rest)
        = map_option ((@) (tokens_sum s)) (lex False (45 # text_term t @ rest))"
    using Difference_of.IH(1) [of "45 # text_term t @ rest"] Difference_of.prems by simp
  also have "lex False (45 # text_term t @ rest)
             = map_option ((#) TMinus) (lex True (text_term t @ rest))"
    using h by (rule lex_minus)
  also have "lex True (text_term t @ rest) = map_option ((@) (tokens_term t)) (lex False rest)"
    using Difference_of.IH(2) [of rest] Difference_of.prems by simp
  finally show ?case by (cases "lex False rest") simp_all
next
  case (Just_factor f)
  then show ?case by simp
next
  case (Product_of t f)
  have st: "starts_operand (text_factor f)"
    using Product_of.prems(1) text_starts_operand(3) by simp
  have h: "text_factor f @ rest = [] \<or> hd (text_factor f @ rest) \<noteq> 42"
    using hd_text_append [OF st, of rest] starts_operand_codes [OF st] by simp
  have "lex True (text_term t @ 42 # text_factor f @ rest)
        = map_option ((@) (tokens_term t)) (lex False (42 # text_factor f @ rest))"
    using Product_of.IH(1) [of "42 # text_factor f @ rest"] Product_of.prems by simp
  also have "lex False (42 # text_factor f @ rest)
             = map_option ((#) TStar) (lex True (text_factor f @ rest))"
    using h by (rule lex_star)
  also have "lex True (text_factor f @ rest)
             = map_option ((@) (tokens_factor f)) (lex False rest)"
    using Product_of.IH(2) [of rest] Product_of.prems by simp
  finally show ?case by (cases "lex False rest") simp_all
next
  case (Quotient_of t f)
  have st: "starts_operand (text_factor f)"
    using Quotient_of.prems(1) text_starts_operand(3) by simp
  have h: "text_factor f @ rest = [] \<or>
           hd (text_factor f @ rest) \<noteq> 47 \<and> hd (text_factor f @ rest) \<noteq> 42"
    using hd_text_append [OF st, of rest] starts_operand_codes [OF st] by simp
  have "lex True (text_term t @ 47 # text_factor f @ rest)
        = map_option ((@) (tokens_term t)) (lex False (47 # text_factor f @ rest))"
    using Quotient_of.IH(1) [of "47 # text_factor f @ rest"] Quotient_of.prems by simp
  also have "lex False (47 # text_factor f @ rest)
             = map_option ((#) TSlash) (lex True (text_factor f @ rest))"
    using h by (rule lex_slash)
  also have "lex True (text_factor f @ rest)
             = map_option ((@) (tokens_factor f)) (lex False rest)"
    using Quotient_of.IH(2) [of rest] Quotient_of.prems by simp
  finally show ?case by (cases "lex False rest") simp_all
next
  case (Decimal ip fp)
  then show ?case
    using lex_decimal [of ip fp rest True] by (cases "lex False rest") simp_all
next
  case (Plus_sign f)
  have st: "starts_operand (text_factor f)"
    using Plus_sign.prems(1) text_starts_operand(3) by simp
  have h: "text_factor f @ rest = [] \<or> hd (text_factor f @ rest) \<noteq> 43"
    using hd_text_append [OF st, of rest] Plus_sign.prems(2) by simp
  have "lex True (43 # text_factor f @ rest)
        = map_option ((#) TPlus) (lex True (text_factor f @ rest))"
    using h by (rule lex_plus)
  also have "lex True (text_factor f @ rest)
             = map_option ((@) (tokens_factor f)) (lex False rest)"
    using Plus_sign.IH [of rest] Plus_sign.prems by simp
  finally show ?case by (cases "lex False rest") simp_all
next
  case (Minus_sign f)
  have st: "starts_operand (text_factor f)"
    using Minus_sign.prems(1) text_starts_operand(3) by simp
  have h: "text_factor f @ rest = [] \<or> hd (text_factor f @ rest) \<noteq> 45"
    using hd_text_append [OF st, of rest] Minus_sign.prems(2) by simp
  have "lex True (45 # text_factor f @ rest)
        = map_option ((#) TMinus) (lex True (text_factor f @ rest))"
    using h by (rule lex_minus)
  also have "lex True (text_factor f @ rest)
             = map_option ((@) (tokens_factor f)) (lex False rest)"
    using Minus_sign.IH [of rest] Minus_sign.prems by simp
  finally show ?case by (cases "lex False rest") simp_all
next
  case (Parenthesised s)
  have "lex True (40 # text_sum s @ 41 # rest)
        = map_option ((#) TLParen) (lex True (text_sum s @ 41 # rest))"
    by (rule lex_open)
  also have "lex True (text_sum s @ 41 # rest)
             = map_option ((@) (tokens_sum s)) (lex False (41 # rest))"
    using Parenthesised.IH [of "41 # rest"] Parenthesised.prems by simp
  also have "lex False (41 # rest) = map_option ((#) TRParen) (lex False rest)"
    by (rule lex_close)
  finally show ?case by (cases "lex False rest") simp_all
qed

subsection \<open>The syntax tree of an arithmetic text\<close>

lemma flush_append:
  "flush es (a @ b) = (case flush es a of None \<Rightarrow> None | Some es' \<Rightarrow> flush es' b)"
  by (induction a arbitrary: es) (simp_all split: option.splits)

text \<open>The operators that wait after an expression make its syntax tree of the operands
  that wait.\<close>

lemma flush_waiting:
  fixes s :: arith_sum and t :: arith_term and f :: arith_factor
  shows "flush (waiting_operands_sum s @ es) (waiting_operators_sum s) = Some (tree_sum s # es)"
    and "flush (waiting_operands_term t @ es) (waiting_operators_term t)
           = Some (tree_term t # es)"
    and "flush (waiting_operands_factor f @ es) (waiting_operators_factor f)
           = Some (tree_factor f # es)"
  by (induction s and t and f arbitrary: es and es and es) (simp_all add: flush_append)

lemma binds_first_weaker:
  "binds_first x Mul \<Longrightarrow> binds_first x Add \<and> binds_first x Sub \<and> binds_first x Div"
  by (cases x) auto

lemma binds_first_same:
  "binds_first x Sub = binds_first x Add" "binds_first x Div = binds_first x Mul"
  by (cases x; simp)+

text \<open>After a factor only signs wait; after a term, signs and one multiplication or
  division; after a sum, no parenthesis.\<close>

lemma waiting_kinds:
  fixes s :: arith_sum and t :: arith_term and f :: arith_factor
  shows "\<forall>x\<in>set (waiting_operators_sum s). binds_first x Add \<and> binds_first x Sub"
    and "\<forall>x\<in>set (waiting_operators_term t). binds_first x Mul \<and> binds_first x Div"
    and "\<forall>x\<in>set (waiting_operators_factor f). \<exists>u. x = OUn u"
proof (induction s and t and f)
  case (Just_term t)
  then show ?case using binds_first_weaker by auto
next
  case (Sum_of s t)
  then show ?case using binds_first_weaker by auto
next
  case (Difference_of s t)
  then show ?case using binds_first_weaker by auto
qed auto

text \<open>A binary operator that arrives, and a closing parenthesis, make the waiting
  operators take their operands, down to the first that does not bind first.\<close>

lemma unwind_waiting:
  assumes "\<forall>x\<in>set pending. binds_first x b" and "ops = [] \<or> \<not> binds_first (hd ops) b"
  shows "unwind b es (pending @ ops) = map_option (\<lambda>es'. (es', ops)) (flush es pending)"
  using assms
proof (induction pending arbitrary: es)
  case Nil
  then show ?case by (cases ops) auto
next
  case (Cons x pending)
  then show ?case by (cases "apply_op x es") auto
qed

lemma close_paren_waiting:
  assumes "\<forall>x\<in>set pending. x \<noteq> OParen"
  shows "close_paren es (pending @ OParen # ops)
         = map_option (\<lambda>es'. (es', ops)) (flush es pending)"
  using assms
proof (induction pending arbitrary: es)
  case Nil
  then show ?case by simp
next
  case (Cons x pending)
  then show ?case by (cases x; cases "apply_op x es") auto
qed

lemma stops_simps [simp]:
  "stops b []" "stops b (OParen # ops)" "stops Mul (OBin Add # ops)" "stops Mul (OBin Sub # ops)"
  "stops Div (OBin Add # ops)" "stops Div (OBin Sub # ops)"
  by (simp_all add: stops_def)

lemma stops_weaker: "stops Add ops \<Longrightarrow> stops Mul ops \<and> stops Div ops \<and> stops Sub ops"
  using binds_first_weaker [of "hd ops"] by (auto simp: stops_def binds_first_same)

lemma parse_binary:
  assumes "\<forall>x\<in>set pending. binds_first x b" and "stops b ops" and "b \<noteq> Pow"
    and "flush es pending = Some es'" and "binop_of tk = Some b" and "tk \<noteq> TRParen"
  shows "parse False es (pending @ ops) (tk # ts) = parse True es' (OBin b # ops) ts"
proof -
  have u: "unwind b es (pending @ ops) = Some (es', ops)"
    using unwind_waiting [OF assms(1), of ops es] assms(2,4) by (simp add: stops_def)
  show ?thesis using assms(3,5,6) u by (cases tk) simp_all
qed

text \<open>
  Reading the tokens of an expression leaves its waiting operands and operators on the
  stacks, on top of what was there, when the operator below does not bind first.
\<close>

lemma parse_tokens:
  fixes s :: arith_sum and t :: arith_term and f :: arith_factor
  shows "stops Add ops \<Longrightarrow> parse True es ops (tokens_sum s @ rest)
           = parse False (waiting_operands_sum s @ es) (waiting_operators_sum s @ ops) rest"
    and "stops Mul ops \<Longrightarrow> parse True es ops (tokens_term t @ rest)
           = parse False (waiting_operands_term t @ es) (waiting_operators_term t @ ops) rest"
    and "parse True es ops (tokens_factor f @ rest)
           = parse False (waiting_operands_factor f @ es) (waiting_operators_factor f @ ops) rest"
proof (induction s and t and f arbitrary: es ops rest and es ops rest and es ops rest)
  case (Just_term t)
  then show ?case using stops_weaker by simp
next
  case (Sum_of s t)
  have k: "\<forall>x\<in>set (waiting_operators_sum s). binds_first x Add" using waiting_kinds(1) by blast
  have "parse True es ops (tokens_sum s @ TPlus # tokens_term t @ rest)
        = parse False (waiting_operands_sum s @ es) (waiting_operators_sum s @ ops)
            (TPlus # tokens_term t @ rest)"
    using Sum_of.IH(1) [OF Sum_of.prems] .
  also have "\<dots> = parse True (tree_sum s # es) (OBin Add # ops) (tokens_term t @ rest)"
    by (rule parse_binary [OF k Sum_of.prems _ flush_waiting(1)]) simp_all
  also have "\<dots> = parse False (waiting_operands_term t @ tree_sum s # es)
                      (waiting_operators_term t @ OBin Add # ops) rest"
    by (rule Sum_of.IH(2)) simp
  finally show ?case by simp
next
  case (Difference_of s t)
  have k: "\<forall>x\<in>set (waiting_operators_sum s). binds_first x Sub" using waiting_kinds(1) by blast
  have st: "stops Sub ops" using Difference_of.prems stops_weaker by simp
  have "parse True es ops (tokens_sum s @ TMinus # tokens_term t @ rest)
        = parse False (waiting_operands_sum s @ es) (waiting_operators_sum s @ ops)
            (TMinus # tokens_term t @ rest)"
    using Difference_of.IH(1) [OF Difference_of.prems] .
  also have "\<dots> = parse True (tree_sum s # es) (OBin Sub # ops) (tokens_term t @ rest)"
    by (rule parse_binary [OF k st _ flush_waiting(1)]) simp_all
  also have "\<dots> = parse False (waiting_operands_term t @ tree_sum s # es)
                      (waiting_operators_term t @ OBin Sub # ops) rest"
    by (rule Difference_of.IH(2)) simp
  finally show ?case by simp
next
  case (Just_factor f)
  then show ?case by simp
next
  case (Product_of t f)
  have k: "\<forall>x\<in>set (waiting_operators_term t). binds_first x Mul" using waiting_kinds(2) by blast
  have "parse True es ops (tokens_term t @ TStar # tokens_factor f @ rest)
        = parse False (waiting_operands_term t @ es) (waiting_operators_term t @ ops)
            (TStar # tokens_factor f @ rest)"
    using Product_of.IH(1) [OF Product_of.prems] .
  also have "\<dots> = parse True (tree_term t # es) (OBin Mul # ops) (tokens_factor f @ rest)"
    by (rule parse_binary [OF k Product_of.prems _ flush_waiting(2)]) simp_all
  also have "\<dots> = parse False (waiting_operands_factor f @ tree_term t # es)
                      (waiting_operators_factor f @ OBin Mul # ops) rest"
    by (rule Product_of.IH(2))
  finally show ?case by simp
next
  case (Quotient_of t f)
  have k: "\<forall>x\<in>set (waiting_operators_term t). binds_first x Div" using waiting_kinds(2) by blast
  have st: "stops Div ops" using Quotient_of.prems by (simp add: stops_def binds_first_same)
  have "parse True es ops (tokens_term t @ TSlash # tokens_factor f @ rest)
        = parse False (waiting_operands_term t @ es) (waiting_operators_term t @ ops)
            (TSlash # tokens_factor f @ rest)"
    using Quotient_of.IH(1) [OF Quotient_of.prems] .
  also have "\<dots> = parse True (tree_term t # es) (OBin Div # ops) (tokens_factor f @ rest)"
    by (rule parse_binary [OF k st _ flush_waiting(2)]) simp_all
  also have "\<dots> = parse False (waiting_operands_factor f @ tree_term t # es)
                      (waiting_operators_factor f @ OBin Div # ops) rest"
    by (rule Quotient_of.IH(2))
  finally show ?case by simp
next
  case (Decimal ip fp)
  show ?case by simp
next
  case (Plus_sign f)
  show ?case using Plus_sign.IH [of es "OUn UPlus # ops" rest] by simp
next
  case (Minus_sign f)
  show ?case using Minus_sign.IH [of es "OUn UMinus # ops" rest] by simp
next
  case (Parenthesised s)
  have k: "\<forall>x\<in>set (waiting_operators_sum s). x \<noteq> OParen" using waiting_kinds(1) by fastforce
  have "parse True es ops (TLParen # tokens_sum s @ TRParen # rest)
        = parse True es (OParen # ops) (tokens_sum s @ TRParen # rest)"
    by simp
  also have "\<dots> = parse False (waiting_operands_sum s @ es)
                      (waiting_operators_sum s @ OParen # ops) (TRParen # rest)"
    by (rule Parenthesised.IH) simp
  also have "\<dots> = parse False (tree_sum s # es) ops rest"
    using close_paren_waiting [OF k, of "waiting_operands_sum s @ es" ops] flush_waiting(1)
    by simp
  finally show ?case by simp
qed

subsection \<open>The value of the syntax tree\<close>

lemma eval_tree:
  fixes s :: arith_sum and t :: arith_term and f :: arith_factor
  shows "eval (tree_sum s) = VNum (value_sum s)"
    and "eval (tree_term t) = VNum (value_term t)"
    and "eval (tree_factor f) = VNum (value_factor f)"
  by (induction s and t and f) (simp_all add: literal_value_decimal)

subsection \<open>Signs that stay apart\<close>

lemma starts_with_longer: "starts_with p a \<Longrightarrow> starts_with p (a @ b)"
proof -
  assume a: "starts_with p a"
  then have "length (take (length p) a) = length p" by (simp add: starts_with_def)
  then have "length p \<le> length a" by simp
  then show ?thesis using a by (simp add: starts_with_def)
qed

lemma js_includes_empty: "js_includes b []"
  by (cases b) (simp_all add: starts_with_def)

lemma js_includes_append1: "js_includes a p \<Longrightarrow> js_includes (a @ b) p"
  by (induction a) (auto simp: js_includes_empty dest: starts_with_longer [where b = b])

lemma js_includes_append2: "js_includes b p \<Longrightarrow> js_includes (a @ b) p"
  by (induction a) auto

lemma not_includes_parts:
  "\<not> js_includes (a @ c # b) p \<Longrightarrow> \<not> js_includes a p \<and> \<not> js_includes b p"
  using js_includes_append1 [of a p "c # b"] js_includes_append2 [of b p "a @ [c]"] by auto

lemma not_includes_pair:
  assumes "\<not> js_includes (a @ c # b) [c, c]" and "b \<noteq> []"
  shows "hd b \<noteq> c"
proof
  assume "hd b = c"
  with assms(2) obtain b' where "b = c # b'" by (cases b) auto
  then have "js_includes (c # b) [c, c]" by (simp add: starts_with_def)
  then have "js_includes (a @ c # b) [c, c]" by (rule js_includes_append2)
  with assms(1) show False by simp
qed

lemma not_includes_tail: "\<not> js_includes (c # b) p \<Longrightarrow> \<not> js_includes b p"
  by simp

lemma text_not_empty:
  "decimals_ok_sum s \<Longrightarrow> text_sum s \<noteq> []"
  "decimals_ok_term t \<Longrightarrow> text_term t \<noteq> []"
  "decimals_ok_factor f \<Longrightarrow> text_factor f \<noteq> []"
  using text_starts_operand by (auto simp: starts_operand_def)

text \<open>A text without \<open>++\<close> and without \<open>--\<close> has no sign right before the same sign.\<close>

lemma apart_text:
  fixes s :: arith_sum and t :: arith_term and f :: arith_factor
  shows "decimals_ok_sum s \<Longrightarrow> \<not> js_includes (text_sum s) [43, 43]
           \<Longrightarrow> \<not> js_includes (text_sum s) [45, 45] \<Longrightarrow> apart_sum s"
    and "decimals_ok_term t \<Longrightarrow> \<not> js_includes (text_term t) [43, 43]
           \<Longrightarrow> \<not> js_includes (text_term t) [45, 45] \<Longrightarrow> apart_term t"
    and "decimals_ok_factor f \<Longrightarrow> \<not> js_includes (text_factor f) [43, 43]
           \<Longrightarrow> \<not> js_includes (text_factor f) [45, 45] \<Longrightarrow> apart_factor f"
proof (induction s and t and f)
  case (Sum_of s t)
  have p: "\<not> js_includes (text_sum s @ 43 # text_term t) [43, 43]"
    and m: "\<not> js_includes (text_sum s @ 43 # text_term t) [45, 45]"
    using Sum_of.prems by simp_all
  have "hd (text_term t) \<noteq> 43"
    using not_includes_pair [OF p] text_not_empty(2) Sum_of.prems(1) by simp
  then show ?case
    using Sum_of.IH Sum_of.prems(1) not_includes_parts [OF p] not_includes_parts [OF m] by simp
next
  case (Difference_of s t)
  have p: "\<not> js_includes (text_sum s @ 45 # text_term t) [43, 43]"
    and m: "\<not> js_includes (text_sum s @ 45 # text_term t) [45, 45]"
    using Difference_of.prems by simp_all
  have "hd (text_term t) \<noteq> 45"
    using not_includes_pair [OF m] text_not_empty(2) Difference_of.prems(1) by simp
  then show ?case
    using Difference_of.IH Difference_of.prems(1) not_includes_parts [OF p]
      not_includes_parts [OF m] by simp
next
  case (Product_of t f)
  have p: "\<not> js_includes (text_term t @ 42 # text_factor f) [43, 43]"
    and m: "\<not> js_includes (text_term t @ 42 # text_factor f) [45, 45]"
    using Product_of.prems by simp_all
  show ?case
    using Product_of.IH Product_of.prems(1) not_includes_parts [OF p] not_includes_parts [OF m]
    by simp
next
  case (Quotient_of t f)
  have p: "\<not> js_includes (text_term t @ 47 # text_factor f) [43, 43]"
    and m: "\<not> js_includes (text_term t @ 47 # text_factor f) [45, 45]"
    using Quotient_of.prems by simp_all
  show ?case
    using Quotient_of.IH Quotient_of.prems(1) not_includes_parts [OF p]
      not_includes_parts [OF m] by simp
next
  case (Plus_sign f)
  have p: "\<not> js_includes ([] @ 43 # text_factor f) [43, 43]"
    and m: "\<not> js_includes ([] @ 43 # text_factor f) [45, 45]"
    using Plus_sign.prems by simp_all
  have "hd (text_factor f) \<noteq> 43"
    using not_includes_pair [OF p] text_not_empty(3) Plus_sign.prems(1) by simp
  then show ?case
    using Plus_sign.IH Plus_sign.prems(1) not_includes_parts [OF p] not_includes_parts [OF m]
    by simp
next
  case (Minus_sign f)
  have p: "\<not> js_includes ([] @ 45 # text_factor f) [43, 43]"
    and m: "\<not> js_includes ([] @ 45 # text_factor f) [45, 45]"
    using Minus_sign.prems by simp_all
  have "hd (text_factor f) \<noteq> 45"
    using not_includes_pair [OF m] text_not_empty(3) Minus_sign.prems(1) by simp
  then show ?case
    using Minus_sign.IH Minus_sign.prems(1) not_includes_parts [OF p] not_includes_parts [OF m]
    by simp
next
  case (Parenthesised s)
  have p: "\<not> js_includes ([] @ 40 # (text_sum s @ [41])) [43, 43]"
    and m: "\<not> js_includes ([] @ 40 # (text_sum s @ [41])) [45, 45]"
    using Parenthesised.prems by simp_all
  have "\<not> js_includes (text_sum s @ [41]) [43, 43]" "\<not> js_includes (text_sum s @ [41]) [45, 45]"
    using not_includes_parts [OF p] not_includes_parts [OF m] by simp_all
  then have "\<not> js_includes (text_sum s) [43, 43]" "\<not> js_includes (text_sum s) [45, 45]"
    using js_includes_append1 by blast+
  then show ?case using Parenthesised.IH Parenthesised.prems(1) by simp
qed simp_all

subsection \<open>What the engine returns for an arithmetic text\<close>

lemma digit_arith: "is_digit c \<Longrightarrow> arith_char c \<and> \<not> is_space c"
  by (auto simp: arith_char_def is_digit_def is_space_def)

lemma text_arith_chars:
  fixes s :: arith_sum and t :: arith_term and f :: arith_factor
  shows "decimals_ok_sum s \<Longrightarrow> list_all (\<lambda>c. arith_char c \<and> \<not> is_space c) (text_sum s)"
    and "decimals_ok_term t \<Longrightarrow> list_all (\<lambda>c. arith_char c \<and> \<not> is_space c) (text_term t)"
    and "decimals_ok_factor f
           \<Longrightarrow> list_all (\<lambda>c. arith_char c \<and> \<not> is_space c) (text_factor f)"
proof (induction s and t and f)
  case (Decimal ip fp)
  have "list_all is_digit ds \<Longrightarrow> list_all (\<lambda>c. arith_char c \<and> \<not> is_space c) ds" for ds
    using digit_arith by (simp add: list_all_iff)
  then show ?case
    using Decimal by (cases fp) (auto simp: decimal_ok_def arith_char_def is_space_def)
qed (auto simp: arith_char_def is_space_def)

lemma clean_of_text:
  assumes "filter (\<lambda>c. \<not> is_space c) s = text_sum e" and "decimals_ok_sum e"
  shows "clean_of s = text_sum e"
proof -
  have "clean_of s = filter arith_char (filter (\<lambda>c. \<not> is_space c) s)"
    by (simp add: clean_of_def conj_commute)
  also have "\<dots> = text_sum e"
    using text_arith_chars(1) [OF assms(2)] by (simp add: assms(1) list_all_iff)
  finally show ?thesis .
qed

lemma Function_return_arithmetic:
  assumes "decimals_ok_sum e" and "apart_sum e"
  shows "Function_return (text_sum e) = Some (VNum (value_sum e))"
proof -
  have "lex True (text_factor (Parenthesised e) @ [])
        = map_option ((@) (tokens_factor (Parenthesised e))) (lex False [])"
    by (rule lex_text(3)) (simp_all add: assms)
  then have l: "lex True (40 # text_sum e @ [41]) = Some (TLParen # tokens_sum e @ [TRParen])"
    by simp
  have "parse True [] [] (tokens_factor (Parenthesised e) @ [])
        = parse False (waiting_operands_factor (Parenthesised e) @ [])
            (waiting_operators_factor (Parenthesised e) @ []) []"
    by (rule parse_tokens(3))
  then have p: "parse True [] [] (TLParen # tokens_sum e @ [TRParen]) = Some (tree_sum e)"
    by simp
  have "Function_return (text_sum e)
        = (case lex True (40 # text_sum e @ [41]) of
             None \<Rightarrow> None
           | Some ts \<Rightarrow> map_option eval (parse True [] [] ts))"
    by (simp add: Function_return_def del: lex.simps)
  also have "\<dots> = Some (eval (tree_sum e))"
    by (simp only: l p option.case option.map)
  finally show ?thesis by (simp only: eval_tree)
qed

text \<open>
  Claim C3, as amended. For every arithmetic expression written with decimal numbers, the
  four operations, signs and parentheses, and with any whitespace between its characters,
  \<open>tryEvaluate\<close> returns the value of the expression in the arithmetic of doubles (every
  decimal number and every result rounded to the nearest double) when that value is
  finite, and null when it is an infinity or NaN, as after a division by zero; provided
  that without the whitespace no \<open>+\<close> stands right before a \<open>+\<close> and no \<open>-\<close> right before a
  \<open>-\<close>, and no integer part starts with a zero that another digit follows. In
  particular \<open>tryEvaluate("3*0.5+3*(-1)")\<close> is \<open>-1.5\<close>.
\<close>

theorem tryEvaluate_arithmetic:
  assumes "filter (\<lambda>c. \<not> is_space c) s = text_sum e"
    and "decimals_ok_sum e"
    and "\<not> js_includes (text_sum e) (str ''++'')"
    and "\<not> js_includes (text_sum e) (str ''--'')"
  shows "tryEvaluate s = (if isFinite (value_sum e) then Some (value_sum e) else None) \<and>
         tryEvaluate_isFinite s
           = (if isFinite (value_sum e) then Some (value_sum e) else None)"
proof -
  have a: "apart_sum e"
    using apart_text(1) [OF assms(2)] assms(3,4) by (simp add: str_def)
  have c: "clean_of s = text_sum e" using assms(1,2) by (rule clean_of_text)
  have n: "text_sum e \<noteq> []" using assms(2) by (rule text_not_empty(1))
  have f: "Function_return (text_sum e) = Some (VNum (value_sum e))"
    using assms(2) a by (rule Function_return_arithmetic)
  show ?thesis
    by (simp add: tryEvaluate_def tryEvaluate_isFinite_def c n f)
qed

theorem tryEvaluate_arithmetic_witness:
  "tryEvaluate (str ''3*0.5+3*(-1)'') = Some (Fin (- 1.5)) \<and>
   tryEvaluate_isFinite (str ''3*0.5+3*(-1)'') = Some (Fin (- 1.5)) \<and>
   tryEvaluate (str ''2 * (3 + 4) / 8 - 1'') = Some (Fin 0.75) \<and>
   tryEvaluate (str ''1 / 0'') = None"
proof -
  let ?n = "\<lambda>d. Decimal (str d) None"
  let ?e1 = "Sum_of
      (Just_term (Product_of (Just_factor (?n ''3'')) (Decimal (str ''0'') (Some (str ''5'')))))
      (Product_of (Just_factor (?n ''3''))
         (Parenthesised (Just_term (Just_factor (Minus_sign (?n ''1''))))))"
  let ?e2 = "Difference_of
      (Just_term (Quotient_of
         (Product_of (Just_factor (?n ''2''))
            (Parenthesised (Sum_of (Just_term (Just_factor (?n ''3''))) (Just_factor (?n ''4'')))))
         (?n ''8'')))
      (Just_factor (?n ''1''))"
  let ?e3 = "Just_term (Quotient_of (Just_factor (?n ''1'')) (?n ''0''))"
  have r: "num_of_real 1 = Fin 1" "num_of_real 2 = Fin 2" "num_of_real 3 = Fin 3"
    "num_of_real 4 = Fin 4" "num_of_real 7 = Fin 7" "num_of_real 8 = Fin 8"
    "num_of_real 14 = Fin 14" "num_of_real (1 / 2) = Fin (1 / 2)"
    "num_of_real (3 / 2) = Fin (3 / 2)" "num_of_real (7 / 4) = Fin (7 / 4)"
    "num_of_real (3 / 4) = Fin (3 / 4)" "num_of_real (- 3) = Fin (- 3)"
    "num_of_real (- (3 / 2)) = Fin (- (3 / 2))"
    using num_of_real_exact [of 1 1 0] num_of_real_exact [of 2 2 0]
      num_of_real_exact [of 3 3 0] num_of_real_exact [of 4 4 0] num_of_real_exact [of 7 7 0]
      num_of_real_exact [of 8 8 0] num_of_real_exact [of 14 14 0]
      num_of_real_exact [of "1 / 2" 1 "- 1"] num_of_real_exact [of "3 / 2" 3 "- 1"]
      num_of_real_exact [of "7 / 4" 7 "- 2"] num_of_real_exact [of "3 / 4" 3 "- 2"]
      num_of_real_exact [of "- 3" "- 3" 0] num_of_real_exact [of "- (3 / 2)" "- 3" "- 1"]
    by simp_all
  have v1: "value_sum ?e1 = Fin (- 1.5)"
    by (simp add: decimal_def str_def r)
  have v2: "value_sum ?e2 = Fin 0.75"
    by (simp add: decimal_def str_def num_sub_def r)
  have z: "num_of_real 0 = Zero False" by (simp add: num_of_real_def)
  have v3: "value_sum ?e3 = Infinity False"
    by (simp add: decimal_def str_def r z)
  have a1: "filter (\<lambda>c. \<not> is_space c) (str ''3*0.5+3*(-1)'') = text_sum ?e1"
    and a2: "filter (\<lambda>c. \<not> is_space c) (str ''2 * (3 + 4) / 8 - 1'') = text_sum ?e2"
    and a3: "filter (\<lambda>c. \<not> is_space c) (str ''1 / 0'') = text_sum ?e3"
    by (simp_all add: str_def is_space_def)
  have b: "decimals_ok_sum ?e1" "decimals_ok_sum ?e2" "decimals_ok_sum ?e3"
    by (simp_all add: decimal_ok_def str_def is_digit_def)
  have c1: "\<not> js_includes (text_sum ?e1) (str ''++'')" "\<not> js_includes (text_sum ?e1) (str ''--'')"
    and c2: "\<not> js_includes (text_sum ?e2) (str ''++'')" "\<not> js_includes (text_sum ?e2) (str ''--'')"
    and c3: "\<not> js_includes (text_sum ?e3) (str ''++'')" "\<not> js_includes (text_sum ?e3) (str ''--'')"
    by (simp_all add: str_def starts_with_def)
  have 1: "tryEvaluate (str ''3*0.5+3*(-1)'') = Some (Fin (- 1.5)) \<and>
      tryEvaluate_isFinite (str ''3*0.5+3*(-1)'') = Some (Fin (- 1.5))"
    using tryEvaluate_arithmetic [OF a1 b(1) c1] unfolding v1 by simp
  have 2: "tryEvaluate (str ''2 * (3 + 4) / 8 - 1'') = Some (Fin 0.75)"
    using tryEvaluate_arithmetic [OF a2 b(2) c2] unfolding v2 by simp
  have 3: "tryEvaluate (str ''1 / 0'') = None"
    using tryEvaluate_arithmetic [OF a3 b(3) c3] unfolding v3 by simp
  from 1 2 3 show ?thesis by simp
qed

lemma tenth_double: "num_of_real (1 / 10) = Fin (7205759403792794 / 2 ^ 56)"
  using ulp_exponent_eq [of "- 4" "1 / 10"]
  by (simp add: num_of_real_def Let_def nearest_even_def)

lemma fifth_double: "num_of_real (1 / 5) = Fin (7205759403792794 / 2 ^ 55)"
  using ulp_exponent_eq [of "- 3" "1 / 5"]
  by (simp add: num_of_real_def Let_def nearest_even_def)

lemma tenth_plus_fifth_double: "num_of_real (7205759403792794 / 2 ^ 56 + 7205759403792794 / 2 ^ 55)
           = Fin (5404319552844596 / 2 ^ 54)"
  using ulp_exponent_eq [of "- 2" "7205759403792794 / 2 ^ 56 + 7205759403792794 / 2 ^ 55"]
  by (simp add: num_of_real_def Let_def nearest_even_def)

lemma three_tenths_double: "num_of_real (3 / 10) = Fin (5404319552844595 / 2 ^ 54)"
  using ulp_exponent_eq [of "- 2" "3 / 10"]
  by (simp add: num_of_real_def Let_def nearest_even_def)

text \<open>
  The claim as stated fails in three ways. \<open>3 - -2\<close> is well-formed arithmetic with the
  value 5, and without its whitespace it is \<open>3--2\<close>, which the language reads as a
  decrement of \<open>3\<close>: a SyntaxError, hence null. \<open>010 + 1\<close> has the value 11, and a
  number with a leading zero is a SyntaxError of strict mode: null again. And \<open>0.1+0.2\<close>
  gives the double above the one that \<open>0.3\<close> gives, since every step rounds.
\<close>

theorem tryEvaluate_not_the_value_counterexample:
  "tryEvaluate (str ''3 - -2'') = None \<and> tryEvaluate_isFinite (str ''3 - -2'') = None \<and>
   tryEvaluate (str ''010 + 1'') = None \<and>
   tryEvaluate (str ''0.1+0.2'') = Some (Fin (5404319552844596 / 2 ^ 54)) \<and>
   tryEvaluate (str ''0.3'') = Some (Fin (5404319552844595 / 2 ^ 54))"
proof -
  have a: "tryEvaluate (str ''3 - -2'') = None" "tryEvaluate_isFinite (str ''3 - -2'') = None"
    by (simp_all add: evaluate_defs)
  have b: "tryEvaluate (str ''010 + 1'') = None"
    by (simp add: evaluate_defs)
  have c: "tryEvaluate (str ''0.1+0.2'') = Some (Fin (5404319552844596 / 2 ^ 54))"
    using tenth_double fifth_double tenth_plus_fifth_double by (simp add: evaluate_defs)
  have d: "tryEvaluate (str ''0.3'') = Some (Fin (5404319552844595 / 2 ^ 54))"
    using three_tenths_double by (simp add: evaluate_defs)
  from a b c d show ?thesis by (intro conjI)
qed

text \<open>
  Claim C8. For every input string \<open>tryEvaluate\<close> returns null or a finite number, never
  NaN or an infinity, and two inputs that agree once every character outside
  \<open>[0-9+\-*/().\s]\<close> is removed have the same result. The function is total: what the
  engine throws is caught and becomes null.
\<close>

theorem tryEvaluate_finite_and_filtered:
  assumes "filter arith_char s = filter arith_char t"
  shows "tryEvaluate s = tryEvaluate t \<and>
         (case tryEvaluate s of None \<Rightarrow> True | Some n \<Rightarrow> isFinite n) \<and>
         tryEvaluate_isFinite s = tryEvaluate_isFinite t \<and>
         (case tryEvaluate_isFinite s of None \<Rightarrow> True | Some n \<Rightarrow> isFinite n)"
proof -
  have "clean_of s = clean_of t" using assms by (simp add: clean_of_def)
  then have same: "tryEvaluate s = tryEvaluate t" by (simp add: tryEvaluate_def Let_def)
  have fin: "case tryEvaluate s of None \<Rightarrow> True | Some n \<Rightarrow> isFinite n"
  proof (cases "Function_return (clean_of s)")
    case None
    then show ?thesis by (simp add: tryEvaluate_def Let_def)
  next
    case (Some val)
    then show ?thesis by (cases val) (auto simp: tryEvaluate_def Let_def)
  qed
  from same fin show ?thesis by (simp add: tryEvaluate_isFinite_eq)
qed

theorem tryEvaluate_finite_and_filtered_witness:
  "tryEvaluate (str ''x = 12 + 3.5'') = tryEvaluate (str '' ans: 12 + 3.5'') \<and>
   (case tryEvaluate (str ''x = 12 + 3.5'') of None \<Rightarrow> True | Some n \<Rightarrow> isFinite n) \<and>
   tryEvaluate_isFinite (str ''x = 12 + 3.5'') = tryEvaluate_isFinite (str '' ans: 12 + 3.5'') \<and>
   (case tryEvaluate_isFinite (str ''x = 12 + 3.5'') of None \<Rightarrow> True | Some n \<Rightarrow> isFinite n)"
  by (rule tryEvaluate_finite_and_filtered)
     (simp add: str_def arith_char_def is_digit_def is_space_def)

subsection \<open>Examples of the engine\<close>

text \<open>
  Exponentiation associates to the right, and its base may not be a signed number. The
  difference of \<open>0.1+0.2\<close> and \<open>0.3\<close> is one unit in the last place, whose inverse is
  a power of two. A power beyond the largest double is an infinity, hence null.
\<close>

lemma power_examples:
  "tryEvaluate (str ''2**3**2'') = Some (Fin 512) \<and> tryEvaluate (str ''-2**2'') = None"
proof -
  have "tryEvaluate (str ''2**3**2'') = Some (Fin 512)"
    using num_of_real_exact [of 2 2 0] num_of_real_exact [of 3 3 0]
      num_of_real_exact [of 9 9 0] num_of_real_exact [of 512 512 0]
    by (simp add: evaluate_defs)
  moreover have "tryEvaluate (str ''-2**2'') = None"
    by (simp add: evaluate_defs)
  ultimately show ?thesis by simp
qed

lemma rounding_example:
  "tryEvaluate (str ''1/(0.1+0.2-0.3)'') = Some (Fin 18014398509481984)"
  using tenth_double fifth_double tenth_plus_fifth_double three_tenths_double
    num_of_real_exact [of 1 1 0] num_of_real_exact [of "1 / 2 ^ 54" 1 "- 54"]
    num_of_real_exact [of "2 ^ 54" 1 54]
  by (simp add: evaluate_defs)

lemma overflow_example: "tryEvaluate (str ''10**309'') = None"
proof -
  have "num_of_real (10 ^ 309) = Infinity False"
    using ulp_exponent_eq [of 1026 "10 ^ 309"]
    by (simp add: num_of_real_def Let_def nearest_even_def)
  then show ?thesis
    using num_of_real_exact [of 10 10 0] num_of_real_exact [of 309 309 0]
    by (simp add: evaluate_defs)
qed

section \<open>Properties of the handlers\<close>

lemma get_prop_or_else: "get_prop (or_else b (JObj [])) k = get_prop b k"
  by (cases b) (auto simp: or_else_def)

lemma valid_image_string:
  "starts_with (str ''data:image/'') s \<Longrightarrow> \<not> invalid_image (JStr s)"
  by (auto simp: invalid_image_def starts_with_def str_def)

lemma invalid_image_field:
  "invalid_image (get_prop b (str ''imageDataUrl'')) = (\<not> image_field b)"
  by (auto simp: invalid_image_def image_field_def starts_with_def str_def split: jsval.splits)

text \<open>
  Claim C1, as amended. For every POST request whose body has no \<open>imageDataUrl\<close> that is
  a string starting with \<open>data:image/\<close>, the handler of api/pipeline.js, the handler with two
  request schemas and the Response-based handler (for which a body that is not JSON counts
  too) return status 400 with an error body, and the world is as before: no upstream call
  is made. The three event-based handlers do so for a body that is absent, or that parses
  to a value other than null whose \<open>imageDataUrl\<close> is missing or falsy.
\<close>

theorem rejected_without_image:
  "(req_method req = str ''POST'' \<and> \<not> image_field (req_body req) \<longrightarrow>
      handler_api e req w = (json 400 (error_only ''invalid_image''), w) \<and>
      handler_two_schemas sh e req w = (json 400 (error_only ''invalid_image''), w)) \<and>
   (web_method wreq = str ''POST'' \<and> web_json wreq = Inl m \<longrightarrow>
      handler_web e wreq w = (json 400 (error_only ''invalid_json''), w)) \<and>
   (web_method wreq = str ''POST'' \<and> web_json wreq = Inr b \<and> \<not> image_field b \<longrightarrow>
      handler_web e wreq w = (json 400 (error_only ''invalid_image''), w)) \<and>
   (httpMethod ev = str ''POST'' \<and>
    (event_body ev = None \<or>
     event_body ev = Some (Inr b) \<and> \<not> nullish b \<and> \<not> truthy (get_prop b (str ''imageDataUrl'')))
    \<longrightarrow>
      handler_netlify e ev w = (json 400 (error_only ''Missing imageDataUrl''), w) \<and>
      handler_groq_first e ev w = (json 400 (error_only ''Missing imageDataUrl''), w) \<and>
      handler_openrouter_first e ev w = (json 400 (error_only ''Missing imageDataUrl''), w))"
proof -
  have express: "handler_api e req w = (json 400 (error_only ''invalid_image''), w) \<and>
      handler_two_schemas sh e req w = (json 400 (error_only ''invalid_image''), w)"
    if "req_method req = str ''POST''" "\<not> image_field (req_body req)"
    using that
    by (simp add: handler_api_def api_try_def handler_two_schemas_def two_schemas_try_def
        get_prop_or_else invalid_image_field ret_def)
  have web1: "handler_web e wreq w = (json 400 (error_only ''invalid_json''), w)"
    if "web_method wreq = str ''POST''" "web_json wreq = Inl m"
    using that by (simp add: handler_web_def web_try_def ret_def)
  have web2: "handler_web e wreq w = (json 400 (error_only ''invalid_image''), w)"
    if "web_method wreq = str ''POST''" "web_json wreq = Inr b" "\<not> image_field b"
    using that
    by (simp add: handler_web_def web_try_def get_prop_or_else invalid_image_field ret_def)
  have events: "handler_netlify e ev w = (json 400 (error_only ''Missing imageDataUrl''), w) \<and>
      handler_groq_first e ev w = (json 400 (error_only ''Missing imageDataUrl''), w) \<and>
      handler_openrouter_first e ev w = (json 400 (error_only ''Missing imageDataUrl''), w)"
    if "httpMethod ev = str ''POST''"
      "event_body ev = None \<or>
       event_body ev = Some (Inr b) \<and> \<not> nullish b \<and> \<not> truthy (get_prop b (str ''imageDataUrl''))"
    using that
    by (auto simp: handler_netlify_def netlify_try_def handler_groq_first_def groq_first_try_def
        handler_openrouter_first_def openrouter_first_try_def parse_body_def destructure_def
        and_then_def lift_def ret_def)
  show ?thesis using express web1 web2 events by blast
qed

theorem rejected_without_image_witness:
  "handler_api both_keys \<lparr>req_method = str ''POST'', req_body = image_body (str ''hello'')\<rparr> silent
     = (json 400 (error_only ''invalid_image''), silent) \<and>
   handler_two_schemas (\<lambda>n. []) both_keys
       \<lparr>req_method = str ''POST'', req_body = image_body (str ''hello'')\<rparr> silent
     = (json 400 (error_only ''invalid_image''), silent) \<and>
   handler_web both_keys \<lparr>web_method = str ''POST'', web_json = Inl (str ''Unexpected token'')\<rparr>
       silent
     = (json 400 (error_only ''invalid_json''), silent) \<and>
   handler_web both_keys \<lparr>web_method = str ''POST'', web_json = Inr (JObj [])\<rparr> silent
     = (json 400 (error_only ''invalid_image''), silent) \<and>
   handler_netlify both_keys \<lparr>httpMethod = str ''POST'', event_body = Some (Inr (JObj []))\<rparr> silent
     = (json 400 (error_only ''Missing imageDataUrl''), silent) \<and>
   handler_groq_first both_keys
       \<lparr>httpMethod = str ''POST'', event_body = Some (Inr (JObj []))\<rparr> silent
     = (json 400 (error_only ''Missing imageDataUrl''), silent) \<and>
   handler_openrouter_first both_keys
       \<lparr>httpMethod = str ''POST'', event_body = Some (Inr (JObj []))\<rparr> silent
     = (json 400 (error_only ''Missing imageDataUrl''), silent)"
  using rejected_without_image
    [of "\<lparr>req_method = str ''POST'', req_body = image_body (str ''hello'')\<rparr>" both_keys silent
        "\<lambda>n. []" "\<lparr>web_method = str ''POST'', web_json = Inl (str ''Unexpected token'')\<rparr>"
        "str ''Unexpected token''" "JObj []"
        "\<lparr>httpMethod = str ''POST'', event_body = Some (Inr (JObj []))\<rparr>"]
    rejected_without_image
    [of "\<lparr>req_method = str ''POST'', req_body = image_body (str ''hello'')\<rparr>" both_keys silent
        "\<lambda>n. []" "\<lparr>web_method = str ''POST'', web_json = Inr (JObj [])\<rparr>"
        "str ''Unexpected token''" "JObj []"
        "\<lparr>httpMethod = str ''POST'', event_body = Some (Inr (JObj []))\<rparr>"]
  by (simp add: image_field_def image_body_def starts_with_def str_def)

text \<open>
  The claim as stated fails in the handler of netlify/functions/pipeline.js, which tests
  only that \<open>imageDataUrl\<close> is truthy and, in \<open>dataUrlToParts\<close>, that it starts with
  \<open>data:\<close>: a text document sent as a data URL goes to the OCR model, and the request is
  answered with status 200.
\<close>

theorem netlify_text_data_url_counterexample:
  "handler_netlify both_keys
     \<lparr>httpMethod = str ''POST'',
      event_body = Some (Inr (image_body (str ''data:text/plain,hello'')))\<rparr>
     \<lparr>replies = [completion 200 (str ''hello'')], calls = []\<rparr>
   = (json 200 (JObj [(str ''text'', JStr (str ''hello'')),
                      (str ''explanation'',
                       JStr (str ''<p>The image does not contain any mathematical expressions or steps.</p>''))]),
      \<lparr>replies = [],
       calls = [\<lparr>url = OPENROUTER_URL, authorization = str ''Bearer or-key'',
                 model = str ''qwen2.5-vl-7b-instruct:free'',
                 user = Vision (Input_image (JStr (str ''data:text/plain,hello'')))\<rparr>]\<rparr>)"
  by (simp add: handler_netlify_def netlify_try_def parse_body_def destructure_def
      runOCRWithOpenRouter_def dataUrlToParts_def cleanOCR_def answer_def no_math_def
      math_char_def is_digit_def toHtmlParagraphs_def no_math_text_def trim_def is_space_def
      md_image_def fence_def or_empty_def message_content_def opt_def read_json_def ok_def
      fetch_def and_then_def lift_def ret_def throw_def both_keys_def image_body_def
      completion_def bearer_def starts_with_def str_def json_def)

text \<open>
  Claim C9, as amended. For every POST request whose \<open>imageDataUrl\<close> is a string that
  starts with \<open>data:image/\<close> and is longer than 6,000,000 characters, the Response-based
  handler returns status 413 with the error tag \<open>image_too_large\<close>, and the world is as
  before: no upstream call is made.
\<close>

theorem web_image_too_large:
  assumes "web_method req = str ''POST''" and "web_json req = Inr b"
    and "get_prop b (str ''imageDataUrl'') = JStr s"
    and "starts_with (str ''data:image/'') s" and "6000000 < length s"
  shows "handler_web e req w = (json 413 (error_only ''image_too_large''), w)"
  using assms valid_image_string [OF assms(4)]
  by (simp add: handler_web_def web_try_def get_prop_or_else ret_def)

theorem web_image_too_large_witness:
  "handler_web no_env
     \<lparr>web_method = str ''POST'',
      web_json = Inr (image_body (str ''data:image/'' @ replicate 6000000 65))\<rparr> silent
   = (json 413 (error_only ''image_too_large''), silent)"
  by (rule web_image_too_large
        [where b = "image_body (str ''data:image/'' @ replicate 6000000 65)"
           and s = "str ''data:image/'' @ replicate 6000000 65"])
     (simp_all add: image_body_def starts_with_def str_def)

text \<open>
  The claim as stated fails: a string of 6,000,001 characters that does not start with
  \<open>data:image/\<close> is rejected by the test before the one for the length, with status 400.
\<close>

theorem web_long_invalid_image_counterexample:
  "handler_web no_env
     \<lparr>web_method = str ''POST'', web_json = Inr (image_body (replicate 6000001 65))\<rparr> silent
   = (json 400 (error_only ''invalid_image''), silent)"
  by (simp add: handler_web_def web_try_def get_prop_or_else ret_def image_body_def
      invalid_image_def starts_with_def str_def)

text \<open>
  Claim C5, as amended. For every POST request whose \<open>imageDataUrl\<close> is a string starting
  with \<open>data:image/\<close>, processed while \<open>OPENROUTER_API_KEY\<close> is unset or empty, the handler
  of api/pipeline.js and the handler with two request schemas return status 500 with the
  error tag \<open>missing_openrouter_key\<close>, and the world is as before: no upstream call is made.
  The Response-based handler does so when the string has at most 6,000,000 characters.
\<close>

theorem missing_openrouter_key:
  assumes "get_prop b (str ''imageDataUrl'') = JStr s"
    and "starts_with (str ''data:image/'') s"
    and "unset (OPENROUTER_API_KEY e)"
  shows "(req_method req = str ''POST'' \<and> req_body req = b \<longrightarrow>
            handler_api e req w = (json 500 (error_only ''missing_openrouter_key''), w) \<and>
            handler_two_schemas sh e req w
              = (json 500 (error_only ''missing_openrouter_key''), w)) \<and>
         (web_method wreq = str ''POST'' \<and> web_json wreq = Inr b \<and> length s \<le> 6000000 \<longrightarrow>
            handler_web e wreq w = (json 500 (error_only ''missing_openrouter_key''), w))"
  using assms valid_image_string [OF assms(2)]
  by (simp add: handler_api_def api_try_def handler_two_schemas_def two_schemas_try_def
      handler_web_def web_try_def get_prop_or_else ret_def)

theorem missing_openrouter_key_witness:
  "handler_api no_env
     \<lparr>req_method = str ''POST'', req_body = image_body (str ''data:image/png;base64,AAAA'')\<rparr>
     silent
     = (json 500 (error_only ''missing_openrouter_key''), silent) \<and>
   handler_two_schemas (\<lambda>n. []) no_env
     \<lparr>req_method = str ''POST'', req_body = image_body (str ''data:image/png;base64,AAAA'')\<rparr>
     silent
     = (json 500 (error_only ''missing_openrouter_key''), silent) \<and>
   handler_web no_env
     \<lparr>web_method = str ''POST'',
      web_json = Inr (image_body (str ''data:image/png;base64,AAAA''))\<rparr> silent
     = (json 500 (error_only ''missing_openrouter_key''), silent)"
  using missing_openrouter_key
    [of "image_body (str ''data:image/png;base64,AAAA'')" "str ''data:image/png;base64,AAAA''"
        no_env
        "\<lparr>req_method = str ''POST'',
          req_body = image_body (str ''data:image/png;base64,AAAA'')\<rparr>"
        silent "\<lambda>n. []"
        "\<lparr>web_method = str ''POST'',
          web_json = Inr (image_body (str ''data:image/png;base64,AAAA''))\<rparr>"]
  by (simp add: image_body_def starts_with_def str_def no_env_def unset_def)

text \<open>
  The claim as stated fails in the Response-based handler, which tests the length of the
  image before it looks for the key: a data URL of more than 6,000,000 characters is
  answered with status 413 also when the key is missing. And it fails in the handler of
  netlify/functions/pipeline.js, which never looks for the key: without one the OCR
  request goes out with the header \<open>Bearer undefined\<close>, and what the model answers is
  answered with status 200.
\<close>

theorem key_tested_late_or_never_counterexample:
  "handler_web no_env
     \<lparr>web_method = str ''POST'',
      web_json = Inr (image_body (str ''data:image/png;base64,'' @ replicate 6000000 65))\<rparr>
     silent
   = (json 413 (error_only ''image_too_large''), silent) \<and>
   handler_netlify no_env
     \<lparr>httpMethod = str ''POST'',
      event_body = Some (Inr (image_body (str ''data:image/png;base64,AAAA'')))\<rparr>
     \<lparr>replies = [completion 200 (str ''hello'')], calls = []\<rparr>
   = (json 200 (JObj [(str ''text'', JStr (str ''hello'')),
                      (str ''explanation'',
                       JStr (str ''<p>The image does not contain any mathematical expressions or steps.</p>''))]),
      \<lparr>replies = [],
       calls = [\<lparr>url = OPENROUTER_URL, authorization = str ''Bearer undefined'',
                 model = str ''qwen2.5-vl-7b-instruct:free'',
                 user = Vision (Input_image (JStr (str ''data:image/png;base64,AAAA'')))\<rparr>]\<rparr>)"
proof -
  have a: "handler_web no_env
     \<lparr>web_method = str ''POST'',
      web_json = Inr (image_body (str ''data:image/png;base64,'' @ replicate 6000000 65))\<rparr>
     silent
   = (json 413 (error_only ''image_too_large''), silent)"
    by (simp add: handler_web_def web_try_def get_prop_or_else ret_def image_body_def
        invalid_image_def starts_with_def str_def)
  have b: "handler_netlify no_env
     \<lparr>httpMethod = str ''POST'',
      event_body = Some (Inr (image_body (str ''data:image/png;base64,AAAA'')))\<rparr>
     \<lparr>replies = [completion 200 (str ''hello'')], calls = []\<rparr>
   = (json 200 (JObj [(str ''text'', JStr (str ''hello'')),
                      (str ''explanation'',
                       JStr (str ''<p>The image does not contain any mathematical expressions or steps.</p>''))]),
      \<lparr>replies = [],
       calls = [\<lparr>url = OPENROUTER_URL, authorization = str ''Bearer undefined'',
                 model = str ''qwen2.5-vl-7b-instruct:free'',
                 user = Vision (Input_image (JStr (str ''data:image/png;base64,AAAA'')))\<rparr>]\<rparr>)"
    by (simp add: handler_netlify_def netlify_try_def parse_body_def destructure_def
        runOCRWithOpenRouter_def dataUrlToParts_def cleanOCR_def answer_def no_math_def
        math_char_def is_digit_def toHtmlParagraphs_def no_math_text_def trim_def is_space_def
        md_image_def fence_def or_empty_def message_content_def opt_def read_json_def ok_def
        fetch_def and_then_def lift_def ret_def throw_def no_env_def image_body_def
        completion_def bearer_def starts_with_def str_def json_def)
  from a b show ?thesis by (rule conjI)
qed

lemma fetch_calls: "calls (snd (fetch c w)) = calls w @ [c]"
  by (simp add: fetch_def split: list.splits fetched.splits)

lemma fetch_vision_explanation_calls:
  "user c = Vision i \<Longrightarrow> explanation_calls (snd (fetch c w)) = explanation_calls w"
  by (simp add: explanation_calls_def fetch_calls)

lemma vision_world: "snd (vision what clean c w) = snd (fetch c w)"
  by (cases "fetch c w")
     (auto simp: vision_def and_then_def throw_def lift_def split: sum.splits)

lemma runOCRWithOpenRouter_explanation_calls:
  "explanation_calls (snd (runOCRWithOpenRouter e img w)) = explanation_calls w"
proof (cases "dataUrlToParts img")
  case (Inl err)
  then show ?thesis by (simp add: runOCRWithOpenRouter_def and_then_def lift_def)
next
  case (Inr parts)
  let ?c = "\<lparr>url = OPENROUTER_URL, authorization = bearer (OPENROUTER_API_KEY e),
             model = str ''qwen2.5-vl-7b-instruct:free'', user = Vision (Input_image img)\<rparr>"
  show ?thesis
  proof (cases parts)
    case None
    with Inr show ?thesis
      by (simp add: runOCRWithOpenRouter_def and_then_def lift_def throw_def)
  next
    case (Some p)
    have "snd (runOCRWithOpenRouter e img w) = snd (fetch ?c w)"
      using Inr Some
      by (cases "fetch ?c w")
         (auto simp: runOCRWithOpenRouter_def and_then_def throw_def lift_def split: sum.splits)
    then show ?thesis by (simp add: fetch_vision_explanation_calls)
  qed
qed

lemma groq_first_ocr_explanation_calls:
  "explanation_calls (snd (groq_first_ocr e img w)) = explanation_calls w"
proof -
  have a: "explanation_calls (snd (ocrWithGroq e img v)) = explanation_calls v" for v
    by (simp add: ocrWithGroq_def vision_world fetch_vision_explanation_calls)
  have b: "explanation_calls (snd (ocrWithOpenRouter e img v)) = explanation_calls v" for v
    by (simp add: ocrWithOpenRouter_def vision_world fetch_vision_explanation_calls)
  show ?thesis
    using a [of w] b [of "snd (ocrWithGroq e img w)"]
    by (cases "ocrWithGroq e img w") (auto simp: groq_first_ocr_def split: sum.splits)
qed

lemma openrouter_first_ocr_explanation_calls:
  "explanation_calls (snd (openrouter_first_ocr e img w)) = explanation_calls w"
proof -
  have a: "explanation_calls (snd (runOCRWithOpenRouter_model e img v)) = explanation_calls v"
    for v
    by (simp add: runOCRWithOpenRouter_model_def vision_world fetch_vision_explanation_calls)
  have b: "explanation_calls (snd (runOCRWithGroqVision e img v)) = explanation_calls v" for v
    by (simp add: runOCRWithGroqVision_def vision_world fetch_vision_explanation_calls)
  show ?thesis
    using a [of w] b [of "snd (runOCRWithOpenRouter_model e img w)"]
    by (cases "runOCRWithOpenRouter_model e img w")
       (auto simp: openrouter_first_ocr_def split: sum.splits)
qed

lemma no_math_paragraph:
  "toHtmlParagraphs no_math_text
     = str ''<p>The image does not contain any mathematical expressions or steps.</p>''"
  by (simp add: toHtmlParagraphs_def no_math_text_def trim_def is_space_def str_def)

lemma destructure_object:
  "\<not> nullish b \<Longrightarrow>
   destructure b = Inr (get_prop b (str ''imageDataUrl''),
                        if get_prop b (str ''stepByStep'') = JUndefined then JBool True
                        else get_prop b (str ''stepByStep''))"
  by (simp add: destructure_def Let_def)

text \<open>
  Claim C4, as amended. In the three event-based handlers, for every request whose OCR
  transcript contains no digit and no operator character (none of \<open>0-9 = + - \<times> * / ( )\<close>),
  the response has status 200, its text is the transcript and its explanation is the fixed
  text wrapped in a paragraph; the world is the one the OCR left, and no request for an
  explanation has been added to the calls.
\<close>

theorem no_math_early_answer:
  assumes "httpMethod ev = str ''POST''" and "event_body ev = Some (Inr b)" and "\<not> nullish b"
    and "truthy (get_prop b (str ''imageDataUrl''))"
    and "\<not> list_ex math_char t"
  shows "(runOCRWithOpenRouter e (get_prop b (str ''imageDataUrl'')) w = (Inr t, w1) \<longrightarrow>
            handler_netlify e ev w
              = (no_math_answer t, w1) \<and>
            explanation_calls w1 = explanation_calls w) \<and>
         (groq_first_ocr e (get_prop b (str ''imageDataUrl'')) w = (Inr t, w1) \<longrightarrow>
            handler_groq_first e ev w
              = (no_math_answer t, w1) \<and>
            explanation_calls w1 = explanation_calls w) \<and>
         (openrouter_first_ocr e (get_prop b (str ''imageDataUrl'')) w = (Inr t, w1) \<longrightarrow>
            handler_openrouter_first e ev w
              = (no_math_answer t, w1) \<and>
            explanation_calls w1 = explanation_calls w)"
proof -
  have pb: "parse_body (event_body ev) = Inr b" using assms(2) by (simp add: parse_body_def)
  have nm: "no_math t" using assms(5) by (simp add: no_math_def)
  have ans: "answer explain t s v
      = (Inr (no_math_answer t), v)" for explain s v
    using nm by (simp add: answer_def no_math_paragraph no_math_answer_def ret_def)
  have 1: "handler_netlify e ev w
      = (no_math_answer t, w1) \<and> explanation_calls w1 = explanation_calls w"
    if o: "runOCRWithOpenRouter e (get_prop b (str ''imageDataUrl'')) w = (Inr t, w1)"
  proof -
    have "explanation_calls w1 = explanation_calls w"
      using runOCRWithOpenRouter_explanation_calls [of e "get_prop b (str ''imageDataUrl'')" w] o
      by simp
    moreover have "handler_netlify e ev w
      = (no_math_answer t, w1)"
      using assms(1,3,4) pb o
      by (simp add: handler_netlify_def netlify_try_def destructure_object and_then_def lift_def
          ans)
    ultimately show ?thesis by simp
  qed
  have 2: "handler_groq_first e ev w
      = (no_math_answer t, w1) \<and> explanation_calls w1 = explanation_calls w"
    if o: "groq_first_ocr e (get_prop b (str ''imageDataUrl'')) w = (Inr t, w1)"
  proof -
    have "explanation_calls w1 = explanation_calls w"
      using groq_first_ocr_explanation_calls [of e "get_prop b (str ''imageDataUrl'')" w] o
      by simp
    moreover have "handler_groq_first e ev w
      = (no_math_answer t, w1)"
      using assms(1,3,4) pb o
      by (simp add: handler_groq_first_def groq_first_try_def destructure_object and_then_def
          lift_def ans)
    ultimately show ?thesis by simp
  qed
  have 3: "handler_openrouter_first e ev w
      = (no_math_answer t, w1) \<and> explanation_calls w1 = explanation_calls w"
    if o: "openrouter_first_ocr e (get_prop b (str ''imageDataUrl'')) w = (Inr t, w1)"
  proof -
    have "explanation_calls w1 = explanation_calls w"
      using openrouter_first_ocr_explanation_calls [of e "get_prop b (str ''imageDataUrl'')" w] o
      by simp
    moreover have "handler_openrouter_first e ev w
      = (no_math_answer t, w1)"
      using assms(1,3,4) pb o
      by (simp add: handler_openrouter_first_def openrouter_first_try_def destructure_object
          and_then_def lift_def ans)
    ultimately show ?thesis by simp
  qed
  from 1 2 3 show ?thesis by blast
qed

lemmas ocr_eval_defs =
  runOCRWithOpenRouter_def dataUrlToParts_def cleanOCR_def cleanOCR_groq_first_def
  groq_first_ocr_def ocrWithGroq_def ocrWithOpenRouter_def openrouter_first_ocr_def
  runOCRWithOpenRouter_model_def runOCRWithGroqVision_def vision_def env_or_def unset_def
  trim_def is_space_def md_image_def fence_def or_empty_def message_content_def opt_def
  read_json_def ok_def fetch_def and_then_def lift_def ret_def throw_def both_keys_def
  image_body_def completion_def bearer_def starts_with_def str_def

theorem no_math_early_answer_witness:
  "handler_netlify both_keys
     \<lparr>httpMethod = str ''POST'',
      event_body = Some (Inr (image_body (str ''data:image/png;base64,AAAA'')))\<rparr>
     \<lparr>replies = [completion 200 (str ''A cat on a sofa'')], calls = []\<rparr>
   = (no_math_answer (str ''A cat on a sofa''),
      \<lparr>replies = [],
       calls = [\<lparr>url = OPENROUTER_URL, authorization = str ''Bearer or-key'',
                 model = str ''qwen2.5-vl-7b-instruct:free'',
                 user = Vision (Input_image (JStr (str ''data:image/png;base64,AAAA'')))\<rparr>]\<rparr>) \<and>
   handler_groq_first both_keys
     \<lparr>httpMethod = str ''POST'',
      event_body = Some (Inr (image_body (str ''data:image/png;base64,AAAA'')))\<rparr>
     \<lparr>replies = [completion 200 (str ''A cat on a sofa'')], calls = []\<rparr>
   = (no_math_answer (str ''A cat on a sofa''),
      \<lparr>replies = [],
       calls = [\<lparr>url = GROQ_URL, authorization = str ''Bearer gq-key'',
                 model = str ''llama-3.2-11b-vision-preview'',
                 user = Vision (Image_url_object (JStr (str ''data:image/png;base64,AAAA'')))\<rparr>]\<rparr>) \<and>
   handler_openrouter_first both_keys
     \<lparr>httpMethod = str ''POST'',
      event_body = Some (Inr (image_body (str ''data:image/png;base64,AAAA'')))\<rparr>
     \<lparr>replies = [completion 200 (str ''A cat on a sofa'')], calls = []\<rparr>
   = (no_math_answer (str ''A cat on a sofa''),
      \<lparr>replies = [],
       calls = [\<lparr>url = OPENROUTER_URL, authorization = str ''Bearer or-key'',
                 model = str ''gpt-4o-mini'',
                 user = Vision (Input_image (JStr (str ''data:image/png;base64,AAAA'')))\<rparr>]\<rparr>)"
proof -
  let ?ev = "\<lparr>httpMethod = str ''POST'',
      event_body = Some (Inr (image_body (str ''data:image/png;base64,AAAA'')))\<rparr>"
  let ?w = "\<lparr>replies = [completion 200 (str ''A cat on a sofa'')], calls = []\<rparr>"
  have h: "httpMethod ?ev = str ''POST''"
    "event_body ?ev = Some (Inr (image_body (str ''data:image/png;base64,AAAA'')))"
    "\<not> nullish (image_body (str ''data:image/png;base64,AAAA''))"
    "truthy (get_prop (image_body (str ''data:image/png;base64,AAAA'')) (str ''imageDataUrl''))"
    "\<not> list_ex math_char (str ''A cat on a sofa'')"
    by (simp_all add: image_body_def str_def math_char_def is_digit_def)
  have img: "get_prop (image_body (str ''data:image/png;base64,AAAA'')) (str ''imageDataUrl'')
      = JStr (str ''data:image/png;base64,AAAA'')"
    by (simp add: image_body_def)
  have 1: "runOCRWithOpenRouter both_keys (JStr (str ''data:image/png;base64,AAAA'')) ?w
      = (Inr (str ''A cat on a sofa''),
         \<lparr>replies = [],
          calls = [\<lparr>url = OPENROUTER_URL, authorization = str ''Bearer or-key'',
                    model = str ''qwen2.5-vl-7b-instruct:free'',
                    user = Vision (Input_image (JStr (str ''data:image/png;base64,AAAA'')))\<rparr>]\<rparr>)"
    by (simp add: ocr_eval_defs)
  have 2: "groq_first_ocr both_keys (JStr (str ''data:image/png;base64,AAAA'')) ?w
      = (Inr (str ''A cat on a sofa''),
         \<lparr>replies = [],
          calls = [\<lparr>url = GROQ_URL, authorization = str ''Bearer gq-key'',
                    model = str ''llama-3.2-11b-vision-preview'',
                    user = Vision (Image_url_object
                             (JStr (str ''data:image/png;base64,AAAA'')))\<rparr>]\<rparr>)"
    by (simp add: ocr_eval_defs)
  have 3: "openrouter_first_ocr both_keys (JStr (str ''data:image/png;base64,AAAA'')) ?w
      = (Inr (str ''A cat on a sofa''),
         \<lparr>replies = [],
          calls = [\<lparr>url = OPENROUTER_URL, authorization = str ''Bearer or-key'',
                    model = str ''gpt-4o-mini'',
                    user = Vision (Input_image (JStr (str ''data:image/png;base64,AAAA'')))\<rparr>]\<rparr>)"
    by (simp add: ocr_eval_defs)
  show ?thesis
    using no_math_early_answer [OF h, of both_keys ?w] 1 2 3 img
    by simp
qed

text \<open>
  The claim as stated fails in the handler of api/pipeline.js, which has no test for math:
  for the transcript \<open>hello\<close> it asks for the explanation and returns what the model
  says.
\<close>

theorem api_explains_without_math_counterexample:
  "handler_api both_keys
     \<lparr>req_method = str ''POST'', req_body = image_body (str ''data:image/png;base64,AAAA'')\<rparr>
     \<lparr>replies = [completion 200 (str ''hello''), completion 200 (str ''No math here.'')],
      calls = []\<rparr>
   = (json 200 (JObj [(str ''text'', JStr (str ''hello'')), (str ''numeric'', JNull),
                      (str ''explanation'', JStr (str ''No math here.''))]),
      \<lparr>replies = [],
       calls = [api_ocr_call (Some (str ''or-key'')) (str ''data:image/png;base64,AAAA''),
                api_explain_call (Some (str ''gq-key'')) (str ''hello'')]\<rparr>)"
  by (simp add: handler_api_def api_try_def api_explain_def get_prop_or_else invalid_image_def
      unset_def both_keys_def image_body_def completion_def fetch_def and_then_def lift_def
      ret_def ok_def read_json_def message_content_def opt_def trim_def is_space_def or_else_def
      numeric_value_def tryEvaluate_def clean_of_def arith_char_def is_digit_def
      starts_with_def str_def)

lemma destructure_with_stepByStep:
  assumes "map_of kvs (str ''stepByStep'') = None"
  shows "destructure (JObj (kvs @ [(str ''stepByStep'', JBool True)]))
           = Inr (get_prop (JObj kvs) (str ''imageDataUrl''), JBool True)"
    and "destructure (JObj kvs) = Inr (get_prop (JObj kvs) (str ''imageDataUrl''), JBool True)"
  using assms
  by (auto simp: destructure_def Let_def map_add_def str_def split: option.splits)

lemma runExplainWithGroq_world:
  "snd (runExplainWithGroq e t s w)
     = snd (fetch \<lparr>url = GROQ_URL, authorization = bearer (GROQ_API_KEY e),
                   model = str ''llama3-70b-8192'', user = Text (step_prompt s t)\<rparr> w)"
  by (cases "fetch \<lparr>url = GROQ_URL, authorization = bearer (GROQ_API_KEY e),
                    model = str ''llama3-70b-8192'', user = Text (step_prompt s t)\<rparr> w")
     (auto simp: runExplainWithGroq_def and_then_def throw_def lift_def ret_def
           split: sum.splits)

lemma explainWithGroq_text_world:
  "snd (explainWithGroq_text e t s w)
     = snd (fetch \<lparr>url = GROQ_URL, authorization = bearer (GROQ_API_KEY e),
                   model = env_or (GROQ_TEXT_MODEL e) (str ''llama-3.1-70b-versatile''),
                   user = Text (short_prompt s t)\<rparr> w)"
  by (cases "fetch \<lparr>url = GROQ_URL, authorization = bearer (GROQ_API_KEY e),
                    model = env_or (GROQ_TEXT_MODEL e) (str ''llama-3.1-70b-versatile''),
                    user = Text (short_prompt s t)\<rparr> w")
     (auto simp: explainWithGroq_text_def and_then_def throw_def lift_def ret_def
           split: sum.splits)

lemma runExplainWithGroq_text_world:
  "snd (runExplainWithGroq_text e t s w)
     = snd (fetch \<lparr>url = GROQ_URL, authorization = bearer (GROQ_API_KEY e),
                   model = env_or (GROQ_TEXT_MODEL e) (str ''llama-3.1-70b-versatile''),
                   user = Text (short_prompt s t)\<rparr> w)"
  by (cases "fetch \<lparr>url = GROQ_URL, authorization = bearer (GROQ_API_KEY e),
                    model = env_or (GROQ_TEXT_MODEL e) (str ''llama-3.1-70b-versatile''),
                    user = Text (short_prompt s t)\<rparr> w")
     (auto simp: runExplainWithGroq_text_def and_then_def throw_def lift_def ret_def
           split: sum.splits)

lemma answer_world:
  "\<not> no_math t \<Longrightarrow> snd (answer explain t s w) = snd (explain t s w)"
  by (cases "explain t s w") (auto simp: answer_def and_then_def ret_def split: sum.splits)

text \<open>
  Claim C10. In the three handlers that read \<open>stepByStep\<close>, a request whose body is an
  object without \<open>stepByStep\<close> gets the response and makes the calls of the same request
  with \<open>stepByStep\<close> set to true; and when its transcript has math, the request for the
  explanation that follows the OCR carries the step-by-step user prompt.
\<close>

theorem stepByStep_defaults_to_true:
  assumes "event_body ev = Some (Inr (JObj kvs))" and "map_of kvs (str ''stepByStep'') = None"
  shows "handler_netlify e ev w
           = handler_netlify e
               (ev\<lparr>event_body := Some (Inr (JObj (kvs @ [(str ''stepByStep'', JBool True)])))\<rparr>) w \<and>
         handler_groq_first e ev w
           = handler_groq_first e
               (ev\<lparr>event_body := Some (Inr (JObj (kvs @ [(str ''stepByStep'', JBool True)])))\<rparr>) w \<and>
         handler_openrouter_first e ev w
           = handler_openrouter_first e
               (ev\<lparr>event_body := Some (Inr (JObj (kvs @ [(str ''stepByStep'', JBool True)])))\<rparr>) w \<and>
         (httpMethod ev = str ''POST'' \<and> truthy (get_prop (JObj kvs) (str ''imageDataUrl'')) \<and>
          \<not> no_math t \<longrightarrow>
            (runOCRWithOpenRouter e (get_prop (JObj kvs) (str ''imageDataUrl'')) w = (Inr t, w1) \<longrightarrow>
               calls (snd (handler_netlify e ev w))
                 = calls w1 @
                   [\<lparr>url = GROQ_URL, authorization = bearer (GROQ_API_KEY e),
                     model = str ''llama3-70b-8192'',
                     user = Text (str ''Explain step-by-step the following math work or expression:''
                                  @ [10, 10] @ t @ [10, 10] @
                                  str ''If there are errors, correct them and show the right steps clearly.'')\<rparr>]) \<and>
            (groq_first_ocr e (get_prop (JObj kvs) (str ''imageDataUrl'')) w = (Inr t, w1) \<longrightarrow>
               calls (snd (handler_groq_first e ev w))
                 = calls w1 @
                   [\<lparr>url = GROQ_URL, authorization = bearer (GROQ_API_KEY e),
                     model = env_or (GROQ_TEXT_MODEL e) (str ''llama-3.1-70b-versatile''),
                     user = Text (str ''Explain step by step:'' @ [10] @ t)\<rparr>]) \<and>
            (openrouter_first_ocr e (get_prop (JObj kvs) (str ''imageDataUrl'')) w = (Inr t, w1) \<longrightarrow>
               calls (snd (handler_openrouter_first e ev w))
                 = calls w1 @
                   [\<lparr>url = GROQ_URL, authorization = bearer (GROQ_API_KEY e),
                     model = env_or (GROQ_TEXT_MODEL e) (str ''llama-3.1-70b-versatile''),
                     user = Text (str ''Explain step by step:'' @ [10] @ t)\<rparr>]))"
proof -
  let ?img = "get_prop (JObj kvs) (str ''imageDataUrl'')"
  let ?ev' = "ev\<lparr>event_body := Some (Inr (JObj (kvs @ [(str ''stepByStep'', JBool True)])))\<rparr>"
  note d = destructure_with_stepByStep [OF assms(2)]
  have pb: "parse_body (event_body ev) = Inr (JObj kvs)" "parse_body (Some (Inr v)) = Inr v" for v
    using assms(1) by (simp_all add: parse_body_def)
  have same1: "netlify_try e ev w = netlify_try e ?ev' w"
    by (simp add: netlify_try_def pb d and_then_def lift_def)
  have same2: "groq_first_try e ev w = groq_first_try e ?ev' w"
    by (simp add: groq_first_try_def pb d and_then_def lift_def)
  have same3: "openrouter_first_try e ev w = openrouter_first_try e ?ev' w"
    by (simp add: openrouter_first_try_def pb d and_then_def lift_def)
  have snd_case: "snd (case r of (Inl err, w') \<Rightarrow> (f err, w') | (Inr res, w') \<Rightarrow> (res, w')) = snd r"
    for r :: "(exn + response) \<times> world" and f
    by (cases r) (auto split: sum.splits)
  have p1: "calls (snd (handler_netlify e ev w))
      = calls w1 @
        [\<lparr>url = GROQ_URL, authorization = bearer (GROQ_API_KEY e),
          model = str ''llama3-70b-8192'',
          user = Text (str ''Explain step-by-step the following math work or expression:''
                       @ [10, 10] @ t @ [10, 10] @
                       str ''If there are errors, correct them and show the right steps clearly.'')\<rparr>]"
    if "httpMethod ev = str ''POST''" "truthy ?img" "\<not> no_math t"
      "runOCRWithOpenRouter e ?img w = (Inr t, w1)"
  proof -
    have "netlify_try e ev w = answer (runExplainWithGroq e) t (JBool True) w1"
      using that by (simp add: netlify_try_def pb d and_then_def lift_def)
    then have "snd (handler_netlify e ev w) = snd (runExplainWithGroq e t (JBool True) w1)"
      using that(3) by (simp add: handler_netlify_def snd_case answer_world)
    then show ?thesis
      by (simp add: runExplainWithGroq_world fetch_calls step_prompt_def)
  qed
  have p2: "calls (snd (handler_groq_first e ev w))
      = calls w1 @
        [\<lparr>url = GROQ_URL, authorization = bearer (GROQ_API_KEY e),
          model = env_or (GROQ_TEXT_MODEL e) (str ''llama-3.1-70b-versatile''),
          user = Text (str ''Explain step by step:'' @ [10] @ t)\<rparr>]"
    if "httpMethod ev = str ''POST''" "truthy ?img" "\<not> no_math t"
      "groq_first_ocr e ?img w = (Inr t, w1)"
  proof -
    have "groq_first_try e ev w = answer (explainWithGroq_text e) t (JBool True) w1"
      using that by (simp add: groq_first_try_def pb d and_then_def lift_def)
    then have "snd (handler_groq_first e ev w) = snd (explainWithGroq_text e t (JBool True) w1)"
      using that(3) by (simp add: handler_groq_first_def snd_case answer_world)
    then show ?thesis
      by (simp add: explainWithGroq_text_world fetch_calls short_prompt_def)
  qed
  have p3: "calls (snd (handler_openrouter_first e ev w))
      = calls w1 @
        [\<lparr>url = GROQ_URL, authorization = bearer (GROQ_API_KEY e),
          model = env_or (GROQ_TEXT_MODEL e) (str ''llama-3.1-70b-versatile''),
          user = Text (str ''Explain step by step:'' @ [10] @ t)\<rparr>]"
    if "httpMethod ev = str ''POST''" "truthy ?img" "\<not> no_math t"
      "openrouter_first_ocr e ?img w = (Inr t, w1)"
  proof -
    have "openrouter_first_try e ev w = answer (runExplainWithGroq_text e) t (JBool True) w1"
      using that by (simp add: openrouter_first_try_def pb d and_then_def lift_def)
    then have "snd (handler_openrouter_first e ev w)
        = snd (runExplainWithGroq_text e t (JBool True) w1)"
      using that(3) by (simp add: handler_openrouter_first_def snd_case answer_world)
    then show ?thesis
      by (simp add: runExplainWithGroq_text_world fetch_calls short_prompt_def)
  qed
  show ?thesis
    using same1 same2 same3 p1 p2 p3
    by (simp add: handler_netlify_def handler_groq_first_def handler_openrouter_first_def)
qed

theorem stepByStep_defaults_to_true_witness:
  "handler_netlify both_keys
     \<lparr>httpMethod = str ''POST'',
      event_body = Some (Inr (JObj [(str ''imageDataUrl'', JStr (str ''data:image/png;base64,AAAA''))]))\<rparr>
     \<lparr>replies = [completion 200 (str ''1+1''), completion 200 (str ''2'')], calls = []\<rparr>
   = handler_netlify both_keys
     \<lparr>httpMethod = str ''POST'',
      event_body = Some (Inr (JObj [(str ''imageDataUrl'', JStr (str ''data:image/png;base64,AAAA'')),
                                    (str ''stepByStep'', JBool True)]))\<rparr>
     \<lparr>replies = [completion 200 (str ''1+1''), completion 200 (str ''2'')], calls = []\<rparr> \<and>
   calls (snd (handler_netlify both_keys
     \<lparr>httpMethod = str ''POST'',
      event_body = Some (Inr (JObj [(str ''imageDataUrl'', JStr (str ''data:image/png;base64,AAAA''))]))\<rparr>
     \<lparr>replies = [completion 200 (str ''1+1''), completion 200 (str ''2'')], calls = []\<rparr>))
   = [\<lparr>url = OPENROUTER_URL, authorization = str ''Bearer or-key'',
       model = str ''qwen2.5-vl-7b-instruct:free'',
       user = Vision (Input_image (JStr (str ''data:image/png;base64,AAAA'')))\<rparr>,
      \<lparr>url = GROQ_URL, authorization = str ''Bearer gq-key'', model = str ''llama3-70b-8192'',
       user = Text (str ''Explain step-by-step the following math work or expression:''
                    @ [10, 10] @ str ''1+1'' @ [10, 10] @
                    str ''If there are errors, correct them and show the right steps clearly.'')\<rparr>] \<and>
   calls (snd (handler_groq_first both_keys
     \<lparr>httpMethod = str ''POST'',
      event_body = Some (Inr (JObj [(str ''imageDataUrl'', JStr (str ''data:image/png;base64,AAAA''))]))\<rparr>
     \<lparr>replies = [completion 200 (str ''1+1''), completion 200 (str ''2'')], calls = []\<rparr>))
   = [\<lparr>url = GROQ_URL, authorization = str ''Bearer gq-key'',
       model = str ''llama-3.2-11b-vision-preview'',
       user = Vision (Image_url_object (JStr (str ''data:image/png;base64,AAAA'')))\<rparr>,
      \<lparr>url = GROQ_URL, authorization = str ''Bearer gq-key'',
       model = str ''llama-3.1-70b-versatile'',
       user = Text (str ''Explain step by step:'' @ [10] @ str ''1+1'')\<rparr>] \<and>
   calls (snd (handler_openrouter_first both_keys
     \<lparr>httpMethod = str ''POST'',
      event_body = Some (Inr (JObj [(str ''imageDataUrl'', JStr (str ''data:image/png;base64,AAAA''))]))\<rparr>
     \<lparr>replies = [completion 200 (str ''1+1''), completion 200 (str ''2'')], calls = []\<rparr>))
   = [\<lparr>url = OPENROUTER_URL, authorization = str ''Bearer or-key'', model = str ''gpt-4o-mini'',
       user = Vision (Input_image (JStr (str ''data:image/png;base64,AAAA'')))\<rparr>,
      \<lparr>url = GROQ_URL, authorization = str ''Bearer gq-key'',
       model = str ''llama-3.1-70b-versatile'',
       user = Text (str ''Explain step by step:'' @ [10] @ str ''1+1'')\<rparr>]"
proof -
  let ?kvs = "[(str ''imageDataUrl'', JStr (str ''data:image/png;base64,AAAA''))]"
  let ?ev = "\<lparr>httpMethod = str ''POST'', event_body = Some (Inr (JObj ?kvs))\<rparr>"
  let ?w = "\<lparr>replies = [completion 200 (str ''1+1''), completion 200 (str ''2'')], calls = []\<rparr>"
  let ?rest = "[completion 200 (str ''2'')]"
  have h: "event_body ?ev = Some (Inr (JObj ?kvs))" "map_of ?kvs (str ''stepByStep'') = None"
    by (simp_all add: str_def)
  have m: "\<not> no_math (str ''1+1'')"
    by (simp add: no_math_def math_char_def is_digit_def str_def)
  have img: "get_prop (JObj ?kvs) (str ''imageDataUrl'') = JStr (str ''data:image/png;base64,AAAA'')"
    by simp
  have 1: "runOCRWithOpenRouter both_keys (JStr (str ''data:image/png;base64,AAAA'')) ?w
      = (Inr (str ''1+1''),
         \<lparr>replies = ?rest,
          calls = [\<lparr>url = OPENROUTER_URL, authorization = str ''Bearer or-key'',
                    model = str ''qwen2.5-vl-7b-instruct:free'',
                    user = Vision (Input_image (JStr (str ''data:image/png;base64,AAAA'')))\<rparr>]\<rparr>)"
    by (simp add: ocr_eval_defs)
  have 2: "groq_first_ocr both_keys (JStr (str ''data:image/png;base64,AAAA'')) ?w
      = (Inr (str ''1+1''),
         \<lparr>replies = ?rest,
          calls = [\<lparr>url = GROQ_URL, authorization = str ''Bearer gq-key'',
                    model = str ''llama-3.2-11b-vision-preview'',
                    user = Vision (Image_url_object
                             (JStr (str ''data:image/png;base64,AAAA'')))\<rparr>]\<rparr>)"
    by (simp add: ocr_eval_defs)
  have 3: "openrouter_first_ocr both_keys (JStr (str ''data:image/png;base64,AAAA'')) ?w
      = (Inr (str ''1+1''),
         \<lparr>replies = ?rest,
          calls = [\<lparr>url = OPENROUTER_URL, authorization = str ''Bearer or-key'',
                    model = str ''gpt-4o-mini'',
                    user = Vision (Input_image (JStr (str ''data:image/png;base64,AAAA'')))\<rparr>]\<rparr>)"
    by (simp add: ocr_eval_defs)
  have k: "bearer (GROQ_API_KEY both_keys) = str ''Bearer gq-key''"
    "env_or (GROQ_TEXT_MODEL both_keys) (str ''llama-3.1-70b-versatile'')
       = str ''llama-3.1-70b-versatile''"
    by (simp_all add: both_keys_def bearer_def env_or_def unset_def str_def)
  let ?w1 = "\<lparr>replies = ?rest,
          calls = [\<lparr>url = OPENROUTER_URL, authorization = str ''Bearer or-key'',
                    model = str ''qwen2.5-vl-7b-instruct:free'',
                    user = Vision (Input_image (JStr (str ''data:image/png;base64,AAAA'')))\<rparr>]\<rparr>"
  let ?w2 = "\<lparr>replies = ?rest,
          calls = [\<lparr>url = GROQ_URL, authorization = str ''Bearer gq-key'',
                    model = str ''llama-3.2-11b-vision-preview'',
                    user = Vision (Image_url_object
                             (JStr (str ''data:image/png;base64,AAAA'')))\<rparr>]\<rparr>"
  let ?w3 = "\<lparr>replies = ?rest,
          calls = [\<lparr>url = OPENROUTER_URL, authorization = str ''Bearer or-key'',
                    model = str ''gpt-4o-mini'',
                    user = Vision (Input_image (JStr (str ''data:image/png;base64,AAAA'')))\<rparr>]\<rparr>"
  have p: "httpMethod ?ev = str ''POST''" "truthy (get_prop (JObj ?kvs) (str ''imageDataUrl''))"
    by (simp_all add: str_def)
  note t1 = stepByStep_defaults_to_true [OF h, of both_keys ?w "str ''1+1''" ?w1]
  note t2 = stepByStep_defaults_to_true [OF h, of both_keys ?w "str ''1+1''" ?w2]
  note t3 = stepByStep_defaults_to_true [OF h, of both_keys ?w "str ''1+1''" ?w3]
  have a: "handler_netlify both_keys ?ev ?w
      = handler_netlify both_keys
          \<lparr>httpMethod = str ''POST'',
           event_body = Some (Inr (JObj (?kvs @ [(str ''stepByStep'', JBool True)])))\<rparr> ?w"
    using t1 [THEN conjunct1] by simp
  have b1: "calls (snd (handler_netlify both_keys ?ev ?w))
      = calls ?w1 @
        [\<lparr>url = GROQ_URL, authorization = bearer (GROQ_API_KEY both_keys),
          model = str ''llama3-70b-8192'',
          user = Text (str ''Explain step-by-step the following math work or expression:''
                       @ [10, 10] @ str ''1+1'' @ [10, 10] @
                       str ''If there are errors, correct them and show the right steps clearly.'')\<rparr>]"
    using t1 [THEN conjunct2, THEN conjunct2, THEN conjunct2] p m 1 img by simp
  have b2: "calls (snd (handler_groq_first both_keys ?ev ?w))
      = calls ?w2 @
        [\<lparr>url = GROQ_URL, authorization = bearer (GROQ_API_KEY both_keys),
          model = env_or (GROQ_TEXT_MODEL both_keys) (str ''llama-3.1-70b-versatile''),
          user = Text (str ''Explain step by step:'' @ [10] @ str ''1+1'')\<rparr>]"
    using t2 [THEN conjunct2, THEN conjunct2, THEN conjunct2] p m 2 img by simp
  have b3: "calls (snd (handler_openrouter_first both_keys ?ev ?w))
      = calls ?w3 @
        [\<lparr>url = GROQ_URL, authorization = bearer (GROQ_API_KEY both_keys),
          model = env_or (GROQ_TEXT_MODEL both_keys) (str ''llama-3.1-70b-versatile''),
          user = Text (str ''Explain step by step:'' @ [10] @ str ''1+1'')\<rparr>]"
    using t3 [THEN conjunct2, THEN conjunct2, THEN conjunct2] p m 3 img by simp
  show ?thesis
    unfolding b1 b2 b3 k using a by simp
qed

lemma shaped_ret: "well_shaped r \<Longrightarrow> shaped (ret r)"
  by (simp add: shaped_def ret_def)

lemma shaped_throw: "shaped (throw err)"
  by (simp add: shaped_def throw_def)

lemma shaped_and_then:
  assumes "\<And>x. shaped (f x)"
  shows "shaped (and_then m f)"
proof -
  have "case fst (and_then m f w) of Inl err \<Rightarrow> True | Inr r \<Rightarrow> well_shaped r" for w
  proof (cases "m w")
    case (Pair a w')
    show ?thesis
    proof (cases a)
      case (Inl err)
      with Pair show ?thesis by (simp add: and_then_def)
    next
      case (Inr x)
      have "case fst (f x w') of Inl err \<Rightarrow> True | Inr r \<Rightarrow> well_shaped r"
        using assms [of x] by (simp add: shaped_def)
      with Pair Inr show ?thesis by (simp add: and_then_def)
    qed
  qed
  then show ?thesis by (simp add: shaped_def)
qed

lemma shaped_if: "shaped a \<Longrightarrow> shaped b \<Longrightarrow> shaped (if c then a else b)"
  by simp

lemma shaped_case_sum:
  "(\<And>x. shaped (f x)) \<Longrightarrow> (\<And>y. shaped (g y)) \<Longrightarrow> shaped (case s of Inl x \<Rightarrow> f x | Inr y \<Rightarrow> g y)"
  by (cases s) auto

lemma shaped_case_option:
  "shaped a \<Longrightarrow> (\<And>y. shaped (g y)) \<Longrightarrow> shaped (case s of None \<Rightarrow> a | Some y \<Rightarrow> g y)"
  by (cases s) auto

lemma shaped_case_prod: "(\<And>x y. shaped (f x y)) \<Longrightarrow> shaped (case p of (x, y) \<Rightarrow> f x y)"
  by (cases p) auto

lemmas shaped_intros =
  shaped_ret shaped_throw shaped_and_then shaped_if shaped_case_sum shaped_case_option
  shaped_case_prod

lemma well_shaped_error_only:
  "n = 400 \<or> n = 405 \<or> n = 413 \<or> n = 500 \<or> n = 502 \<Longrightarrow> well_shaped (json n (error_only tag))"
  by (auto simp: well_shaped_def has_error_tag_def json_def error_only_def)

lemma well_shaped_error_first:
  "n = 400 \<or> n = 405 \<or> n = 413 \<or> n = 500 \<or> n = 502 \<Longrightarrow>
   well_shaped (json n (JObj ((str ''error'', JStr tag) # others)))"
  by (auto simp: well_shaped_def has_error_tag_def json_def)

lemma well_shaped_200: "well_shaped (json 200 b)"
  by (simp add: well_shaped_def json_def)

lemma well_shaped_pipeline_error: "well_shaped (pipeline_error err)"
  by (simp add: pipeline_error_def well_shaped_error_first)

lemma shaped_api_try: "shaped (api_try e req)"
  unfolding api_try_def api_explain_def Let_def
  by (intro shaped_intros well_shaped_error_only well_shaped_error_first well_shaped_200) simp_all

lemma shaped_web_try: "shaped (web_try e req)"
  unfolding web_try_def Let_def
  by (intro shaped_intros well_shaped_error_only well_shaped_error_first well_shaped_200) simp_all

lemma shaped_netlify_try: "shaped (netlify_try e ev)"
  unfolding netlify_try_def answer_def
  by (intro shaped_intros well_shaped_error_only well_shaped_error_first well_shaped_200) simp_all

lemma well_shaped_handlers:
  "well_shaped (fst (handler_api e req w))"
  "well_shaped (fst (handler_web e wreq w))"
  "well_shaped (fst (handler_netlify e ev w))"
proof -
  show "well_shaped (fst (handler_api e req w))"
    using shaped_api_try [of e req]
    by (auto simp: shaped_def handler_api_def well_shaped_error_only
             split: prod.splits sum.splits dest: spec [of _ w])
  show "well_shaped (fst (handler_web e wreq w))"
    using shaped_web_try [of e wreq]
    by (auto simp: shaped_def handler_web_def well_shaped_error_only
             split: prod.splits sum.splits dest: spec [of _ w])
  show "well_shaped (fst (handler_netlify e ev w))"
    using shaped_netlify_try [of e ev]
    by (auto simp: shaped_def handler_netlify_def well_shaped_pipeline_error
             split: prod.splits sum.splits dest: spec [of _ w])
qed

lemma starts_with_append:
  "starts_with (p @ q) s \<Longrightarrow> starts_with p s"
proof -
  assume "starts_with (p @ q) s"
  then have a: "take (length (p @ q)) s = p @ q" by (simp add: starts_with_def)
  have "take (length p) s = take (length p) (take (length (p @ q)) s)" by (simp add: min_def)
  also have "\<dots> = p" using a by simp
  finally show ?thesis by (simp add: starts_with_def)
qed

lemma data_image_is_data:
  "starts_with (str ''data:image/'') s \<Longrightarrow> starts_with (str ''data:'') s"
proof -
  have "str ''data:image/'' = str ''data:'' @ str ''image/''" by (simp add: str_def)
  then show "starts_with (str ''data:image/'') s \<Longrightarrow> starts_with (str ''data:'') s"
    using starts_with_append by metis
qed

text \<open>
  Claim C7, as amended. Every response of the handler of api/pipeline.js, of the
  Response-based handler and of the handler of netlify/functions/pipeline.js has status 200
  or is a JSON object with an \<open>error\<close> string and one of the statuses 400, 405, 413, 500,
  502. By cause: a method other than POST gives 405; a body without an image (as in claim
  C1) gives 400, but a body that is not JSON gives 500 in netlify/functions/pipeline.js; an
  image of more than 6,000,000 characters gives 413 in the Response-based handler; a
  missing OpenRouter key gives 500 in the first two handlers, and so does a missing Groq
  key once the OCR has answered; whatever is thrown inside the \<open>try\<close> of a handler gives
  500, as a request that fails altogether and an OCR answer that is not JSON do; an OCR
  response that is not ok gives 502 in api/pipeline.js, as does an explanation response
  that is not ok, while the other two handlers throw it and answer 500.
\<close>

theorem failure_responses:
  "well_shaped (fst (handler_api e req w)) \<and>
   well_shaped (fst (handler_web e wreq w)) \<and>
   well_shaped (fst (handler_netlify e ev w)) \<and>
   (req_method req \<noteq> str ''POST'' \<longrightarrow>
      handler_api e req w = (json 405 (error_only ''method_not_allowed''), w)) \<and>
   (web_method wreq \<noteq> str ''POST'' \<longrightarrow>
      handler_web e wreq w = (json 405 (error_only ''method_not_allowed''), w)) \<and>
   (httpMethod ev \<noteq> str ''POST'' \<longrightarrow>
      handler_netlify e ev w = (json 405 (error_only ''Method Not Allowed''), w)) \<and>
   (req_method req = str ''POST'' \<and> \<not> image_field (req_body req) \<longrightarrow>
      statusCode (fst (handler_api e req w)) = 400) \<and>
   (web_method wreq = str ''POST'' \<and>
    (case web_json wreq of Inl m \<Rightarrow> True | Inr c \<Rightarrow> \<not> image_field c) \<longrightarrow>
      statusCode (fst (handler_web e wreq w)) = 400) \<and>
   (httpMethod ev = str ''POST'' \<and>
    (case event_body ev of
       None \<Rightarrow> True
     | Some (Inl m) \<Rightarrow> False
     | Some (Inr c) \<Rightarrow> \<not> nullish c \<and> \<not> truthy (get_prop c (str ''imageDataUrl''))) \<longrightarrow>
      statusCode (fst (handler_netlify e ev w)) = 400) \<and>
   (httpMethod ev = str ''POST'' \<and> event_body ev = Some (Inl n) \<longrightarrow>
      handler_netlify e ev w = (pipeline_error (Thrown n), w)) \<and>
   (api_try e req w = (Inl err, w1) \<longrightarrow>
      handler_api e req w = (json 500 (error_only ''pipeline_exception''), w1)) \<and>
   (web_try e wreq w = (Inl err, w1) \<longrightarrow>
      handler_web e wreq w = (json 500 (error_only ''pipeline_exception''), w1)) \<and>
   (netlify_try e ev w = (Inl err, w1) \<longrightarrow>
      handler_netlify e ev w = (pipeline_error err, w1) \<and>
      statusCode (pipeline_error err) = 500) \<and>
   (get_prop b (str ''imageDataUrl'') = JStr s \<and> starts_with (str ''data:image/'') s \<longrightarrow>
      (web_method wreq = str ''POST'' \<and> web_json wreq = Inr b \<and> 6000000 < length s \<longrightarrow>
         statusCode (fst (handler_web e wreq w)) = 413) \<and>
      (req_method req = str ''POST'' \<and> req_body req = b \<and> unset (OPENROUTER_API_KEY e) \<longrightarrow>
         statusCode (fst (handler_api e req w)) = 500) \<and>
      (web_method wreq = str ''POST'' \<and> web_json wreq = Inr b \<and> length s \<le> 6000000 \<and>
       unset (OPENROUTER_API_KEY e) \<longrightarrow>
         statusCode (fst (handler_web e wreq w)) = 500) \<and>
      (req_method req = str ''POST'' \<and> req_body req = b \<and> \<not> unset (OPENROUTER_API_KEY e) \<and>
       unset (GROQ_API_KEY e) \<and> replies w = Reply r # rs \<and> ok r \<and>
       json_body r = Inr j \<and> opt_trim (message_content j) = Inr t \<longrightarrow>
         fst (handler_api e req w) = json 500 (error_only ''missing_groq_key'')) \<and>
      (web_method wreq = str ''POST'' \<and> web_json wreq = Inr b \<and> length s \<le> 6000000 \<and>
       \<not> unset (OPENROUTER_API_KEY e) \<and> unset (GROQ_API_KEY e) \<and>
       ocrWithQwen (OPENROUTER_API_KEY e) s w = (Inr transcript, w2) \<longrightarrow>
         handler_web e wreq w = (json 500 (error_only ''missing_groq_key''), w2)) \<and>
      (req_method req = str ''POST'' \<and> req_body req = b \<and> \<not> unset (OPENROUTER_API_KEY e) \<and>
       replies w = Reply r # rs \<and> ok r \<and> json_body r = Inl n \<longrightarrow>
         fst (handler_api e req w) = json 500 (error_only ''pipeline_exception'')) \<and>
      (web_method wreq = str ''POST'' \<and> web_json wreq = Inr b \<and> length s \<le> 6000000 \<and>
       \<not> unset (OPENROUTER_API_KEY e) \<and> \<not> unset (GROQ_API_KEY e) \<and>
       ocrWithQwen (OPENROUTER_API_KEY e) s w = (Inr transcript, w2) \<and>
       replies w2 = Reply q # rs \<and> \<not> ok q \<longrightarrow>
         fst (handler_web e wreq w) = json 500 (error_only ''pipeline_exception'')) \<and>
      (req_method req = str ''POST'' \<and> req_body req = b \<and> \<not> unset (OPENROUTER_API_KEY e) \<and>
       replies w = Reply r # rs \<and> \<not> ok r \<longrightarrow>
         fst (handler_api e req w)
           = json 502 (JObj [(str ''error'', JStr (str ''openrouter_failed'')),
                             (str ''detail'', JStr (take 400 (text_or r [])))])) \<and>
      (req_method req = str ''POST'' \<and> req_body req = b \<and> \<not> unset (OPENROUTER_API_KEY e) \<and>
       \<not> unset (GROQ_API_KEY e) \<and> replies w = Reply r # Reply q # rs \<and> ok r \<and>
       json_body r = Inr j \<and> opt_trim (message_content j) = Inr t \<and> \<not> ok q \<longrightarrow>
         statusCode (fst (handler_api e req w)) = 502) \<and>
      (web_method wreq = str ''POST'' \<and> web_json wreq = Inr b \<and> length s \<le> 6000000 \<and>
       \<not> unset (OPENROUTER_API_KEY e) \<and> replies w = Reply r # rs \<and> \<not> ok r \<longrightarrow>
         fst (handler_web e wreq w) = json 500 (error_only ''pipeline_exception'')) \<and>
      (httpMethod ev = str ''POST'' \<and> event_body ev = Some (Inr b) \<and>
       replies w = Reply r # rs \<and> \<not> ok r \<longrightarrow>
         statusCode (fst (handler_netlify e ev w)) = 500) \<and>
      (replies w = Failed m # rs \<longrightarrow>
         (req_method req = str ''POST'' \<and> req_body req = b \<and> \<not> unset (OPENROUTER_API_KEY e) \<longrightarrow>
            fst (handler_api e req w) = json 500 (error_only ''pipeline_exception'')) \<and>
         (web_method wreq = str ''POST'' \<and> web_json wreq = Inr b \<and> length s \<le> 6000000 \<and>
          \<not> unset (OPENROUTER_API_KEY e) \<longrightarrow>
            fst (handler_web e wreq w) = json 500 (error_only ''pipeline_exception'')) \<and>
         (httpMethod ev = str ''POST'' \<and> event_body ev = Some (Inr b) \<longrightarrow>
            statusCode (fst (handler_netlify e ev w)) = 500)))"
proof -
  let ?m1 = "req_method req \<noteq> str ''POST'' \<longrightarrow>
      handler_api e req w = (json 405 (error_only ''method_not_allowed''), w)"
  let ?m2 = "web_method wreq \<noteq> str ''POST'' \<longrightarrow>
      handler_web e wreq w = (json 405 (error_only ''method_not_allowed''), w)"
  let ?m3 = "httpMethod ev \<noteq> str ''POST'' \<longrightarrow>
      handler_netlify e ev w = (json 405 (error_only ''Method Not Allowed''), w)"
  let ?i1 = "req_method req = str ''POST'' \<and> \<not> image_field (req_body req) \<longrightarrow>
      statusCode (fst (handler_api e req w)) = 400"
  let ?i2 = "web_method wreq = str ''POST'' \<and>
    (case web_json wreq of Inl m \<Rightarrow> True | Inr c \<Rightarrow> \<not> image_field c) \<longrightarrow>
      statusCode (fst (handler_web e wreq w)) = 400"
  let ?i3 = "httpMethod ev = str ''POST'' \<and>
    (case event_body ev of
       None \<Rightarrow> True
     | Some (Inl m) \<Rightarrow> False
     | Some (Inr c) \<Rightarrow> \<not> nullish c \<and> \<not> truthy (get_prop c (str ''imageDataUrl''))) \<longrightarrow>
      statusCode (fst (handler_netlify e ev w)) = 400"
  let ?p3 = "httpMethod ev = str ''POST'' \<and> event_body ev = Some (Inl n) \<longrightarrow>
      handler_netlify e ev w = (pipeline_error (Thrown n), w)"
  let ?c1 = "api_try e req w = (Inl err, w1) \<longrightarrow>
      handler_api e req w = (json 500 (error_only ''pipeline_exception''), w1)"
  let ?c2 = "web_try e wreq w = (Inl err, w1) \<longrightarrow>
      handler_web e wreq w = (json 500 (error_only ''pipeline_exception''), w1)"
  let ?c3 = "netlify_try e ev w = (Inl err, w1) \<longrightarrow>
      handler_netlify e ev w = (pipeline_error err, w1) \<and>
      statusCode (pipeline_error err) = 500"
  let ?g1 = "req_method req = str ''POST'' \<and> req_body req = b \<and> \<not> unset (OPENROUTER_API_KEY e) \<and>
       unset (GROQ_API_KEY e) \<and> replies w = Reply r # rs \<and> ok r \<and>
       json_body r = Inr j \<and> opt_trim (message_content j) = Inr t \<longrightarrow>
         fst (handler_api e req w) = json 500 (error_only ''missing_groq_key'')"
  let ?g2 = "web_method wreq = str ''POST'' \<and> web_json wreq = Inr b \<and> length s \<le> 6000000 \<and>
       \<not> unset (OPENROUTER_API_KEY e) \<and> unset (GROQ_API_KEY e) \<and>
       ocrWithQwen (OPENROUTER_API_KEY e) s w = (Inr transcript, w2) \<longrightarrow>
         handler_web e wreq w = (json 500 (error_only ''missing_groq_key''), w2)"
  let ?j1 = "req_method req = str ''POST'' \<and> req_body req = b \<and> \<not> unset (OPENROUTER_API_KEY e) \<and>
       replies w = Reply r # rs \<and> ok r \<and> json_body r = Inl n \<longrightarrow>
         fst (handler_api e req w) = json 500 (error_only ''pipeline_exception'')"
  let ?u5 = "web_method wreq = str ''POST'' \<and> web_json wreq = Inr b \<and> length s \<le> 6000000 \<and>
       \<not> unset (OPENROUTER_API_KEY e) \<and> \<not> unset (GROQ_API_KEY e) \<and>
       ocrWithQwen (OPENROUTER_API_KEY e) s w = (Inr transcript, w2) \<and>
       replies w2 = Reply q # rs \<and> \<not> ok q \<longrightarrow>
         fst (handler_web e wreq w) = json 500 (error_only ''pipeline_exception'')"
  let ?o1 = "web_method wreq = str ''POST'' \<and> web_json wreq = Inr b \<and> 6000000 < length s \<longrightarrow>
         statusCode (fst (handler_web e wreq w)) = 413"
  let ?k1 = "req_method req = str ''POST'' \<and> req_body req = b \<and> unset (OPENROUTER_API_KEY e) \<longrightarrow>
         statusCode (fst (handler_api e req w)) = 500"
  let ?k2 = "web_method wreq = str ''POST'' \<and> web_json wreq = Inr b \<and> length s \<le> 6000000 \<and>
       unset (OPENROUTER_API_KEY e) \<longrightarrow>
         statusCode (fst (handler_web e wreq w)) = 500"
  let ?u1 = "req_method req = str ''POST'' \<and> req_body req = b \<and> \<not> unset (OPENROUTER_API_KEY e) \<and>
       replies w = Reply r # rs \<and> \<not> ok r \<longrightarrow>
         fst (handler_api e req w)
           = json 502 (JObj [(str ''error'', JStr (str ''openrouter_failed'')),
                             (str ''detail'', JStr (take 400 (text_or r [])))])"
  let ?u2 = "req_method req = str ''POST'' \<and> req_body req = b \<and> \<not> unset (OPENROUTER_API_KEY e) \<and>
       \<not> unset (GROQ_API_KEY e) \<and> replies w = Reply r # Reply q # rs \<and> ok r \<and>
       json_body r = Inr j \<and> opt_trim (message_content j) = Inr t \<and> \<not> ok q \<longrightarrow>
         statusCode (fst (handler_api e req w)) = 502"
  let ?u3 = "web_method wreq = str ''POST'' \<and> web_json wreq = Inr b \<and> length s \<le> 6000000 \<and>
       \<not> unset (OPENROUTER_API_KEY e) \<and> replies w = Reply r # rs \<and> \<not> ok r \<longrightarrow>
         fst (handler_web e wreq w) = json 500 (error_only ''pipeline_exception'')"
  let ?u4 = "httpMethod ev = str ''POST'' \<and> event_body ev = Some (Inr b) \<and>
       replies w = Reply r # rs \<and> \<not> ok r \<longrightarrow>
         statusCode (fst (handler_netlify e ev w)) = 500"
  let ?x1 = "req_method req = str ''POST'' \<and> req_body req = b \<and> \<not> unset (OPENROUTER_API_KEY e) \<longrightarrow>
            fst (handler_api e req w) = json 500 (error_only ''pipeline_exception'')"
  let ?x2 = "web_method wreq = str ''POST'' \<and> web_json wreq = Inr b \<and> length s \<le> 6000000 \<and>
          \<not> unset (OPENROUTER_API_KEY e) \<longrightarrow>
            fst (handler_web e wreq w) = json 500 (error_only ''pipeline_exception'')"
  let ?x3 = "httpMethod ev = str ''POST'' \<and> event_body ev = Some (Inr b) \<longrightarrow>
            statusCode (fst (handler_netlify e ev w)) = 500"
  have m1: ?m1
    by (simp add: handler_api_def api_try_def ret_def)
  have m2: ?m2
    by (simp add: handler_web_def web_try_def ret_def)
  have m3: ?m3
    by (simp add: handler_netlify_def netlify_try_def ret_def)
  have i1: ?i1
    by (simp add: handler_api_def api_try_def get_prop_or_else invalid_image_field ret_def
        json_def)
  have i2: ?i2
    by (auto simp: handler_web_def web_try_def get_prop_or_else invalid_image_field ret_def
        json_def split: sum.splits)
  have i3: ?i3
    by (auto simp: handler_netlify_def netlify_try_def parse_body_def destructure_def
        and_then_def lift_def ret_def json_def split: option.splits sum.splits)
  have p3: ?p3
    by (simp add: handler_netlify_def netlify_try_def parse_body_def and_then_def lift_def)
  have c1: ?c1 by (simp add: handler_api_def)
  have c2: ?c2 by (simp add: handler_web_def)
  have c3: ?c3 by (simp add: handler_netlify_def pipeline_error_def json_def)
  have valid: "?o1 \<and> ?k1 \<and> ?k2 \<and> ?g1 \<and> ?g2 \<and> ?j1 \<and> ?u5 \<and> ?u1 \<and> ?u2 \<and> ?u3 \<and> ?u4 \<and>
      (replies w = Failed m # rs \<longrightarrow> ?x1 \<and> ?x2 \<and> ?x3)"
    if img: "get_prop b (str ''imageDataUrl'') = JStr s" "starts_with (str ''data:image/'') s"
  proof -
    note v = valid_image_string [OF img(2)]
    have d: "starts_with (str ''data:'') s" using img(2) by (rule data_image_is_data)
    have nn: "\<not> nullish b" "s \<noteq> []"
      using img by (cases b; auto simp: starts_with_def str_def)+
    have o1: ?o1
      using img v
      by (simp add: handler_web_def web_try_def get_prop_or_else ret_def json_def)
    have k1: ?k1
      using img v
      by (simp add: handler_api_def api_try_def get_prop_or_else ret_def json_def)
    have k2: ?k2
      using img v
      by (simp add: handler_web_def web_try_def get_prop_or_else ret_def json_def)
    have g1: ?g1
      using img v
      by (simp add: handler_api_def api_try_def api_explain_def get_prop_or_else fetch_def
          and_then_def lift_def read_json_def ret_def Let_def)
    have g2: ?g2
      using img v
      by (simp add: handler_web_def web_try_def get_prop_or_else and_then_def ret_def Let_def)
    have j1: ?j1
      using img v
      by (simp add: handler_api_def api_try_def get_prop_or_else fetch_def and_then_def
          lift_def read_json_def ret_def)
    have u5: ?u5
      using img v
      by (simp add: handler_web_def web_try_def get_prop_or_else explainWithGroq_def
          fetch_def and_then_def throw_def ret_def Let_def)
    have u1: ?u1
      using img v
      by (simp add: handler_api_def api_try_def get_prop_or_else fetch_def and_then_def ret_def)
    have u2: ?u2
      using img v
      by (simp add: handler_api_def api_try_def api_explain_def get_prop_or_else fetch_def
          and_then_def lift_def read_json_def ret_def json_def Let_def)
    have u3: ?u3
      using img v
      by (simp add: handler_web_def web_try_def get_prop_or_else ocrWithQwen_def
          callOpenRouter_def fetch_def and_then_def throw_def ret_def Let_def)
    have u4: ?u4
      using img d nn
      by (simp add: handler_netlify_def netlify_try_def parse_body_def destructure_def
          runOCRWithOpenRouter_def dataUrlToParts_def fetch_def and_then_def lift_def throw_def
          ret_def pipeline_error_def json_def Let_def)
    have x: "?x1 \<and> ?x2 \<and> ?x3" if f: "replies w = Failed m # rs"
    proof -
      have x1: ?x1
        using f img v
        by (simp add: handler_api_def api_try_def get_prop_or_else fetch_def and_then_def
            ret_def)
      have x2: ?x2
        using f img v
        by (simp add: handler_web_def web_try_def get_prop_or_else ocrWithQwen_def
            callOpenRouter_def fetch_def and_then_def throw_def ret_def Let_def)
      have x3: ?x3
        using f img d nn
        by (simp add: handler_netlify_def netlify_try_def parse_body_def destructure_def
            runOCRWithOpenRouter_def dataUrlToParts_def fetch_def and_then_def lift_def
            throw_def ret_def pipeline_error_def json_def Let_def)
      from x1 x2 x3 show ?thesis by (intro conjI)
    qed
    from x have xs: "replies w = Failed m # rs \<longrightarrow> ?x1 \<and> ?x2 \<and> ?x3" by (rule impI)
    from o1 k1 k2 g1 g2 j1 u5 u1 u2 u3 u4 xs show ?thesis by (intro conjI)
  qed
  from valid have vs: "get_prop b (str ''imageDataUrl'') = JStr s \<and>
      starts_with (str ''data:image/'') s \<longrightarrow>
      ?o1 \<and> ?k1 \<and> ?k2 \<and> ?g1 \<and> ?g2 \<and> ?j1 \<and> ?u5 \<and> ?u1 \<and> ?u2 \<and> ?u3 \<and> ?u4 \<and>
      (replies w = Failed m # rs \<longrightarrow> ?x1 \<and> ?x2 \<and> ?x3)"
    by (intro impI) (elim conjE)
  from well_shaped_handlers(1) [of e req w] well_shaped_handlers(2) [of e wreq w]
    well_shaped_handlers(3) [of e ev w] m1 m2 m3 i1 i2 i3 p3 c1 c2 c3 vs
  show ?thesis by (intro conjI)
qed

theorem failure_responses_witness:
  "well_shaped (fst (handler_api both_keys
       \<lparr>req_method = str ''GET'', req_body = JUndefined\<rparr> silent)) \<and>
   well_shaped (fst (handler_web both_keys
       \<lparr>web_method = str ''GET'', web_json = Inl (str ''Unexpected end of JSON input'')\<rparr>
       silent)) \<and>
   well_shaped (fst (handler_netlify both_keys
       \<lparr>httpMethod = str ''GET'', event_body = None\<rparr> silent)) \<and>
   handler_api both_keys \<lparr>req_method = str ''GET'', req_body = JUndefined\<rparr> silent
     = (json 405 (error_only ''method_not_allowed''), silent) \<and>
   handler_web both_keys
       \<lparr>web_method = str ''GET'', web_json = Inl (str ''Unexpected end of JSON input'')\<rparr> silent
     = (json 405 (error_only ''method_not_allowed''), silent) \<and>
   handler_netlify both_keys \<lparr>httpMethod = str ''GET'', event_body = None\<rparr> silent
     = (json 405 (error_only ''Method Not Allowed''), silent) \<and>
   statusCode (fst (handler_api both_keys
       \<lparr>req_method = str ''POST'', req_body = JObj []\<rparr> silent)) = 400 \<and>
   statusCode (fst (handler_web both_keys
       \<lparr>web_method = str ''POST'', web_json = Inr (JObj [])\<rparr> silent)) = 400 \<and>
   statusCode (fst (handler_netlify both_keys
       \<lparr>httpMethod = str ''POST'', event_body = Some (Inr (JObj []))\<rparr> silent)) = 400 \<and>
   statusCode (fst (handler_web no_env
       \<lparr>web_method = str ''POST'',
        web_json = Inr (image_body (str ''data:image/jpeg;base64,'' @ replicate 6000000 65))\<rparr>
       silent)) = 413 \<and>
   statusCode (fst (handler_api no_env
       \<lparr>req_method = str ''POST'', req_body = image_body (str ''data:image/jpeg;base64,AAAA'')\<rparr>
       silent)) = 500 \<and>
   statusCode (fst (handler_web no_env
       \<lparr>web_method = str ''POST'',
        web_json = Inr (image_body (str ''data:image/jpeg;base64,AAAA''))\<rparr> silent)) = 500 \<and>
   fst (handler_api both_keys
       \<lparr>req_method = str ''POST'', req_body = image_body (str ''data:image/jpeg;base64,AAAA'')\<rparr>
       \<lparr>replies = [completion 503 []], calls = []\<rparr>)
     = json 502 (JObj [(str ''error'', JStr (str ''openrouter_failed'')),
                       (str ''detail'', JStr [])]) \<and>
   statusCode (fst (handler_api both_keys
       \<lparr>req_method = str ''POST'', req_body = image_body (str ''data:image/jpeg;base64,AAAA'')\<rparr>
       \<lparr>replies = [completion 200 (str ''1+1''), completion 503 []], calls = []\<rparr>)) = 502 \<and>
   fst (handler_web both_keys
       \<lparr>web_method = str ''POST'',
        web_json = Inr (image_body (str ''data:image/jpeg;base64,AAAA''))\<rparr>
       \<lparr>replies = [completion 503 []], calls = []\<rparr>)
     = json 500 (error_only ''pipeline_exception'') \<and>
   statusCode (fst (handler_netlify both_keys
       \<lparr>httpMethod = str ''POST'',
        event_body = Some (Inr (image_body (str ''data:image/jpeg;base64,AAAA'')))\<rparr>
       \<lparr>replies = [completion 503 []], calls = []\<rparr>)) = 500 \<and>
   fst (handler_api both_keys
       \<lparr>req_method = str ''POST'', req_body = image_body (str ''data:image/jpeg;base64,AAAA'')\<rparr>
       \<lparr>replies = [Failed (str ''fetch failed'')], calls = []\<rparr>)
     = json 500 (error_only ''pipeline_exception'') \<and>
   fst (handler_web both_keys
       \<lparr>web_method = str ''POST'',
        web_json = Inr (image_body (str ''data:image/jpeg;base64,AAAA''))\<rparr>
       \<lparr>replies = [Failed (str ''fetch failed'')], calls = []\<rparr>)
     = json 500 (error_only ''pipeline_exception'') \<and>
   statusCode (fst (handler_netlify both_keys
       \<lparr>httpMethod = str ''POST'',
        event_body = Some (Inr (image_body (str ''data:image/jpeg;base64,AAAA'')))\<rparr>
       \<lparr>replies = [Failed (str ''fetch failed'')], calls = []\<rparr>)) = 500 \<and>
   handler_netlify both_keys
       \<lparr>httpMethod = str ''POST'', event_body = Some (Inl (str ''Unexpected token''))\<rparr> silent
     = (pipeline_error (Thrown (str ''Unexpected token'')), silent) \<and>
   handler_api both_keys
       \<lparr>req_method = str ''POST'', req_body = image_body (str ''data:image/jpeg;base64,AAAA'')\<rparr>
       \<lparr>replies = [Failed (str ''fetch failed'')], calls = []\<rparr>
     = (json 500 (error_only ''pipeline_exception''),
        \<lparr>replies = [],
         calls = [api_ocr_call (Some (str ''or-key'')) (str ''data:image/jpeg;base64,AAAA'')]\<rparr>) \<and>
   handler_web both_keys
       \<lparr>web_method = str ''POST'',
        web_json = Inr (image_body (str ''data:image/jpeg;base64,AAAA''))\<rparr>
       \<lparr>replies = [Failed (str ''fetch failed'')], calls = []\<rparr>
     = (json 500 (error_only ''pipeline_exception''),
        \<lparr>replies = [],
         calls = [qwen_call (Some (str ''or-key''))
                    (Image_url_object (JStr (str ''data:image/jpeg;base64,AAAA'')))]\<rparr>) \<and>
   fst (handler_netlify both_keys
       \<lparr>httpMethod = str ''POST'',
        event_body = Some (Inr (image_body (str ''data:image/jpeg;base64,AAAA'')))\<rparr>
       \<lparr>replies = [Failed (str ''fetch failed'')], calls = []\<rparr>)
     = pipeline_error (Thrown (str ''fetch failed'')) \<and>
   fst (handler_api openrouter_only
       \<lparr>req_method = str ''POST'', req_body = image_body (str ''data:image/jpeg;base64,AAAA'')\<rparr>
       \<lparr>replies = [completion 200 (str ''1+1'')], calls = []\<rparr>)
     = json 500 (error_only ''missing_groq_key'') \<and>
   handler_web openrouter_only
       \<lparr>web_method = str ''POST'',
        web_json = Inr (image_body (str ''data:image/jpeg;base64,AAAA''))\<rparr>
       \<lparr>replies = [completion 200 (str ''1+1'')], calls = []\<rparr>
     = (json 500 (error_only ''missing_groq_key''),
        \<lparr>replies = [],
         calls = [qwen_call (Some (str ''or-key''))
                    (Image_url_object (JStr (str ''data:image/jpeg;base64,AAAA'')))]\<rparr>) \<and>
   fst (handler_api both_keys
       \<lparr>req_method = str ''POST'', req_body = image_body (str ''data:image/jpeg;base64,AAAA'')\<rparr>
       \<lparr>replies = [Reply \<lparr>http_status = 200, statusText = [], text_body = Some [],
                            json_body = Inl (str ''Unexpected token'')\<rparr>],
        calls = []\<rparr>)
     = json 500 (error_only ''pipeline_exception'') \<and>
   fst (handler_web both_keys
       \<lparr>web_method = str ''POST'',
        web_json = Inr (image_body (str ''data:image/jpeg;base64,AAAA''))\<rparr>
       \<lparr>replies = [completion 200 (str ''1+1''), completion 503 []], calls = []\<rparr>)
     = json 500 (error_only ''pipeline_exception'')"
proof -
  let ?small = "str ''data:image/jpeg;base64,AAAA''"
  let ?large = "str ''data:image/jpeg;base64,'' @ replicate 6000000 65"
  let ?req = "\<lparr>req_method = str ''POST'', req_body = image_body ?small\<rparr>"
  let ?wreq = "\<lparr>web_method = str ''POST'', web_json = Inr (image_body ?small)\<rparr>"
  let ?ev = "\<lparr>httpMethod = str ''POST'', event_body = Some (Inr (image_body ?small))\<rparr>"
  let ?bad = "\<lparr>http_status = 503, statusText = [], text_body = Some [],
               json_body = Inr (JObj [(str ''choices'',
                 JArr [JObj [(str ''message'', JObj [(str ''content'', JStr [])])]])])\<rparr>"
  let ?good = "\<lparr>http_status = 200, statusText = [], text_body = Some [],
               json_body = Inr (JObj [(str ''choices'',
                 JArr [JObj [(str ''message'', JObj [(str ''content'', JStr (str ''1+1''))])]])])\<rparr>"
  note defs = image_field_def image_body_def starts_with_def str_def unset_def no_env_def
    both_keys_def ok_def completion_def text_or_def silent_def
  have a: "well_shaped (fst (handler_api both_keys
         \<lparr>req_method = str ''GET'', req_body = JUndefined\<rparr> silent)) \<and>
     well_shaped (fst (handler_web both_keys
         \<lparr>web_method = str ''GET'', web_json = Inl (str ''Unexpected end of JSON input'')\<rparr>
         silent)) \<and>
     well_shaped (fst (handler_netlify both_keys
         \<lparr>httpMethod = str ''GET'', event_body = None\<rparr> silent)) \<and>
     handler_api both_keys \<lparr>req_method = str ''GET'', req_body = JUndefined\<rparr> silent
       = (json 405 (error_only ''method_not_allowed''), silent) \<and>
     handler_web both_keys
         \<lparr>web_method = str ''GET'', web_json = Inl (str ''Unexpected end of JSON input'')\<rparr> silent
       = (json 405 (error_only ''method_not_allowed''), silent) \<and>
     handler_netlify both_keys \<lparr>httpMethod = str ''GET'', event_body = None\<rparr> silent
       = (json 405 (error_only ''Method Not Allowed''), silent)"
    using failure_responses
      [where e = both_keys and w = silent
         and req = "\<lparr>req_method = str ''GET'', req_body = JUndefined\<rparr>"
         and wreq = "\<lparr>web_method = str ''GET'',
                       web_json = Inl (str ''Unexpected end of JSON input'')\<rparr>"
         and ev = "\<lparr>httpMethod = str ''GET'', event_body = None\<rparr>"]
    by (simp add: str_def well_shaped_error_only)
  have b: "statusCode (fst (handler_api both_keys
         \<lparr>req_method = str ''POST'', req_body = JObj []\<rparr> silent)) = 400 \<and>
     statusCode (fst (handler_web both_keys
         \<lparr>web_method = str ''POST'', web_json = Inr (JObj [])\<rparr> silent)) = 400 \<and>
     statusCode (fst (handler_netlify both_keys
         \<lparr>httpMethod = str ''POST'', event_body = Some (Inr (JObj []))\<rparr> silent)) = 400"
    using failure_responses
      [where e = both_keys and w = silent
         and req = "\<lparr>req_method = str ''POST'', req_body = JObj []\<rparr>"
         and wreq = "\<lparr>web_method = str ''POST'', web_json = Inr (JObj [])\<rparr>"
         and ev = "\<lparr>httpMethod = str ''POST'', event_body = Some (Inr (JObj []))\<rparr>"]
    by (simp add: image_field_def)
  have c: "statusCode (fst (handler_web no_env
         \<lparr>web_method = str ''POST'', web_json = Inr (image_body ?large)\<rparr> silent)) = 413"
    using failure_responses
      [where e = no_env and w = silent and b = "image_body ?large" and s = ?large
         and wreq = "\<lparr>web_method = str ''POST'', web_json = Inr (image_body ?large)\<rparr>"]
    by (simp add: image_body_def starts_with_def str_def)
  have d: "statusCode (fst (handler_api no_env ?req silent)) = 500 \<and>
     statusCode (fst (handler_web no_env ?wreq silent)) = 500"
    using failure_responses
      [where e = no_env and w = silent and b = "image_body ?small" and s = ?small
         and req = ?req and wreq = ?wreq]
    by (simp add: image_body_def starts_with_def str_def unset_def no_env_def)
  have e: "fst (handler_api both_keys ?req \<lparr>replies = [completion 503 []], calls = []\<rparr>)
       = json 502 (JObj [(str ''error'', JStr (str ''openrouter_failed'')),
                         (str ''detail'', JStr [])]) \<and>
     fst (handler_web both_keys ?wreq \<lparr>replies = [completion 503 []], calls = []\<rparr>)
       = json 500 (error_only ''pipeline_exception'') \<and>
     statusCode (fst (handler_netlify both_keys ?ev
       \<lparr>replies = [completion 503 []], calls = []\<rparr>)) = 500"
    using failure_responses
      [where e = both_keys and w = "\<lparr>replies = [completion 503 []], calls = []\<rparr>"
         and b = "image_body ?small" and s = ?small and req = ?req and wreq = ?wreq
         and ev = ?ev and r = ?bad and rs = "[]"]
    by (simp add: defs)
  have f: "statusCode (fst (handler_api both_keys ?req
       \<lparr>replies = [completion 200 (str ''1+1''), completion 503 []], calls = []\<rparr>)) = 502"
    using failure_responses
      [where e = both_keys
         and w = "\<lparr>replies = [completion 200 (str ''1+1''), completion 503 []], calls = []\<rparr>"
         and b = "image_body ?small" and s = ?small and req = ?req and r = ?good
         and q = ?bad and rs = "[]"
         and j = "JObj [(str ''choices'',
                 JArr [JObj [(str ''message'', JObj [(str ''content'', JStr (str ''1+1''))])]])]"
         and t = "JStr (str ''1+1'')"]
    by (simp add: defs message_content_def opt_def trim_def is_space_def)
  have g: "fst (handler_api both_keys ?req
         \<lparr>replies = [Failed (str ''fetch failed'')], calls = []\<rparr>)
       = json 500 (error_only ''pipeline_exception'') \<and>
     fst (handler_web both_keys ?wreq
         \<lparr>replies = [Failed (str ''fetch failed'')], calls = []\<rparr>)
       = json 500 (error_only ''pipeline_exception'') \<and>
     statusCode (fst (handler_netlify both_keys ?ev
         \<lparr>replies = [Failed (str ''fetch failed'')], calls = []\<rparr>)) = 500"
    using failure_responses
      [where e = both_keys
         and w = "\<lparr>replies = [Failed (str ''fetch failed'')], calls = []\<rparr>"
         and b = "image_body ?small" and s = ?small and req = ?req and wreq = ?wreq
         and ev = ?ev and m = "str ''fetch failed''" and rs = "[]"]
    by (simp add: defs)
  let ?failed = "\<lparr>replies = [Failed (str ''fetch failed'')], calls = []\<rparr>"
  let ?one = "\<lparr>replies = [completion 200 (str ''1+1'')], calls = []\<rparr>"
  let ?two = "\<lparr>replies = [completion 200 (str ''1+1''), completion 503 []], calls = []\<rparr>"
  let ?after = "\<lparr>replies = [],
       calls = [qwen_call (Some (str ''or-key'')) (Image_url_object (JStr ?small))]\<rparr>"
  let ?notjson = "\<lparr>http_status = 200, statusText = [], text_body = Some [],
       json_body = Inl (str ''Unexpected token'')\<rparr>"
  note steps = get_prop_or_else invalid_image_def fetch_def and_then_def lift_def throw_def
    ret_def Let_def
  have h: "handler_netlify both_keys
         \<lparr>httpMethod = str ''POST'', event_body = Some (Inl (str ''Unexpected token''))\<rparr>
         silent
       = (pipeline_error (Thrown (str ''Unexpected token'')), silent)"
    using failure_responses
      [where e = both_keys and w = silent and n = "str ''Unexpected token''"
         and ev = "\<lparr>httpMethod = str ''POST'',
                     event_body = Some (Inl (str ''Unexpected token''))\<rparr>"]
    by simp
  have t1: "api_try both_keys ?req ?failed
       = (Inl (Thrown (str ''fetch failed'')),
          \<lparr>replies = [], calls = [api_ocr_call (Some (str ''or-key'')) ?small]\<rparr>)"
    by (simp add: api_try_def steps defs)
  have t2: "web_try both_keys ?wreq ?failed = (Inl (Thrown (str ''fetch failed'')), ?after)"
    by (simp add: web_try_def ocrWithQwen_def callOpenRouter_def steps defs)
  have t3: "netlify_try both_keys ?ev ?failed
       = (Inl (Thrown (str ''fetch failed'')),
          snd (netlify_try both_keys ?ev ?failed))"
    by (simp add: netlify_try_def parse_body_def destructure_def runOCRWithOpenRouter_def
        dataUrlToParts_def steps defs)
  have i: "handler_api both_keys ?req ?failed
       = (json 500 (error_only ''pipeline_exception''),
          \<lparr>replies = [], calls = [api_ocr_call (Some (str ''or-key'')) ?small]\<rparr>) \<and>
     handler_web both_keys ?wreq ?failed
       = (json 500 (error_only ''pipeline_exception''), ?after) \<and>
     fst (handler_netlify both_keys ?ev ?failed) = pipeline_error (Thrown (str ''fetch failed''))"
    using failure_responses
      [where e = both_keys and w = ?failed and req = ?req and wreq = ?wreq and ev = ?ev
         and err = "Thrown (str ''fetch failed'')"
         and ?w1.0 = "\<lparr>replies = [], calls = [api_ocr_call (Some (str ''or-key'')) ?small]\<rparr>"]
      failure_responses
      [where e = both_keys and w = ?failed and req = ?req and wreq = ?wreq and ev = ?ev
         and err = "Thrown (str ''fetch failed'')" and ?w1.0 = ?after]
      failure_responses
      [where e = both_keys and w = ?failed and req = ?req and wreq = ?wreq and ev = ?ev
         and err = "Thrown (str ''fetch failed'')"
         and ?w1.0 = "snd (netlify_try both_keys ?ev ?failed)"]
      t1 t2 t3
    by simp
  have o: "ocrWithQwen (Some (str ''or-key'')) ?small ?one = (Inr (str ''1+1''), ?after)"
    "ocrWithQwen (Some (str ''or-key'')) ?small ?two
       = (Inr (str ''1+1''),
          \<lparr>replies = [completion 503 []],
           calls = [qwen_call (Some (str ''or-key'')) (Image_url_object (JStr ?small))]\<rparr>)"
    by (simp_all add: ocrWithQwen_def callOpenRouter_def isNoImageReply_def final_cleaning_def
        strip_quotes_def is_quote_def understood_preface_def trim_def is_space_def
        toLowerCase_def ascii_lower_def message_content_def opt_def json_or_def steps defs)
  have k: "fst (handler_api openrouter_only ?req ?one) = json 500 (error_only ''missing_groq_key'') \<and>
     handler_web openrouter_only ?wreq ?one = (json 500 (error_only ''missing_groq_key''), ?after)"
    using failure_responses
      [where e = openrouter_only and w = ?one and b = "image_body ?small" and s = ?small
         and req = ?req and wreq = ?wreq and r = ?good and rs = "[]"
         and j = "JObj [(str ''choices'',
                 JArr [JObj [(str ''message'', JObj [(str ''content'', JStr (str ''1+1''))])]])]"
         and t = "JStr (str ''1+1'')" and transcript = "str ''1+1''" and ?w2.0 = ?after]
      o(1)
    by (simp add: defs openrouter_only_def message_content_def opt_def trim_def is_space_def)
  have l: "fst (handler_api both_keys ?req \<lparr>replies = [Reply ?notjson], calls = []\<rparr>)
       = json 500 (error_only ''pipeline_exception'')"
    using failure_responses
      [where e = both_keys and w = "\<lparr>replies = [Reply ?notjson], calls = []\<rparr>"
         and b = "image_body ?small" and s = ?small and req = ?req and r = ?notjson
         and rs = "[]" and n = "str ''Unexpected token''"]
    by (simp add: defs)
  have n: "fst (handler_web both_keys ?wreq ?two) = json 500 (error_only ''pipeline_exception'')"
    using failure_responses
      [where e = both_keys and w = ?two and b = "image_body ?small" and s = ?small
         and wreq = ?wreq and transcript = "str ''1+1''" and q = ?bad and rs = "[]"
         and ?w2.0 = "\<lparr>replies = [completion 503 []],
           calls = [qwen_call (Some (str ''or-key'')) (Image_url_object (JStr ?small))]\<rparr>"]
      o(2)
    by (simp add: defs)
  from a b c d e f g h i k l n show ?thesis by (intro conjI) (elim conjE, assumption)+
qed

text \<open>
  The claim as stated fails where it maps an upstream HTTP failure to 502: in the
  Response-based handler \<open>callOpenRouter\<close> throws on a response that is not ok, and the
  \<open>catch\<close> of the handler answers 500. It also fails where it maps invalid input to
  400: the handler of netlify/functions/pipeline.js parses the body inside its \<open>try\<close>
  and finds out that an image is no data URL in the OCR step, which throws; a body that is
  not JSON and an image \<open>hello\<close> are both answered with 500.
\<close>

theorem failure_status_counterexample:
  "handler_web both_keys
     \<lparr>web_method = str ''POST'',
      web_json = Inr (image_body (str ''data:image/png;base64,AAAA''))\<rparr>
     \<lparr>replies = [completion 503 []], calls = []\<rparr>
   = (json 500 (error_only ''pipeline_exception''),
      \<lparr>replies = [],
       calls = [qwen_call (Some (str ''or-key''))
                  (Image_url_object (JStr (str ''data:image/png;base64,AAAA'')))]\<rparr>) \<and>
   handler_netlify both_keys
     \<lparr>httpMethod = str ''POST'', event_body = Some (Inl (str ''Unexpected token''))\<rparr> silent
   = (json 500 (JObj [(str ''error'', JStr (str ''Unexpected token''))]), silent) \<and>
   handler_netlify both_keys
     \<lparr>httpMethod = str ''POST'', event_body = Some (Inr (image_body (str ''hello'')))\<rparr> silent
   = (json 500 (JObj [(str ''error'', JStr (str ''Invalid image data URL''))]), silent)"
proof -
  have a: "handler_web both_keys
     \<lparr>web_method = str ''POST'',
      web_json = Inr (image_body (str ''data:image/png;base64,AAAA''))\<rparr>
     \<lparr>replies = [completion 503 []], calls = []\<rparr>
   = (json 500 (error_only ''pipeline_exception''),
      \<lparr>replies = [],
       calls = [qwen_call (Some (str ''or-key''))
                  (Image_url_object (JStr (str ''data:image/png;base64,AAAA'')))]\<rparr>)"
    by (simp add: handler_web_def web_try_def get_prop_or_else invalid_image_def ocrWithQwen_def
        callOpenRouter_def fetch_def and_then_def throw_def ret_def unset_def both_keys_def
        image_body_def completion_def ok_def starts_with_def str_def Let_def)
  have b: "handler_netlify both_keys
     \<lparr>httpMethod = str ''POST'', event_body = Some (Inl (str ''Unexpected token''))\<rparr> silent
   = (json 500 (JObj [(str ''error'', JStr (str ''Unexpected token''))]), silent)"
    by (simp add: handler_netlify_def netlify_try_def parse_body_def and_then_def lift_def
        pipeline_error_def str_def)
  have c: "handler_netlify both_keys
     \<lparr>httpMethod = str ''POST'', event_body = Some (Inr (image_body (str ''hello'')))\<rparr> silent
   = (json 500 (JObj [(str ''error'', JStr (str ''Invalid image data URL''))]), silent)"
    by (simp add: handler_netlify_def netlify_try_def parse_body_def destructure_def
        runOCRWithOpenRouter_def dataUrlToParts_def and_then_def lift_def throw_def
        pipeline_error_def image_body_def starts_with_def str_def)
  from a b c show ?thesis by (intro conjI)
qed

lemma callOpenRouter_world: "snd (callOpenRouter c w) = snd (fetch c w)"
  by (cases "fetch c w")
     (auto simp: callOpenRouter_def and_then_def throw_def ret_def Let_def split: sum.splits)

lemma second_attempt_world:
  "snd (second_attempt e u w) = snd (fetch (schema_b_call e u) w)"
  by (cases "fetch (schema_b_call e u) w")
     (auto simp: second_attempt_def and_then_def lift_def ret_def split: sum.splits)

lemma trim_empty: "trim s = [] \<longleftrightarrow> (\<forall>c\<in>set s. is_space c)"
proof
  assume "trim s = []"
  then have a: "\<forall>c\<in>set (dropWhile is_space s). is_space c"
    by (simp add: trim_def dropWhile_eq_Nil_conv)
  have "dropWhile is_space s = []"
  proof (rule ccontr)
    assume n: "dropWhile is_space s \<noteq> []"
    then have "\<not> is_space (hd (dropWhile is_space s))" by (rule hd_dropWhile)
    moreover have "hd (dropWhile is_space s) \<in> set (dropWhile is_space s)" using n by simp
    ultimately show False using a by blast
  qed
  then show "\<forall>c\<in>set s. is_space c" by (simp add: dropWhile_eq_Nil_conv)
next
  assume "\<forall>c\<in>set s. is_space c"
  then have d: "dropWhile is_space s = []" by (simp add: dropWhile_eq_Nil_conv)
  show "trim s = []" by (simp only: trim_def d dropWhile.simps rev.simps)
qed

lemma isNoImageReply_iff:
  "isNoImageReply a =
     (trim a = [] \<or> js_includes (toLowerCase a) (str ''provide the image'') \<or>
      js_includes (toLowerCase a) (str ''no image'') \<or>
      js_includes (toLowerCase a) (str ''cannot see''))"
proof -
  have sp: "is_space (ascii_lower c) = is_space c" for c
    by (auto simp: ascii_lower_def is_space_def)
  have "trim (toLowerCase a) = [] \<longleftrightarrow> trim a = []"
    by (simp add: trim_empty toLowerCase_def sp)
  moreover have "a = [] \<Longrightarrow> trim a = []" by (simp add: trim_def)
  ultimately show ?thesis by (auto simp: isNoImageReply_def Let_def)
qed

text \<open>
  Claim C6, as amended. In the Response-based handler the second OCR request (the same
  model with the other shape of the image part) is made exactly when the first request
  returns a transcript that is empty or whitespace or that contains, in either case of its
  letters, \<open>provide the image\<close>, \<open>no image\<close> or \<open>cannot see\<close>; when the first request
  throws (a response that is not ok, a network failure) there is no second one. In the
  Express-style handler with two request schemas the second OCR request (the Gemini model)
  is made exactly when the first response is not ok, or its transcript is falsy (the empty
  string), or contains, in either case of its letters, \<open>provide the image\<close>, \<open>no image\<close>,
  \<open>can't see\<close> or \<open>cannot see\<close>; a first request that fails altogether has no second
  one. In every other case exactly one OCR request is made.
\<close>

theorem second_ocr_request:
  "(callOpenRouter (qwen_call key (Image_url_object (JStr u))) w = (Inr a, w1) \<longrightarrow>
      calls (snd (ocrWithQwen key u w))
        = calls w @ [qwen_call key (Image_url_object (JStr u))] @
          (if trim a = [] \<or> js_includes (toLowerCase a) (str ''provide the image'') \<or>
              js_includes (toLowerCase a) (str ''no image'') \<or>
              js_includes (toLowerCase a) (str ''cannot see'')
           then [qwen_call key (Image_url_string (JStr u))] else [])) \<and>
   (callOpenRouter (qwen_call key (Image_url_object (JStr u))) w = (Inl err, w1) \<longrightarrow>
      calls (snd (ocrWithQwen key u w)) = calls w @ [qwen_call key (Image_url_object (JStr u))]) \<and>
   (replies w = Reply r # rs \<and> \<not> ok r \<longrightarrow>
      calls (snd (two_schemas_ocr sh e u w))
        = calls w @ [schema_a_call e u, schema_b_call e u]) \<and>
   (replies w = Reply r # rs \<and> ok r \<and> transcript_of (json_or r JNull) = Inr t \<and>
    ToString sh t = Some s \<longrightarrow>
      calls (snd (two_schemas_ocr sh e u w))
        = calls w @ [schema_a_call e u] @
          (if \<not> truthy t \<or> js_includes (map ascii_lower s) (str ''provide the image'') \<or>
              js_includes (map ascii_lower s) (str ''no image'') \<or>
              js_includes (map ascii_lower s) (str ''can't see'') \<or>
              js_includes (map ascii_lower s) (str ''cannot see'')
           then [schema_b_call e u] else [])) \<and>
   (replies w = Failed m # rs \<longrightarrow>
      calls (snd (two_schemas_ocr sh e u w)) = calls w @ [schema_a_call e u])"
proof -
  let ?A = "qwen_call key (Image_url_object (JStr u))"
  let ?B = "qwen_call key (Image_url_string (JStr u))"
  have w1: "calls w1 = calls w @ [?A]" if "callOpenRouter ?A w = (x, w1)" for x
    using callOpenRouter_world [of ?A w] fetch_calls [of ?A w] that by simp
  have q1: "calls (snd (ocrWithQwen key u w))
      = calls w @ [?A] @
        (if trim a = [] \<or> js_includes (toLowerCase a) (str ''provide the image'') \<or>
            js_includes (toLowerCase a) (str ''no image'') \<or>
            js_includes (toLowerCase a) (str ''cannot see'')
         then [?B] else [])"
    if c: "callOpenRouter ?A w = (Inr a, w1)"
  proof (cases "isNoImageReply a")
    case True
    have "snd (ocrWithQwen key u w) = snd (callOpenRouter ?B w1)"
      using c True
      by (cases "callOpenRouter ?B w1")
         (auto simp: ocrWithQwen_def and_then_def ret_def split: sum.splits)
    then have "calls (snd (ocrWithQwen key u w)) = calls w1 @ [?B]"
      by (simp add: callOpenRouter_world fetch_calls)
    then show ?thesis using w1 [OF c] True by (simp add: isNoImageReply_iff)
  next
    case False
    have "snd (ocrWithQwen key u w) = w1"
      using c False by (simp add: ocrWithQwen_def and_then_def ret_def)
    then show ?thesis using w1 [OF c] False by (simp add: isNoImageReply_iff)
  qed
  have q2: "calls (snd (ocrWithQwen key u w)) = calls w @ [?A]"
    if c: "callOpenRouter ?A w = (Inl err, w1)"
  proof -
    have "snd (ocrWithQwen key u w) = w1"
      using c by (simp add: ocrWithQwen_def and_then_def)
    then show ?thesis using w1 [OF c] by simp
  qed
  have t1: "calls (snd (two_schemas_ocr sh e u w)) = calls w @ [schema_a_call e u, schema_b_call e u]"
    if "replies w = Reply r # rs" "\<not> ok r"
  proof -
    have "snd (two_schemas_ocr sh e u w)
        = snd (second_attempt e u \<lparr>replies = rs, calls = calls w @ [schema_a_call e u]\<rparr>)"
      using that
      by (simp add: two_schemas_ocr_def first_attempt_def fetch_def and_then_def lift_def)
    then show ?thesis by (simp add: second_attempt_world fetch_calls)
  qed
  have t2: "calls (snd (two_schemas_ocr sh e u w))
      = calls w @ [schema_a_call e u] @
        (if \<not> truthy t \<or> js_includes (map ascii_lower s) (str ''provide the image'') \<or>
            js_includes (map ascii_lower s) (str ''no image'') \<or>
            js_includes (map ascii_lower s) (str ''can't see'') \<or>
            js_includes (map ascii_lower s) (str ''cannot see'')
         then [schema_b_call e u] else [])"
    if h: "replies w = Reply r # rs" "ok r" "transcript_of (json_or r JNull) = Inr t"
      "ToString sh t = Some s"
  proof (cases "negative_reply s \<or> \<not> truthy t")
    case True
    have "snd (two_schemas_ocr sh e u w)
        = snd (second_attempt e u \<lparr>replies = rs, calls = calls w @ [schema_a_call e u]\<rparr>)"
      using h True
      by (simp add: two_schemas_ocr_def first_attempt_def fetch_def and_then_def lift_def)
    then have "calls (snd (two_schemas_ocr sh e u w))
        = calls w @ [schema_a_call e u, schema_b_call e u]"
      by (simp add: second_attempt_world fetch_calls)
    then show ?thesis using True by (auto simp: negative_reply_def Let_def)
  next
    case False
    have "snd (two_schemas_ocr sh e u w)
        = \<lparr>replies = rs, calls = calls w @ [schema_a_call e u]\<rparr>"
      using h False
      by (simp add: two_schemas_ocr_def first_attempt_def fetch_def and_then_def lift_def
          ret_def)
    then show ?thesis using False by (auto simp: negative_reply_def Let_def)
  qed
  have t3: "calls (snd (two_schemas_ocr sh e u w)) = calls w @ [schema_a_call e u]"
    if "replies w = Failed m # rs"
    using that by (simp add: two_schemas_ocr_def fetch_def and_then_def)
  from q1 q2 t1 t2 t3 show ?thesis by blast
qed

lemmas reply_eval_defs =
  callOpenRouter_def qwen_call_def schema_a_call_def schema_b_call_def transcript_of_def
  message_content_def opt_def json_or_def text_or_def or_else_def trim_def is_space_def toLowerCase_def
  ascii_lower_def starts_with_def fetch_def and_then_def throw_def ret_def ok_def
  completion_def both_keys_def bearer_def str_def Let_def

theorem second_ocr_request_witness:
  "calls (snd (ocrWithQwen (Some (str ''or-key'')) (str ''data:image/png;base64,AAAA'')
      \<lparr>replies = [completion 200 (str ''Please PROVIDE the image.''), completion 200 (str ''1+1'')],
       calls = []\<rparr>))
     = [qwen_call (Some (str ''or-key''))
          (Image_url_object (JStr (str ''data:image/png;base64,AAAA''))),
        qwen_call (Some (str ''or-key''))
          (Image_url_string (JStr (str ''data:image/png;base64,AAAA'')))] \<and>
   calls (snd (ocrWithQwen (Some (str ''or-key'')) (str ''data:image/png;base64,AAAA'')
      \<lparr>replies = [completion 200 (str ''1+1'')], calls = []\<rparr>))
     = [qwen_call (Some (str ''or-key''))
          (Image_url_object (JStr (str ''data:image/png;base64,AAAA'')))] \<and>
   calls (snd (ocrWithQwen (Some (str ''or-key'')) (str ''data:image/png;base64,AAAA'')
      \<lparr>replies = [completion 503 []], calls = []\<rparr>))
     = [qwen_call (Some (str ''or-key''))
          (Image_url_object (JStr (str ''data:image/png;base64,AAAA'')))] \<and>
   calls (snd (two_schemas_ocr (\<lambda>n. []) both_keys (str ''data:image/png;base64,AAAA'')
      \<lparr>replies = [completion 503 [], completion 200 (str ''1+1'')], calls = []\<rparr>))
     = [schema_a_call both_keys (str ''data:image/png;base64,AAAA''),
        schema_b_call both_keys (str ''data:image/png;base64,AAAA'')] \<and>
   calls (snd (two_schemas_ocr (\<lambda>n. []) both_keys (str ''data:image/png;base64,AAAA'')
      \<lparr>replies = [completion 200 (str ''1+1'')], calls = []\<rparr>))
     = [schema_a_call both_keys (str ''data:image/png;base64,AAAA'')] \<and>
   calls (snd (two_schemas_ocr (\<lambda>n. []) both_keys (str ''data:image/png;base64,AAAA'')
      \<lparr>replies = [Failed (str ''fetch failed'')], calls = []\<rparr>))
     = [schema_a_call both_keys (str ''data:image/png;base64,AAAA'')]"
proof -
  let ?u = "str ''data:image/png;base64,AAAA''"
  let ?key = "Some (str ''or-key'')"
  let ?A = "qwen_call ?key (Image_url_object (JStr ?u))"
  let ?wa = "\<lparr>replies = [completion 200 (str ''Please PROVIDE the image.''),
                         completion 200 (str ''1+1'')], calls = []\<rparr>"
  let ?wb = "\<lparr>replies = [completion 200 (str ''1+1'')], calls = []\<rparr>"
  let ?wc = "\<lparr>replies = [completion 503 []], calls = []\<rparr>"
  let ?wd = "\<lparr>replies = [completion 503 [], completion 200 (str ''1+1'')], calls = []\<rparr>"
  let ?wf = "\<lparr>replies = [Failed (str ''fetch failed'')], calls = []\<rparr>"
  have ca: "callOpenRouter ?A ?wa
      = (Inr (str ''Please PROVIDE the image.''),
         \<lparr>replies = [completion 200 (str ''1+1'')], calls = [?A]\<rparr>)"
    by (simp add: reply_eval_defs)
  have cb: "callOpenRouter ?A ?wb = (Inr (str ''1+1''), \<lparr>replies = [], calls = [?A]\<rparr>)"
    by (simp add: reply_eval_defs)
  have cc: "callOpenRouter ?A ?wc
      = (Inl (Thrown (str ''OpenRouter OCR failed: 503 '')), \<lparr>replies = [], calls = [?A]\<rparr>)"
    by (simp add: reply_eval_defs dec.simps)
  have 1: "calls (snd (ocrWithQwen ?key ?u ?wa))
      = [?A, qwen_call ?key (Image_url_string (JStr ?u))]"
    using second_ocr_request [where key = "?key" and u = ?u and w = ?wa
        and a = "str ''Please PROVIDE the image.''"
        and ?w1.0 = "\<lparr>replies = [completion 200 (str ''1+1'')], calls = [?A]\<rparr>"] ca
    by (simp add: trim_def is_space_def toLowerCase_def ascii_lower_def starts_with_def str_def)
  have 2: "calls (snd (ocrWithQwen ?key ?u ?wb)) = [?A]"
    using second_ocr_request [where key = "?key" and u = ?u and w = ?wb and a = "str ''1+1''"
        and ?w1.0 = "\<lparr>replies = [], calls = [?A]\<rparr>"] cb
    by (simp add: trim_def is_space_def toLowerCase_def ascii_lower_def starts_with_def str_def)
  have 3: "calls (snd (ocrWithQwen ?key ?u ?wc)) = [?A]"
    using second_ocr_request [where key = "?key" and u = ?u and w = ?wc
        and err = "Thrown (str ''OpenRouter OCR failed: 503 '')"
        and ?w1.0 = "\<lparr>replies = [], calls = [?A]\<rparr>"] cc
    by simp
  have 4: "calls (snd (two_schemas_ocr (\<lambda>n. []) both_keys ?u ?wd))
      = [schema_a_call both_keys ?u, schema_b_call both_keys ?u]"
    using second_ocr_request [where sh = "\<lambda>n. []" and e = both_keys and u = ?u and w = ?wd
        and r = "\<lparr>http_status = 503, statusText = [], text_body = Some [],
                 json_body = Inr (JObj [(str ''choices'',
                   JArr [JObj [(str ''message'', JObj [(str ''content'', JStr [])])]])])\<rparr>"
        and rs = "[completion 200 (str ''1+1'')]"]
    by (simp add: completion_def ok_def)
  have 5: "calls (snd (two_schemas_ocr (\<lambda>n. []) both_keys ?u ?wb))
      = [schema_a_call both_keys ?u]"
    using second_ocr_request [where sh = "\<lambda>n. []" and e = both_keys and u = ?u and w = ?wb
        and r = "\<lparr>http_status = 200, statusText = [], text_body = Some [],
                 json_body = Inr (JObj [(str ''choices'',
                   JArr [JObj [(str ''message'',
                     JObj [(str ''content'', JStr (str ''1+1''))])]])])\<rparr>"
        and rs = "[]" and t = "JStr (str ''1+1'')" and s = "str ''1+1''"]
    by (simp add: completion_def ok_def transcript_of_def message_content_def opt_def
        json_or_def or_else_def trim_def is_space_def ascii_lower_def starts_with_def str_def)
  have 6: "calls (snd (two_schemas_ocr (\<lambda>n. []) both_keys ?u ?wf))
      = [schema_a_call both_keys ?u]"
    using second_ocr_request [where sh = "\<lambda>n. []" and e = both_keys and u = ?u and w = ?wf
        and m = "str ''fetch failed''" and rs = "[]"]
    by simp
  from 1 2 3 4 5 6 show ?thesis by (intro conjI)
qed

text \<open>
  The claim as stated fails in the Express-style handler with two request schemas: the
  reply \<open>I can't see anything.\<close> is not empty and holds none of the three texts the
  claim names (the test of the Response-based handler, which is made of these three, says
  so), and the second OCR request is made all the same, because this handler also looks for
  \<open>can't see\<close>.
\<close>

theorem cant_see_second_request_counterexample:
  "calls (snd (two_schemas_ocr (\<lambda>n. []) both_keys (str ''data:image/png;base64,AAAA'')
      \<lparr>replies = [completion 200 (str ''I can't see anything.''), completion 200 (str ''1+1'')],
       calls = []\<rparr>))
     = [schema_a_call both_keys (str ''data:image/png;base64,AAAA''),
        schema_b_call both_keys (str ''data:image/png;base64,AAAA'')] \<and>
   \<not> isNoImageReply (str ''I can't see anything.'')"
  by (simp add: two_schemas_ocr_def first_attempt_def second_attempt_def negative_reply_def
      isNoImageReply_def lift_def reply_eval_defs)

end
